(* ===== verification/Prelude.thy ===== *)
theory Prelude
  imports Main "HOL-Library.Word" "HOL-Library.List_Lexorder"
begin

text \<open>
  The shared vocabulary of the development.  It holds the Rust primitives the crates use (fixed
  width integers with checked and saturating arithmetic, \<open>Result\<close>), the association-list reading
  of \<open>BTreeMap\<close>, and the generic lemmas on words, lists and results on which the component
  theories rest.

  Integers keep their width: \<open>u8\<close> to \<open>u128\<close> are words read by \<^term>\<open>unat\<close>, and \<open>i64\<close> is a
  64-bit word read by \<^term>\<open>sint\<close>.  A \<open>Result<T, E>\<close> is the sum \<open>'e + 'a\<close> with the error on the left.
\<close>

unbundle bit_operations_syntax

section \<open>Types\<close>

type_synonym u8 = "8 word"
type_synonym u16 = "16 word"
type_synonym u32 = "32 word"
type_synonym u64 = "64 word"
type_synonym u128 = "128 word"
type_synonym i64 = "64 word"
type_synonym bytes = "8 word list"

named_theorems arith_defs \<open>checked and saturating integer arithmetic\<close>
named_theorems result_simps \<open>reasoning about results\<close>

section \<open>Results\<close>

fun and_then :: "'e + 'a \<Rightarrow> ('a \<Rightarrow> 'e + 'b) \<Rightarrow> 'e + 'b" where
  "and_then (Inl e) f = Inl e"
| "and_then (Inr a) f = f a"

fun is_ok :: "'e + 'a \<Rightarrow> bool" where
  "is_ok (Inl e) = False"
| "is_ok (Inr a) = True"

fun map_ok :: "('a \<Rightarrow> 'b) \<Rightarrow> 'e + 'a \<Rightarrow> 'e + 'b" where
  "map_ok f (Inl e) = Inl e"
| "map_ok f (Inr a) = Inr (f a)"

fun map_err :: "('e \<Rightarrow> 'f) \<Rightarrow> 'e + 'a \<Rightarrow> 'f + 'a" where
  "map_err f (Inl e) = Inl (f e)"
| "map_err f (Inr a) = Inr a"

definition ok_or :: "'e \<Rightarrow> 'a option \<Rightarrow> 'e + 'a" where
  "ok_or e x = (case x of None \<Rightarrow> Inl e | Some a \<Rightarrow> Inr a)"

definition ensure :: "bool \<Rightarrow> 'e \<Rightarrow> 'e + unit" where
  "ensure b e = (if b then Inr () else Inl e)"

section \<open>Slices\<close>

text \<open>\<open>Iterator::position\<close>: the index of the first element satisfying a predicate.\<close>

fun position :: "('a \<Rightarrow> bool) \<Rightarrow> 'a list \<Rightarrow> nat option" where
  "position P [] = None"
| "position P (x # xs) = (if P x then Some 0 else map_option Suc (position P xs))"

text \<open>\<open>slice::windows(2)\<close>: every pair of neighbours satisfies a predicate.\<close>

fun windows2_all :: "('a \<Rightarrow> 'a \<Rightarrow> bool) \<Rightarrow> 'a list \<Rightarrow> bool" where
  "windows2_all P (x # y # xs) \<longleftrightarrow> P x y \<and> windows2_all P (y # xs)"
| "windows2_all P _ \<longleftrightarrow> True"

text \<open>\<open>Vec::dedup_by_key\<close>: of a run of neighbours with equal keys only the first is kept.\<close>

fun dedup_by_key :: "('a \<Rightarrow> 'k) \<Rightarrow> 'a list \<Rightarrow> 'a list" where
  "dedup_by_key f (x # y # xs) =
    (if f x = f y then dedup_by_key f (x # xs) else x # dedup_by_key f (y # xs))"
| "dedup_by_key f xs = xs"

section \<open>Checked and saturating arithmetic\<close>

definition checked_add :: "'a::len word \<Rightarrow> 'a word \<Rightarrow> 'a word option" where
  [arith_defs]: "checked_add a b = (if unat a + unat b < 2 ^ LENGTH('a) then Some (a + b) else None)"

definition checked_sub :: "'a::len word \<Rightarrow> 'a word \<Rightarrow> 'a word option" where
  [arith_defs]: "checked_sub a b = (if b \<le> a then Some (a - b) else None)"

definition saturating_add :: "'a::len word \<Rightarrow> 'a word \<Rightarrow> 'a word" where
  [arith_defs]: "saturating_add a b = (if unat a + unat b < 2 ^ LENGTH('a) then a + b else - 1)"

definition saturating_sub :: "'a::len word \<Rightarrow> 'a word \<Rightarrow> 'a word" where
  [arith_defs]: "saturating_sub a b = (if b \<le> a then a - b else 0)"

definition sint_in_range :: "'a::len itself \<Rightarrow> int \<Rightarrow> bool" where
  [arith_defs]: "sint_in_range t x \<longleftrightarrow> - (2 ^ (LENGTH('a) - 1)) \<le> x \<and> x < 2 ^ (LENGTH('a) - 1)"

definition checked_sadd :: "'a::len word \<Rightarrow> 'a word \<Rightarrow> 'a word option" where
  [arith_defs]: "checked_sadd a b =
    (if sint_in_range TYPE('a) (sint a + sint b) then Some (a + b) else None)"

definition checked_ssub :: "'a::len word \<Rightarrow> 'a word \<Rightarrow> 'a word option" where
  [arith_defs]: "checked_ssub a b =
    (if sint_in_range TYPE('a) (sint a - sint b) then Some (a - b) else None)"

section \<open>Lemmas on results\<close>

lemma and_then_Inr_iff [result_simps]: "and_then r f = Inr b \<longleftrightarrow> (\<exists>a. r = Inr a \<and> f a = Inr b)"
  by (cases r) auto

lemma and_then_Inl_iff [result_simps]:
  "and_then r f = Inl e \<longleftrightarrow> r = Inl e \<or> (\<exists>a. r = Inr a \<and> f a = Inl e)"
  by (cases r) auto

lemma map_ok_Inr_iff [result_simps]: "map_ok f r = Inr b \<longleftrightarrow> (\<exists>a. r = Inr a \<and> b = f a)"
  by (cases r) auto

lemma map_ok_Inl_iff [result_simps]: "map_ok f r = Inl e \<longleftrightarrow> r = Inl e"
  by (cases r) auto

lemma map_err_Inl_iff [result_simps]: "map_err f r = Inl e \<longleftrightarrow> (\<exists>d. r = Inl d \<and> e = f d)"
  by (cases r) auto

lemma map_err_Inr_iff [result_simps]: "map_err f r = Inr b \<longleftrightarrow> r = Inr b"
  by (cases r) auto

lemma is_ok_iff [result_simps]: "is_ok r \<longleftrightarrow> (\<exists>a. r = Inr a)"
  by (cases r) auto

lemma ensure_Inr_iff [simp]: "ensure b e = Inr u \<longleftrightarrow> b"
  by (simp add: ensure_def)

lemma ensure_Inl_iff [simp]: "ensure b e = Inl e' \<longleftrightarrow> \<not> b \<and> e' = e"
  by (auto simp: ensure_def)

lemma ensure_True [simp]: "ensure True e = Inr ()"
  by (simp add: ensure_def)

lemma ensure_False [simp]: "ensure False e = Inl e"
  by (simp add: ensure_def)

lemma ok_or_Inr_iff [simp]: "ok_or e x = Inr a \<longleftrightarrow> x = Some a"
  by (cases x) (auto simp: ok_or_def)

lemma ok_or_Inl_iff [simp]: "ok_or e x = Inl e' \<longleftrightarrow> x = None \<and> e' = e"
  by (cases x) (auto simp: ok_or_def)

lemma ok_or_Some [simp]: "ok_or e (Some a) = Inr a"
  by (simp add: ok_or_def)

lemma ok_or_None [simp]: "ok_or e None = Inl e"
  by (simp add: ok_or_def)

section \<open>Lemmas on slices\<close>

lemma position_eq_Some_iff:
  "position P xs = Some i \<longleftrightarrow> i < length xs \<and> P (xs ! i) \<and> (\<forall>j < i. \<not> P (xs ! j))"
  by (induction xs arbitrary: i) (auto simp: nth_Cons less_Suc_eq_0_disj split: nat.splits)

lemma position_eq_None_iff: "position P xs = None \<longleftrightarrow> (\<forall>x \<in> set xs. \<not> P x)"
  by (induction xs) auto

lemma find_eq_nth_position: "List.find P xs = map_option (nth xs) (position P xs)"
  by (induction xs) (auto simp: option.map_comp comp_def)

lemma find_SomeD: "List.find P xs = Some x \<Longrightarrow> x \<in> set xs \<and> P x"
  by (metis find_Some_iff nth_mem)

section \<open>Lemmas on words\<close>

lemma unat_checked_add: "checked_add a b = Some c \<Longrightarrow> unat c = unat a + unat b"
  by (auto simp: checked_add_def unat_word_ariths split: if_splits)

lemma checked_add_eq_Some_iff:
  "checked_add a b = Some c \<longleftrightarrow> unat c = unat a + unat b"
  for a b c :: "'a::len word"
proof
  assume c: "unat c = unat a + unat b"
  have "unat c < 2 ^ LENGTH('a)" by (rule unsigned_less)
  with c have "unat (a + b) = unat c"
    by (simp add: unat_word_ariths)
  then have "a + b = c" by (simp add: word_unat_eq_iff)
  with c show "checked_add a b = Some c"
    using \<open>unat c < 2 ^ LENGTH('a)\<close> by (simp add: checked_add_def)
qed (rule unat_checked_add)

lemma unat_checked_sub: "checked_sub a b = Some c \<Longrightarrow> unat c + unat b = unat a"
  by (auto simp: checked_sub_def unat_sub word_le_nat_alt split: if_splits)

lemma saturating_add_ge: "a \<le> saturating_add a b"
proof (cases "checked_add a b")
  case None
  then show ?thesis by (simp add: saturating_add_def checked_add_def split: if_splits)
next
  case (Some c)
  then have "saturating_add a b = c" by (simp add: saturating_add_def checked_add_def split: if_splits)
  with Some show ?thesis by (simp add: checked_add_eq_Some_iff word_le_nat_alt)
qed

lemma sint_checked_sadd: "checked_sadd a b = Some c \<Longrightarrow> sint c = sint a + sint b"
  for a b c :: "'a::len word"
  by (auto simp: checked_sadd_def sint_in_range_def sint_word_ariths signed_take_bit_int_eq_self
      split: if_splits)

lemma sint_checked_ssub: "checked_ssub a b = Some c \<Longrightarrow> sint c = sint a - sint b"
  for a b c :: "'a::len word"
  by (auto simp: checked_ssub_def sint_in_range_def sint_word_ariths signed_take_bit_int_eq_self
      split: if_splits)

lemma drop_bit_eq_iff:
  "drop_bit n a = drop_bit n b \<longleftrightarrow> (\<forall>i\<ge>n. bit a i \<longleftrightarrow> bit b i)"
  for a b :: "'a::len word"
proof
  assume eq: "drop_bit n a = drop_bit n b"
  show "\<forall>i\<ge>n. bit a i \<longleftrightarrow> bit b i"
  proof (intro allI impI)
    fix i assume "n \<le> i"
    moreover have "bit (drop_bit n a) (i - n) \<longleftrightarrow> bit (drop_bit n b) (i - n)" by (simp add: eq)
    ultimately show "bit a i \<longleftrightarrow> bit b i" by (simp add: bit_drop_bit_eq)
  qed
qed (auto simp: bit_eq_iff bit_drop_bit_eq)

end
