(* ===== verification/Ids.thy ===== *)
theory Ids
  imports Prelude
begin

text \<open>
  The value types of \<open>crates/kivi-types\<close>: identifiers and fencing generations (\<open>ids.rs\<close>), the
  authority triple and its check (\<open>authority.rs\<close>), and wall-clock expiry (\<open>time.rs\<close>).

  Every counter of the program that must never be recycled (tablet epochs, write guards, node
  incarnations, commit positions, request sequences, and later directory versions, object versions
  and fencing tokens) has the same contract: it advances by exactly one or fails.  The locale
  \<open>generation_counter\<close> states that contract once; each \<open>next\<close> function is an interpretation.
\<close>

section \<open>Identifiers\<close>

type_synonym tablet_id = u64
type_synonym tablet_epoch = u64
type_synonym write_guard_generation = u64
type_synonym node_incarnation = u64
type_synonym namespace_id = u64
type_synonym node_id = u64
type_synonym commit_position = u64
type_synonym request_seq = u64
type_synonym partition_hash = u128

datatype generation_exhausted =
    Exhausted_TabletEpoch
  | Exhausted_WriteGuardGeneration
  | Exhausted_NodeIncarnation
  | Exhausted_RosterGeneration

datatype sequence_exhausted =
    Exhausted_RequestSeq
  | Exhausted_CommitPosition

definition generation_INVALID :: u64 where
  "generation_INVALID = 0"

definition generation_INITIAL :: u64 where
  "generation_INITIAL = 1"

definition generation_is_valid :: "u64 \<Rightarrow> bool" where
  "generation_is_valid g \<longleftrightarrow> g \<noteq> 0"

definition supersedes :: "u64 \<Rightarrow> u64 \<Rightarrow> bool" where
  "supersedes self other \<longleftrightarrow> self > other"

definition is_stale_relative_to :: "u64 \<Rightarrow> u64 \<Rightarrow> bool" where
  "is_stale_relative_to self current \<longleftrightarrow> self < current"

definition tablet_epoch_next :: "tablet_epoch \<Rightarrow> generation_exhausted + tablet_epoch" where
  "tablet_epoch_next e =
    (case checked_add e 1 of Some v \<Rightarrow> Inr v | None \<Rightarrow> Inl Exhausted_TabletEpoch)"

definition write_guard_next ::
    "write_guard_generation \<Rightarrow> generation_exhausted + write_guard_generation" where
  "write_guard_next g =
    (case checked_add g 1 of Some v \<Rightarrow> Inr v | None \<Rightarrow> Inl Exhausted_WriteGuardGeneration)"

definition node_incarnation_next ::
    "node_incarnation \<Rightarrow> generation_exhausted + node_incarnation" where
  "node_incarnation_next i =
    (case checked_add i 1 of Some v \<Rightarrow> Inr v | None \<Rightarrow> Inl Exhausted_NodeIncarnation)"

definition commit_position_next :: "commit_position \<Rightarrow> sequence_exhausted + commit_position" where
  "commit_position_next p =
    (case checked_add p 1 of Some v \<Rightarrow> Inr v | None \<Rightarrow> Inl Exhausted_CommitPosition)"

definition request_seq_next :: "request_seq \<Rightarrow> sequence_exhausted + request_seq" where
  "request_seq_next s =
    (case checked_add s 1 of Some v \<Rightarrow> Inr v | None \<Rightarrow> Inl Exhausted_RequestSeq)"

section \<open>Authority\<close>

record tablet_authority =
  auth_tablet :: tablet_id
  auth_epoch :: tablet_epoch
  auth_guard :: write_guard_generation

datatype authority_mismatch =
    WrongTablet tablet_id tablet_id
  | StaleEpoch tablet_epoch tablet_epoch
  | StaleGuard write_guard_generation write_guard_generation

definition check_against :: "tablet_authority \<Rightarrow> tablet_authority \<Rightarrow> authority_mismatch + unit" where
  "check_against self current =
    (if auth_tablet self \<noteq> auth_tablet current
     then Inl (WrongTablet (auth_tablet self) (auth_tablet current))
     else if auth_epoch self \<noteq> auth_epoch current
     then Inl (StaleEpoch (auth_epoch self) (auth_epoch current))
     else if auth_guard self \<noteq> auth_guard current
     then Inl (StaleGuard (auth_guard self) (auth_guard current))
     else Inr ())"

section \<open>Time\<close>

type_synonym ticks = u64
type_synonym wall_timestamp = i64
type_synonym expiry = "wall_timestamp option"

text \<open>A \<open>Duration\<close> is its whole number of microseconds, an unbounded natural number.\<close>

definition ticks_advance_by :: "ticks \<Rightarrow> nat \<Rightarrow> ticks" where
  "ticks_advance_by t delta =
    saturating_add t (if delta < 2 ^ 64 then of_nat delta else - 1)"

definition ticks_saturating_since :: "ticks \<Rightarrow> ticks \<Rightarrow> nat" where
  "ticks_saturating_since t earlier = unat (saturating_sub t earlier)"

definition expiry_NEVER :: expiry where
  "expiry_NEVER = None"

definition expiry_is_expired :: "expiry \<Rightarrow> wall_timestamp \<Rightarrow> bool" where
  "expiry_is_expired e now =
    (case e of None \<Rightarrow> False | Some at \<Rightarrow> sint now \<ge> sint at)"

section \<open>The contract of a generation counter\<close>

locale generation_counter =
  fixes step :: "u64 \<Rightarrow> 'e + u64"
  assumes step_ok: "unat g < 2 ^ 64 - 1 \<Longrightarrow> \<exists>g'. step g = Inr g' \<and> unat g' = Suc (unat g)"
    and step_exhausted: "unat g = 2 ^ 64 - 1 \<Longrightarrow> \<not> is_ok (step g)"
begin

fun steps :: "nat \<Rightarrow> u64 \<Rightarrow> 'e + u64" where
  "steps 0 g = Inr g"
| "steps (Suc n) g = and_then (step g) (steps n)"

lemma step_unat: "step g = Inr g' \<Longrightarrow> unat g' = Suc (unat g)"
proof (cases "unat g = 2 ^ 64 - 1")
  case False
  have "unat g < 2 ^ LENGTH(64)" by (rule unsigned_less)
  with False have "unat g < 2 ^ 64 - 1" by simp
  then show "step g = Inr g' \<Longrightarrow> unat g' = Suc (unat g)" using step_ok by fastforce
qed (use step_exhausted in \<open>fastforce simp: is_ok_iff\<close>)

lemma step_supersedes: "step g = Inr g' \<Longrightarrow> supersedes g' g"
  by (drule step_unat) (simp add: supersedes_def word_less_nat_alt)

lemma step_stale: "step g = Inr g' \<Longrightarrow> is_stale_relative_to g g'"
  by (drule step_unat) (simp add: is_stale_relative_to_def word_less_nat_alt)

lemma step_valid: "step g = Inr g' \<Longrightarrow> generation_is_valid g'"
  by (drule step_unat) (auto simp: generation_is_valid_def)

lemma steps_unat: "steps n g = Inr g' \<Longrightarrow> unat g' = unat g + n"
  by (induction n arbitrary: g) (auto simp: result_simps dest: step_unat)

lemma steps_never_recycle:
  "steps n g = Inr a \<Longrightarrow> steps m g = Inr b \<Longrightarrow> n \<noteq> m \<Longrightarrow> a \<noteq> b"
  by (auto dest!: steps_unat)

lemma steps_ok_iff: "is_ok (steps n g) \<longleftrightarrow> unat g + n < 2 ^ 64"
proof (induction n arbitrary: g)
  case 0
  have "unat g < 2 ^ LENGTH(64)" by (rule unsigned_less)
  then show ?case by simp
next
  case (Suc n)
  show ?case
  proof (cases "unat g < 2 ^ 64 - 1")
    case True
    then obtain g' where "step g = Inr g'" "unat g' = Suc (unat g)" using step_ok by blast
    then show ?thesis using Suc [of g'] by simp
  next
    case False
    have "unat g < 2 ^ LENGTH(64)" by (rule unsigned_less)
    with False have "unat g = 2 ^ 64 - 1" by simp
    with step_exhausted have "\<not> is_ok (step g)" by blast
    then show ?thesis using \<open>unat g = _\<close> by (cases "step g") auto
  qed
qed

end

lemma checked_add_one_ok:
  "unat (g :: u64) < 2 ^ 64 - 1 \<Longrightarrow> checked_add g 1 = Some (g + 1) \<and> unat (g + 1) = Suc (unat g)"
  using unat_checked_add [of g 1 "g + 1"] by (simp add: checked_add_def)

lemma checked_add_one_exhausted: "unat (g :: u64) = 2 ^ 64 - 1 \<Longrightarrow> checked_add g 1 = None"
  by (simp add: checked_add_def)

lemmas checked_add_one = checked_add_one_ok checked_add_one_exhausted

interpretation tablet_epoch: generation_counter tablet_epoch_next
  by unfold_locales (auto simp: tablet_epoch_next_def checked_add_one)

interpretation write_guard: generation_counter write_guard_next
  by unfold_locales (auto simp: write_guard_next_def checked_add_one)

interpretation node_incarnation: generation_counter node_incarnation_next
  by unfold_locales (auto simp: node_incarnation_next_def checked_add_one)

interpretation commit_position: generation_counter commit_position_next
  by unfold_locales (auto simp: commit_position_next_def checked_add_one)

interpretation request_seq: generation_counter request_seq_next
  by unfold_locales (auto simp: request_seq_next_def checked_add_one)

section \<open>Authority and expiry\<close>

lemma check_against_ok_iff: "check_against a c = Inr () \<longleftrightarrow> a = c"
  by (auto simp: check_against_def intro: tablet_authority.equality)

lemma check_against_is_ok_iff: "is_ok (check_against a c) \<longleftrightarrow> a = c"
  by (simp add: is_ok_iff check_against_ok_iff)

text \<open>After either fencing generation is bumped, every authority that was accepted before is rejected.\<close>

lemma check_against_fenced:
  assumes "check_against a c = Inr ()"
    and "tablet_epoch_next (auth_epoch c) = Inr e' \<and> c' = c\<lparr>auth_epoch := e'\<rparr>
       \<or> write_guard_next (auth_guard c) = Inr g' \<and> c' = c\<lparr>auth_guard := g'\<rparr>"
  shows "\<not> is_ok (check_against a c')"
  using assms tablet_epoch.step_unat [of "auth_epoch c" e'] write_guard.step_unat [of "auth_guard c" g']
  by (cases c; cases c') (auto simp: check_against_ok_iff check_against_is_ok_iff)

lemma expiry_monotone:
  "expiry_is_expired e now \<Longrightarrow> sint now \<le> sint later \<Longrightarrow> expiry_is_expired e later"
  by (auto simp: expiry_is_expired_def split: option.splits)

lemma ticks_advance_by_monotone: "t \<le> ticks_advance_by t d"
  unfolding ticks_advance_by_def by (rule saturating_add_ge)

lemma ticks_since_advance:
  assumes "unat t + d < 2 ^ 64"
  shows "ticks_saturating_since (ticks_advance_by t d) t = d"
proof -
  have d: "d < 2 ^ 64" "unat (of_nat d :: u64) = d" using assms by (simp_all add: unat_of_nat)
  have "saturating_add t (of_nat d) = t + of_nat d" using assms d by (simp add: saturating_add_def)
  moreover have "t \<le> t + of_nat d" using assms d by (simp add: word_le_nat_alt unat_word_ariths)
  ultimately show ?thesis using d
    by (simp add: ticks_saturating_since_def ticks_advance_by_def saturating_sub_def)
qed

end
