(* ===== verification/Ordered_Maps.thy ===== *)
theory Ordered_Maps
  imports Prelude
begin

text \<open>
  The standard-library collections the crates use.  A \<open>BTreeMap\<close> is its list of entries in key
  order; the same representation serves for a \<open>HashMap\<close>, whose iteration order the program never
  exposes without sorting.  A \<open>BTreeSet\<close> is its list of elements in order.

  The locale \<open>finite_map\<close> is the interface the store uses (what a lookup returns after an insert or
  a removal, and that the representation stays in order); \<open>bt\<close> interprets it on the ordered lists.
\<close>

section \<open>Operations\<close>

type_synonym ('k, 'v) bmap = "('k \<times> 'v) list"

definition bt_get :: "('k, 'v) bmap \<Rightarrow> 'k \<Rightarrow> 'v option" where
  "bt_get m k = map_of m k"

fun bt_insert :: "'k::linorder \<Rightarrow> 'v \<Rightarrow> ('k, 'v) bmap \<Rightarrow> ('k, 'v) bmap" where
  "bt_insert k v [] = [(k, v)]"
| "bt_insert k v ((k', v') # m) =
    (if k < k' then (k, v) # (k', v') # m
     else if k = k' then (k, v) # m
     else (k', v') # bt_insert k v m)"

definition bt_remove :: "'k \<Rightarrow> ('k, 'v) bmap \<Rightarrow> ('k, 'v) bmap" where
  "bt_remove k m = filter (\<lambda>e. fst e \<noteq> k) m"

definition bt_keys :: "('k, 'v) bmap \<Rightarrow> 'k list" where
  "bt_keys m = map fst m"

definition bt_values :: "('k, 'v) bmap \<Rightarrow> 'v list" where
  "bt_values m = map snd m"

definition bt_wf :: "('k::linorder, 'v) bmap \<Rightarrow> bool" where
  "bt_wf m \<longleftrightarrow> sorted_wrt (<) (map fst m)"

fun bts_insert :: "'k::linorder \<Rightarrow> 'k list \<Rightarrow> 'k list" where
  "bts_insert k [] = [k]"
| "bts_insert k (k' # s) = (if k < k' then k # k' # s else if k = k' then k' # s else k' # bts_insert k s)"

definition bts_remove :: "'k \<Rightarrow> 'k list \<Rightarrow> 'k list" where
  "bts_remove k s = filter (\<lambda>k'. k' \<noteq> k) s"

section \<open>The interface\<close>

locale finite_map =
  fixes empty :: 'm
    and get :: "'m \<Rightarrow> 'k \<Rightarrow> 'v option"
    and insert :: "'k \<Rightarrow> 'v \<Rightarrow> 'm \<Rightarrow> 'm"
    and remove :: "'k \<Rightarrow> 'm \<Rightarrow> 'm"
    and wf :: "'m \<Rightarrow> bool"
  assumes get_empty: "get empty k = None"
    and get_insert: "get (insert k v m) k' = (if k' = k then Some v else get m k')"
    and get_remove: "get (remove k m) k' = (if k' = k then None else get m k')"
    and wf_empty: "wf empty"
    and wf_insert: "wf m \<Longrightarrow> wf (insert k v m)"
    and wf_remove: "wf m \<Longrightarrow> wf (remove k m)"
    and wf_ext: "wf m \<Longrightarrow> wf n \<Longrightarrow> (\<And>k. get m k = get n k) \<Longrightarrow> m = n"
begin

lemmas get_simps = get_empty get_insert get_remove

lemma insert_insert: "wf m \<Longrightarrow> insert k v (insert k w m) = insert k v m"
  by (rule wf_ext) (auto simp: get_simps wf_insert)

lemma insert_commute: "wf m \<Longrightarrow> k \<noteq> l \<Longrightarrow> insert k v (insert l w m) = insert l w (insert k v m)"
  by (rule wf_ext) (auto simp: get_simps wf_insert)

lemma insert_same: "wf m \<Longrightarrow> get m k = Some v \<Longrightarrow> insert k v m = m"
  by (rule wf_ext) (auto simp: get_simps wf_insert)

lemma remove_insert: "wf m \<Longrightarrow> get m k = None \<Longrightarrow> remove k (insert k v m) = m"
  by (rule wf_ext) (auto simp: get_simps wf_insert wf_remove)

lemma insert_remove: "wf m \<Longrightarrow> insert k v (remove k m) = insert k v m"
  by (rule wf_ext) (auto simp: get_simps wf_insert wf_remove)

lemma remove_absent: "wf m \<Longrightarrow> get m k = None \<Longrightarrow> remove k m = m"
  by (rule wf_ext) (auto simp: get_simps wf_remove)

lemma remove_insert_commute: "wf m \<Longrightarrow> k \<noteq> l \<Longrightarrow> remove k (insert l v m) = insert l v (remove k m)"
  by (rule wf_ext) (auto simp: get_simps wf_insert wf_remove)

lemma remove_commute: "wf m \<Longrightarrow> remove k (remove l m) = remove l (remove k m)"
  by (rule wf_ext) (auto simp: get_simps wf_remove)

end

section \<open>Ordered lists implement it\<close>

lemma set_keys_bt_insert: "fst ` set (bt_insert k v m) = insert k (fst ` set m)"
  by (induction k v m rule: bt_insert.induct) (simp_all add: insert_commute)

lemma bt_get_insert: "bt_get (bt_insert k v m) k' = (if k' = k then Some v else bt_get m k')"
  by (induction m) (auto simp: bt_get_def)

lemma bt_get_remove: "bt_get (bt_remove k m) k' = (if k' = k then None else bt_get m k')"
  by (induction m) (auto simp: bt_get_def bt_remove_def)

lemma bt_wf_Cons: "bt_wf (e # m) \<longleftrightarrow> (\<forall>k \<in> fst ` set m. fst e < k) \<and> bt_wf m"
  by (simp add: bt_wf_def)

lemma bt_wf_insert: "bt_wf m \<Longrightarrow> bt_wf (bt_insert k v m)"
  by (induction m) (auto simp: bt_wf_Cons set_keys_bt_insert, auto simp: bt_wf_def)

lemma bt_wf_remove: "bt_wf m \<Longrightarrow> bt_wf (bt_remove k m)"
  by (induction m) (auto simp: bt_wf_Cons bt_remove_def)

lemma bt_get_eq_Some_iff: "bt_wf m \<Longrightarrow> bt_get m k = Some v \<longleftrightarrow> (k, v) \<in> set m"
  by (induction m) (auto simp: bt_wf_Cons bt_get_def intro: rev_image_eqI dest: map_of_SomeD)

lemma bt_get_Some_mem: "bt_get m k = Some v \<Longrightarrow> (k, v) \<in> set m"
  by (simp add: bt_get_def map_of_SomeD)

lemma bt_get_None_iff: "bt_get m k = None \<longleftrightarrow> k \<notin> fst ` set m"
  by (simp add: bt_get_def map_of_eq_None_iff)

lemma bt_wf_distinct: "bt_wf m \<Longrightarrow> distinct (map fst m)"
  by (simp add: bt_wf_def strict_sorted_iff)

lemma bt_wf_ext:
  assumes "bt_wf m" "bt_wf n" "\<And>k. bt_get m k = bt_get n k"
  shows "m = n"
proof -
  have sets: "set m = set n"
    using assms by (metis bt_get_eq_Some_iff subrelI subset_antisym)
  have "inj_on fst (set m \<union> set n)"
    using bt_wf_distinct [OF assms(2)] sets by (simp add: distinct_map)
  then show ?thesis
    using assms(1,2) sets by (intro map_sorted_distinct_set_unique [of fst])
      (auto simp: bt_wf_def strict_sorted_iff)
qed

interpretation bt: finite_map "[]" bt_get bt_insert bt_remove bt_wf
  by unfold_locales
    (simp add: bt_get_def, rule bt_get_insert, rule bt_get_remove, simp add: bt_wf_def,
     erule bt_wf_insert, erule bt_wf_remove, blast intro: bt_wf_ext)

declare bt.get_simps [simp]
declare bt.wf_empty [simp] bt.wf_insert [simp] bt.wf_remove [simp]

lemma length_bt_insert:
  "bt_get m k = None \<Longrightarrow> length (bt_insert k v m) = Suc (length m)"
  by (induction m) (auto simp: bt_get_def split: if_splits)

text \<open>Counting the values of a map that satisfy a predicate.\<close>

lemma count_bt_insert:
  "bt_wf m \<Longrightarrow>
   length (filter P (bt_values (bt_insert k v m))) +
     (case bt_get m k of None \<Rightarrow> 0 | Some w \<Rightarrow> of_bool (P w)) =
   length (filter P (bt_values m)) + of_bool (P v)"
proof (induction m)
  case Nil
  then show ?case by (simp add: bt_values_def bt_get_def)
next
  case (Cons e m)
  obtain k' v' where e: "e = (k', v')" by (cases e)
  have wf: "bt_wf m" and above: "\<forall>l \<in> fst ` set m. k' < l"
    using Cons.prems by (simp_all add: bt_wf_Cons e)
  consider "k < k'" | "k = k'" | "k' < k" by fastforce
  then show ?case
  proof cases
    case 1
    then have "bt_get (e # m) k = None" using above by (auto simp: bt_get_None_iff e)
    then show ?thesis using 1 by (simp add: bt_values_def e)
  next
    case 2
    then show ?thesis by (simp add: bt_values_def bt_get_def e)
  next
    case 3
    then have "bt_insert k v (e # m) = e # bt_insert k v m" "bt_get (e # m) k = bt_get m k"
      by (auto simp: e bt_get_def)
    then show ?thesis using Cons.IH [OF wf] by (simp add: bt_values_def)
  qed
qed

lemma count_bt_remove_le:
  "length (filter P (bt_values (bt_remove k m))) \<le> length (filter P (bt_values m))"
  by (induction m) (auto simp: bt_values_def bt_remove_def)

lemma bt_values_iff: "bt_wf m \<Longrightarrow> v \<in> set (bt_values m) \<longleftrightarrow> (\<exists>k. bt_get m k = Some v)"
  by (auto simp: bt_values_def bt_get_eq_Some_iff intro: rev_image_eqI)

lemma bt_keys_iff: "k \<in> set (bt_keys m) \<longleftrightarrow> bt_get m k \<noteq> None"
  by (simp add: bt_keys_def bt_get_None_iff)

lemma set_bts_insert [simp]: "set (bts_insert k s) = insert k (set s)"
  by (induction s) (simp_all add: insert_commute)

lemma set_bts_remove [simp]: "set (bts_remove k s) = set s - {k}"
  by (auto simp: bts_remove_def)

lemma sorted_bts_insert [simp]: "sorted_wrt (<) s \<Longrightarrow> sorted_wrt (<) (bts_insert k s)"
  by (induction s) auto

lemma sorted_bts_remove [simp]: "sorted_wrt (<) s \<Longrightarrow> sorted_wrt (<) (bts_remove k s)"
  by (simp add: bts_remove_def sorted_wrt_filter)

section \<open>Filtering and rebuilding\<close>

lemma bt_get_filter: "bt_get (filter (\<lambda>e. P (fst e)) m) k = (if P k then bt_get m k else None)"
  by (induction m) (auto simp: bt_get_def)

lemma bt_wf_filter: "bt_wf m \<Longrightarrow> bt_wf (filter P m)"
  by (induction m) (auto simp: bt_wf_Cons)

lemma bt_get_Cons: "bt_get (e # m) k = (if k = fst e then Some (snd e) else bt_get m k)"
  by (cases e) (simp add: bt_get_def)

lemma bt_get_foldl_insert:
  "distinct (map fst es) \<Longrightarrow>
   bt_get (foldl (\<lambda>m e. bt_insert (fst e) (snd e) m) m es) k =
     (case bt_get es k of Some v \<Rightarrow> Some v | None \<Rightarrow> bt_get m k)"
proof (induction es arbitrary: m)
  case (Cons e es)
  then have "bt_get es (fst e) = None" by (simp add: bt_get_None_iff)
  then show ?case using Cons by (simp add: bt_get_Cons split: option.split)
qed (simp add: bt_get_def)

lemma bt_wf_foldl_insert: "bt_wf m \<Longrightarrow> bt_wf (foldl (\<lambda>m e. bt_insert (fst e) (snd e) m) m es)"
  by (induction es arbitrary: m) simp_all

lemma bt_rebuild: "bt_wf m \<Longrightarrow> foldl (\<lambda>m e. bt_insert (fst e) (snd e) m) [] m = m"
  by (rule bt.wf_ext)
    (simp_all add: bt_wf_foldl_insert bt_get_foldl_insert bt_wf_distinct split: option.split)

end
