(* ===== verification/Control_Types.thy ===== *)
theory Control_Types
  imports Ids Ordered_Maps
begin

text \<open>
  The vocabulary of the control plane (\<open>crates/kivi-control/src\<close>): node records and their
  lifecycle (\<open>node.rs\<close>), desired placements (\<open>placement.rs\<close>), plan identities (\<open>topology.rs\<close>),
  the three kinds of topology plan with their phases (\<open>migration.rs\<close>, \<open>split.rs\<close>, \<open>merge.rs\<close>),
  the namespace and index catalog (\<open>catalog.rs\<close>) and published redundancy layouts (\<open>layouts.rs\<close>).
  A structure is a record, an enumeration a datatype; the human-readable \<open>detail\<close> texts of errors
  are left out.

  The locale \<open>plan_lifecycle\<close> is what the control state machine relies on for every kind of plan: a
  terminal phase is final and a live phase can always be failed.  It is interpreted on the three
  phase enumerations.
\<close>

section \<open>Nodes\<close>

datatype node_state =
  Node_Joining | Node_Active | Node_Suspect | Node_Unavailable | Node_Draining | Node_Drained | Node_Removed

definition accepts_new_replicas :: "node_state \<Rightarrow> bool" where
  "accepts_new_replicas st \<longleftrightarrow> st = Node_Active"

definition serves_data :: "node_state \<Rightarrow> bool" where
  "serves_data st \<longleftrightarrow> st \<in> {Node_Active, Node_Draining, Node_Suspect}"

definition is_repair_target :: "node_state \<Rightarrow> bool" where
  "is_repair_target st \<longleftrightarrow> st = Node_Active"

definition needs_repair :: "node_state \<Rightarrow> bool" where
  "needs_repair st \<longleftrightarrow> st \<in> {Node_Unavailable, Node_Draining}"

definition is_drained :: "node_state \<Rightarrow> bool" where
  "is_drained st \<longleftrightarrow> st = Node_Drained"

text \<open>\<open>std::net::SocketAddr\<close>.\<close>

datatype socket_addr =
    SocketV4 u32 u16
  | SocketV6 u128 u16 u32 u32

record node_record =
  nr_node :: node_id
  nr_peer :: socket_addr
  nr_native :: socket_addr
  nr_admin :: socket_addr
  nr_cert_fingerprint :: bytes
  nr_failure_domain :: bytes
  nr_weight :: u32
  nr_state :: node_state

definition node_joining ::
  "node_id \<Rightarrow> socket_addr \<Rightarrow> socket_addr \<Rightarrow> socket_addr \<Rightarrow> bytes \<Rightarrow> node_record" where
  "node_joining node peer native admin fingerprint =
    \<lparr>nr_node = node, nr_peer = peer, nr_native = native, nr_admin = admin,
     nr_cert_fingerprint = fingerprint, nr_failure_domain = [], nr_weight = 1,
     nr_state = Node_Joining\<rparr>"

section \<open>Desired placement\<close>

type_synonym placement_version = u64

definition placement_INITIAL :: placement_version where
  "placement_INITIAL = 1"

datatype placement_error =
    PE_EmptyReplicas u64
  | PE_DuplicateVoter u64 u64
  | PE_VersionExhausted
  | PE_Truncated
  | PE_TrailingBytes

definition placement_version_next :: "placement_version \<Rightarrow> placement_error + placement_version" where
  "placement_version_next v = ok_or PE_VersionExhausted (checked_add v 1)"

record desired_replica_set =
  drs_tablet :: tablet_id
  drs_replicas :: "node_id list"
  drs_version :: placement_version

fun first_repeat :: "u64 list \<Rightarrow> u64 option" where
  "first_repeat (x # y # xs) = (if x = y then Some x else first_repeat (y # xs))"
| "first_repeat xs = None"

definition desired_new ::
  "tablet_id \<Rightarrow> node_id list \<Rightarrow> placement_version \<Rightarrow> placement_error + desired_replica_set" where
  "desired_new tablet replicas version =
    (if replicas = [] then Inl (PE_EmptyReplicas tablet)
     else case first_repeat (sort replicas) of
       Some node \<Rightarrow> Inl (PE_DuplicateVoter tablet node)
     | None \<Rightarrow> Inr \<lparr>drs_tablet = tablet, drs_replicas = sort replicas, drs_version = version\<rparr>)"

definition voter_set :: "desired_replica_set \<Rightarrow> u64 list" where
  "voter_set d = foldl (\<lambda>s node. bts_insert node s) [] (drs_replicas d)"

definition desired_contains :: "desired_replica_set \<Rightarrow> node_id \<Rightarrow> bool" where
  "desired_contains d node \<longleftrightarrow> node \<in> set (drs_replicas d)"

section \<open>Plans\<close>

type_synonym plan_id = u64

datatype plan_kind = Kind_Migration | Kind_Split | Kind_Merge

datatype plan_priority =
  RepairCritical | Repair | Drain | Rebalance | Topology | Leadership

record plan_scheduler_config =
  psc_max_live_migrations :: nat
  psc_max_live_splits :: nat
  psc_max_live_merges :: nat

definition scheduler_conservative :: plan_scheduler_config where
  "scheduler_conservative =
    \<lparr>psc_max_live_migrations = 32, psc_max_live_splits = 1, psc_max_live_merges = 1\<rparr>"

definition tablet_sets_conflict :: "tablet_id list \<Rightarrow> tablet_id list \<Rightarrow> bool" where
  "tablet_sets_conflict first second \<longleftrightarrow> list_ex (\<lambda>tablet. tablet \<in> set second) first"

subsection \<open>Migrations\<close>

datatype migration_phase =
    Mig_Planned | Mig_TargetStarting | Mig_LearnerAdded | Mig_Ready | Mig_MembershipChanging
  | Mig_Committed | Mig_SourceRetiring | Mig_Completed | Mig_Failed

definition mig_is_terminal :: "migration_phase \<Rightarrow> bool" where
  "mig_is_terminal p \<longleftrightarrow> p \<in> {Mig_Completed, Mig_Failed}"

definition mig_can_advance_to :: "migration_phase \<Rightarrow> migration_phase \<Rightarrow> bool" where
  "mig_can_advance_to p q \<longleftrightarrow> p = q \<or>
    (case p of
       Mig_Planned \<Rightarrow> q \<in> {Mig_TargetStarting, Mig_Failed}
     | Mig_TargetStarting \<Rightarrow> q \<in> {Mig_LearnerAdded, Mig_Failed}
     | Mig_LearnerAdded \<Rightarrow> q \<in> {Mig_Ready, Mig_Failed}
     | Mig_Ready \<Rightarrow> q \<in> {Mig_MembershipChanging, Mig_Failed}
     | Mig_MembershipChanging \<Rightarrow> q \<in> {Mig_Committed, Mig_Failed}
     | Mig_Committed \<Rightarrow> q \<in> {Mig_SourceRetiring, Mig_Failed}
     | Mig_SourceRetiring \<Rightarrow> q \<in> {Mig_Completed, Mig_Failed}
     | _ \<Rightarrow> False)"

datatype migration_error =
  MGE_BadPhase u8 | MGE_Truncated | MGE_TrailingBytes | MGE_NoMovement u64

record migration_plan =
  mig_id :: plan_id
  mig_tablet :: tablet_id
  mig_generation :: placement_version
  mig_from :: node_id
  mig_to :: node_id
  mig_desired_voters :: "node_id list"
  mig_phase :: migration_phase

definition migration_new ::
  "plan_id \<Rightarrow> tablet_id \<Rightarrow> placement_version \<Rightarrow> node_id \<Rightarrow> node_id \<Rightarrow> node_id list \<Rightarrow>
   migration_error + migration_plan" where
  "migration_new i tablet generation frm to_node voters =
    (if frm = to_node then Inl (MGE_NoMovement frm)
     else Inr \<lparr>mig_id = i, mig_tablet = tablet, mig_generation = generation, mig_from = frm,
       mig_to = to_node, mig_desired_voters = dedup_by_key id (sort voters),
       mig_phase = Mig_Planned\<rparr>)"

definition mig_advance :: "migration_plan \<Rightarrow> migration_phase \<Rightarrow> migration_plan" where
  "mig_advance plan p = plan\<lparr>mig_phase := p\<rparr>"

subsection \<open>Splits\<close>

datatype split_phase =
    Split_Planned | Split_ChildrenProvisioning | Split_BaseSeeded | Split_Fenced | Split_ChildrenReady
  | Split_CutoverCommitted | Split_ParentRetiring | Split_Completed | Split_Failed

definition split_is_terminal :: "split_phase \<Rightarrow> bool" where
  "split_is_terminal p \<longleftrightarrow> p \<in> {Split_Completed, Split_Failed}"

definition is_resumable :: "split_phase \<Rightarrow> bool" where
  "is_resumable p \<longleftrightarrow> \<not> split_is_terminal p"

definition has_published_routing :: "split_phase \<Rightarrow> bool" where
  "has_published_routing p \<longleftrightarrow> p \<in> {Split_CutoverCommitted, Split_ParentRetiring, Split_Completed}"

definition is_past_cutover :: "split_phase \<Rightarrow> bool" where
  "is_past_cutover p \<longleftrightarrow> has_published_routing p"

definition needs_children_ready :: "split_phase \<Rightarrow> bool" where
  "needs_children_ready p \<longleftrightarrow> p \<in> {Split_BaseSeeded, Split_Fenced, Split_CutoverCommitted}"

definition split_ALL :: "split_phase list" where
  "split_ALL = [Split_Planned, Split_ChildrenProvisioning, Split_BaseSeeded, Split_Fenced,
    Split_ChildrenReady, Split_CutoverCommitted, Split_ParentRetiring, Split_Completed, Split_Failed]"

definition split_can_advance_to :: "split_phase \<Rightarrow> split_phase \<Rightarrow> bool" where
  "split_can_advance_to p q \<longleftrightarrow> p = q \<or>
    (case p of
       Split_Planned \<Rightarrow> q \<in> {Split_ChildrenProvisioning, Split_Failed}
     | Split_ChildrenProvisioning \<Rightarrow> q \<in> {Split_BaseSeeded, Split_Failed}
     | Split_BaseSeeded \<Rightarrow> q \<in> {Split_Fenced, Split_Failed}
     | Split_Fenced \<Rightarrow> q \<in> {Split_BaseSeeded, Split_ChildrenReady, Split_Failed}
     | Split_ChildrenReady \<Rightarrow> q \<in> {Split_CutoverCommitted, Split_Failed}
     | Split_CutoverCommitted \<Rightarrow> q \<in> {Split_ParentRetiring, Split_Failed}
     | Split_ParentRetiring \<Rightarrow> q \<in> {Split_Completed, Split_Failed}
     | _ \<Rightarrow> False)"

datatype split_error =
  SPE_BadPhase u8 | SPE_Truncated | SPE_TrailingBytes | SPE_BadChildren

record split_plan =
  split_id :: plan_id
  split_parent :: tablet_id
  split_hash :: u128
  split_key :: "bytes option"
  split_left :: tablet_id
  split_right :: tablet_id
  split_replicas :: "node_id list"
  split_generation :: placement_version
  split_phase :: split_phase

definition split_new ::
  "plan_id \<Rightarrow> tablet_id \<Rightarrow> u128 \<Rightarrow> bytes option \<Rightarrow> tablet_id \<Rightarrow> tablet_id \<Rightarrow> node_id list \<Rightarrow>
   placement_version \<Rightarrow> split_error + split_plan" where
  "split_new i parent hash skey left right replicas generation =
    (if parent = left \<or> parent = right \<or> left = right then Inl SPE_BadChildren
     else Inr \<lparr>split_id = i, split_parent = parent, split_hash = hash, split_key = skey,
       split_left = left, split_right = right, split_replicas = dedup_by_key id (sort replicas),
       split_generation = generation, split_phase = Split_Planned\<rparr>)"

definition split_is_ordered :: "split_plan \<Rightarrow> bool" where
  "split_is_ordered plan \<longleftrightarrow> split_key plan \<noteq> None"

definition split_advance :: "split_plan \<Rightarrow> split_phase \<Rightarrow> split_plan" where
  "split_advance plan p = plan\<lparr>split_phase := p\<rparr>"

definition split_tablets :: "split_plan \<Rightarrow> tablet_id list" where
  "split_tablets plan = [split_parent plan, split_left plan, split_right plan]"

definition split_hosts :: "split_plan \<Rightarrow> node_id list" where
  "split_hosts plan = split_replicas plan"

subsection \<open>Merges\<close>

datatype merge_phase =
    Merge_Planned | Merge_TargetAllocated | Merge_BaseSeeded | Merge_Fenced | Merge_TargetReady
  | Merge_CutoverCommitted | Merge_ParentsRetiring | Merge_Completed | Merge_Failed

definition merge_is_terminal :: "merge_phase \<Rightarrow> bool" where
  "merge_is_terminal p \<longleftrightarrow> p \<in> {Merge_Completed, Merge_Failed}"

definition needs_target_ready :: "merge_phase \<Rightarrow> bool" where
  "needs_target_ready p \<longleftrightarrow> p \<in> {Merge_BaseSeeded, Merge_Fenced, Merge_CutoverCommitted}"

definition merge_ALL :: "merge_phase list" where
  "merge_ALL = [Merge_Planned, Merge_TargetAllocated, Merge_BaseSeeded, Merge_Fenced,
    Merge_TargetReady, Merge_CutoverCommitted, Merge_ParentsRetiring, Merge_Completed, Merge_Failed]"

definition merge_can_advance_to :: "merge_phase \<Rightarrow> merge_phase \<Rightarrow> bool" where
  "merge_can_advance_to p q \<longleftrightarrow> p = q \<or>
    (case p of
       Merge_Planned \<Rightarrow> q \<in> {Merge_TargetAllocated, Merge_Failed}
     | Merge_TargetAllocated \<Rightarrow> q \<in> {Merge_BaseSeeded, Merge_Failed}
     | Merge_BaseSeeded \<Rightarrow> q \<in> {Merge_Fenced, Merge_Failed}
     | Merge_Fenced \<Rightarrow> q \<in> {Merge_BaseSeeded, Merge_TargetReady, Merge_Failed}
     | Merge_TargetReady \<Rightarrow> q \<in> {Merge_CutoverCommitted, Merge_Failed}
     | Merge_CutoverCommitted \<Rightarrow> q \<in> {Merge_ParentsRetiring, Merge_Failed}
     | Merge_ParentsRetiring \<Rightarrow> q \<in> {Merge_Completed, Merge_Failed}
     | _ \<Rightarrow> False)"

datatype merge_error =
  MRE_BadPhase u8 | MRE_Truncated | MRE_TrailingBytes | MRE_BadIdentities

record merge_plan =
  merge_id :: plan_id
  merge_left :: tablet_id
  merge_right :: tablet_id
  merge_merged :: tablet_id
  merge_replicas :: "node_id list"
  merge_generation :: placement_version
  merge_phase :: merge_phase

definition merge_new ::
  "plan_id \<Rightarrow> tablet_id \<Rightarrow> tablet_id \<Rightarrow> tablet_id \<Rightarrow> node_id list \<Rightarrow> placement_version \<Rightarrow>
   merge_error + merge_plan" where
  "merge_new i left right merged replicas generation =
    (if left = right \<or> left = merged \<or> right = merged then Inl MRE_BadIdentities
     else Inr \<lparr>merge_id = i, merge_left = left, merge_right = right, merge_merged = merged,
       merge_replicas = dedup_by_key id (sort replicas), merge_generation = generation,
       merge_phase = Merge_Planned\<rparr>)"

definition merge_advance :: "merge_plan \<Rightarrow> merge_phase \<Rightarrow> merge_plan" where
  "merge_advance plan p = plan\<lparr>merge_phase := p\<rparr>"

definition merge_tablets :: "merge_plan \<Rightarrow> tablet_id list" where
  "merge_tablets plan = [merge_left plan, merge_right plan, merge_merged plan]"

definition merge_hosts :: "merge_plan \<Rightarrow> node_id list" where
  "merge_hosts plan = merge_replicas plan"

section \<open>Catalog\<close>

datatype catalog_layout = Catalog_Hash | Catalog_Ordered

record namespace_record =
  nsr_id :: namespace_id
  nsr_layout :: catalog_layout

datatype catalog_index_kind = Index_NonUnique | Index_Unique

datatype catalog_index_state = Index_Building | Index_Ready | Index_Dropping

record index_record =
  ixr_id :: u64
  ixr_primary :: namespace_id
  ixr_kind :: catalog_index_kind
  ixr_state :: catalog_index_state

datatype catalog_error =
  CGE_Truncated | CGE_BadLayout u8 | CGE_BadIndexKind u8 | CGE_BadIndexState u8

definition index_state_decode_byte :: "u8 \<Rightarrow> catalog_error + catalog_index_state" where
  "index_state_decode_byte b =
    (if b = 0 then Inr Index_Building
     else if b = 1 then Inr Index_Ready
     else if b = 2 then Inr Index_Dropping
     else Inl (CGE_BadIndexState b))"

section \<open>Published redundancy layouts\<close>

datatype layout_key = LayoutKey (lk_kind: u8) (lk_domain: u64) (lk_hash: bytes)

record layout_record =
  lr_control_generation :: u64
  lr_layout :: bytes

text \<open>The derived lexicographic order of the key.\<close>

instantiation layout_key :: linorder
begin

definition less_eq_layout_key :: "layout_key \<Rightarrow> layout_key \<Rightarrow> bool" where
  "less_eq_layout_key a b \<longleftrightarrow>
    lk_kind a < lk_kind b \<or>
    (lk_kind a = lk_kind b \<and>
      (lk_domain a < lk_domain b \<or> (lk_domain a = lk_domain b \<and> lk_hash a \<le> lk_hash b)))"

definition less_layout_key :: "layout_key \<Rightarrow> layout_key \<Rightarrow> bool" where
  "less_layout_key a b \<longleftrightarrow> a \<le> b \<and> \<not> b \<le> (a :: layout_key)"

instance
  by standard
    (auto simp: less_eq_layout_key_def less_layout_key_def intro: layout_key.expand)

end

section \<open>The lifecycle every kind of plan follows\<close>

locale plan_lifecycle =
  fixes terminal :: "'p \<Rightarrow> bool"
    and advances :: "'p \<Rightarrow> 'p \<Rightarrow> bool"
    and failed :: 'p
  assumes advances_refl: "advances p p"
    and terminal_final: "terminal p \<Longrightarrow> advances p q \<Longrightarrow> q = p"
    and can_fail: "\<not> terminal p \<Longrightarrow> advances p failed"
    and failed_terminal: "terminal failed"
begin

lemma live_before: "advances p q \<Longrightarrow> \<not> terminal q \<Longrightarrow> \<not> terminal p"
  using terminal_final by blast

lemma terminal_reachable: "\<exists>q. advances p q \<and> terminal q"
  using advances_refl can_fail failed_terminal by (cases "terminal p") blast+

lemma terminal_absorbing: "terminal p \<Longrightarrow> advances\<^sup>*\<^sup>* p q \<Longrightarrow> q = p"
  by (rotate_tac, induction rule: rtranclp_induct) (auto dest: terminal_final)

end

interpretation mig_life: plan_lifecycle mig_is_terminal mig_can_advance_to Mig_Failed
  by unfold_locales
    (auto simp: mig_is_terminal_def mig_can_advance_to_def split: migration_phase.splits)

interpretation split_life: plan_lifecycle split_is_terminal split_can_advance_to Split_Failed
  by unfold_locales
    (auto simp: split_is_terminal_def split_can_advance_to_def split: split_phase.splits)

interpretation merge_life: plan_lifecycle merge_is_terminal merge_can_advance_to Merge_Failed
  by unfold_locales
    (auto simp: merge_is_terminal_def merge_can_advance_to_def split: merge_phase.splits)

section \<open>Well-formed replica sets\<close>

lemma first_repeat_None_iff: "sorted xs \<Longrightarrow> first_repeat xs = None \<longleftrightarrow> distinct xs"
  by (induction xs rule: first_repeat.induct) (auto simp: order_le_less)

lemma desired_new_Inr_iff:
  "desired_new tablet replicas version = Inr d \<longleftrightarrow>
    replicas \<noteq> [] \<and> distinct replicas \<and>
    d = \<lparr>drs_tablet = tablet, drs_replicas = sort replicas, drs_version = version\<rparr>"
  using first_repeat_None_iff [OF sorted_sort, of replicas]
  by (auto simp: desired_new_def split: option.splits)

lemma placement_version_next_Inr_iff:
  "placement_version_next v = Inr w \<longleftrightarrow> unat w = Suc (unat v)"
  by (simp add: placement_version_next_def checked_add_eq_Some_iff)

end
