(* ===== verification/Control_State.thy ===== *)
theory Control_State
  imports Control_Types
begin

text \<open>
  The replicated control image (\<open>crates/kivi-control/src/state.rs\<close>) and the typed mutations the
  control group commits (\<open>mutation.rs\<close>).  The image is a record with one map per registry; each
  arm of \<open>ControlState::apply\<close> is a definition that returns the image after the call together with
  the result, also when it fails.  The arithmetic \<open>plan.id + 1\<close> wraps, as it does in a release build.

  The lemmas say how an accepted mutation changes every registry; \<open>Control_Safety\<close> builds on them.
\<close>

section \<open>The image\<close>

datatype control_error =
    CE_IllegalTransition u64
  | CE_UnknownNode u64
  | CE_StaleGeneration u64 u64 u64
  | CE_UnknownPlan u64
  | CE_UnknownSplit u64
  | CE_UnknownMerge u64
  | CE_UnknownIndex u64
  | CE_TopologyConflict u64
  | CE_SupersededTopology u64
  | CE_StalePlacement u64 u64
  | CE_PlacementGap u64 u64
  | CE_PlacementConflict u64
  | CE_DuplicatePlan u64
  | CE_RedundancyStale u64 u64
  | CE_RedundancyGap u64 u64

datatype control_mutation =
    RegisterNode node_record
  | SetNodeState node_id node_state
  | SetDesiredPlacement desired_replica_set
  | CreateMigration migration_plan
  | AdvanceMigration plan_id migration_phase placement_version
  | RemoveMigration plan_id
  | CreateSplit split_plan
  | AdvanceSplit plan_id split_phase placement_version
  | RemoveSplit plan_id
  | CreateMerge merge_plan
  | AdvanceMerge plan_id merge_phase placement_version
  | RemoveMerge plan_id
  | RegisterNamespace namespace_record
  | CreateIndex index_record
  | AdvanceIndex u64 u8
  | RemoveIndex u64
  | PublishRedundancyLayout layout_key u64 layout_record
  | DropRedundancyAsset layout_key

fun mutation_generation :: "control_mutation \<Rightarrow> placement_version option" where
  "mutation_generation (AdvanceMigration plan p generation) = Some generation"
| "mutation_generation (AdvanceSplit plan p' generation) = Some generation"
| "mutation_generation (AdvanceMerge plan p'' generation) = Some generation"
| "mutation_generation _ = None"

definition cluster_INITIAL :: u64 where
  "cluster_INITIAL = 1"

record control_state =
  cs_nodes :: "(u64, node_record) bmap"
  cs_placements :: "(u64, desired_replica_set) bmap"
  cs_migrations :: "(u64, migration_plan) bmap"
  cs_splits :: "(u64, split_plan) bmap"
  cs_merges :: "(u64, merge_plan) bmap"
  cs_namespaces :: "(u64, namespace_record) bmap"
  cs_indexes :: "(u64, index_record) bmap"
  cs_redundancy :: "(layout_key, layout_record) bmap"
  cs_placement_version :: placement_version
  cs_generation :: u64
  cs_next_plan_id :: u64
  cs_next_tablet_id :: u64

definition control_empty :: control_state where
  "control_empty =
    \<lparr>cs_nodes = [], cs_placements = [], cs_migrations = [], cs_splits = [], cs_merges = [],
     cs_namespaces = [], cs_indexes = [], cs_redundancy = [],
     cs_placement_version = placement_INITIAL, cs_generation = cluster_INITIAL,
     cs_next_plan_id = 1, cs_next_tablet_id = 1\<rparr>"

definition control_bootstrap ::
  "node_record list \<Rightarrow> desired_replica_set list \<Rightarrow> control_state" where
  "control_bootstrap nodes placements =
    control_empty
      \<lparr>cs_nodes := foldl (\<lambda>m r. bt_insert (nr_node r) r m) [] nodes,
       cs_placements := foldl (\<lambda>m d. bt_insert (drs_tablet d) d m) [] placements,
       cs_placement_version := foldl (\<lambda>v d. max v (drs_version d)) placement_INITIAL placements,
       cs_next_tablet_id :=
         max (saturating_add (foldl (\<lambda>h d. max h (drs_tablet d)) 0 placements) 1) 1\<rparr>"

section \<open>Queries\<close>

definition live_plans_for :: "control_state \<Rightarrow> tablet_id \<Rightarrow> migration_plan list" where
  "live_plans_for s tablet =
    filter (\<lambda>plan. mig_tablet plan = tablet \<and> \<not> mig_is_terminal (mig_phase plan))
      (bt_values (cs_migrations s))"

definition splits_for :: "control_state \<Rightarrow> tablet_id \<Rightarrow> split_plan list" where
  "splits_for s tablet =
    filter (\<lambda>plan. \<not> split_is_terminal (split_phase plan) \<and> tablet \<in> set (split_tablets plan))
      (bt_values (cs_splits s))"

definition merges_for :: "control_state \<Rightarrow> tablet_id \<Rightarrow> merge_plan list" where
  "merges_for s tablet =
    filter (\<lambda>plan. \<not> merge_is_terminal (merge_phase plan) \<and> tablet \<in> set (merge_tablets plan))
      (bt_values (cs_merges s))"

definition has_live_topology :: "control_state \<Rightarrow> tablet_id \<Rightarrow> bool" where
  "has_live_topology s tablet \<longleftrightarrow>
    live_plans_for s tablet \<noteq> [] \<or> splits_for s tablet \<noteq> [] \<or> merges_for s tablet \<noteq> []"

definition has_plan :: "control_state \<Rightarrow> plan_id \<Rightarrow> bool" where
  "has_plan s i \<longleftrightarrow>
    bt_get (cs_migrations s) i \<noteq> None \<or> bt_get (cs_splits s) i \<noteq> None \<or>
    bt_get (cs_merges s) i \<noteq> None"

definition allocate_tablet_ids :: "control_state \<Rightarrow> u64 \<Rightarrow> control_state \<times> tablet_id" where
  "allocate_tablet_ids s count =
    (let first = max (cs_next_tablet_id s) 1 in
     (s\<lparr>cs_next_tablet_id := max (saturating_add first (max count 1)) 1\<rparr>, first))"

definition fresh_tablet_ids :: "control_state \<Rightarrow> u64 \<Rightarrow> tablet_id list" where
  "fresh_tablet_ids s count =
    (let highest = foldl max 0 (bt_keys (cs_placements s));
         first = max (max (cs_next_tablet_id s) (saturating_add highest 1)) 1
     in map (\<lambda>offset. saturating_add first (word_of_nat offset)) [0 ..< unat (max count 1)])"

definition tablets_desiring :: "control_state \<Rightarrow> node_id \<Rightarrow> tablet_id list" where
  "tablets_desiring s node =
    map drs_tablet (filter (\<lambda>d. desired_contains d node) (bt_values (cs_placements s)))"

definition active_nodes :: "control_state \<Rightarrow> node_id list" where
  "active_nodes s =
    map nr_node (filter (\<lambda>r. nr_state r = Node_Active) (bt_values (cs_nodes s)))"

definition node_removable :: "control_state \<Rightarrow> node_id \<Rightarrow> bool" where
  "node_removable s node \<longleftrightarrow>
    (case bt_get (cs_nodes s) node of
       None \<Rightarrow> False
     | Some r \<Rightarrow> nr_state r = Node_Drained \<and> tablets_desiring s node = [])"

section \<open>Node lifecycle\<close>

definition check_transition :: "node_state \<Rightarrow> node_state \<Rightarrow> u64 \<Rightarrow> control_error + unit" where
  "check_transition frm st node =
    (if frm = st then Inr ()
     else ensure
       (case frm of
          Node_Joining \<Rightarrow> st \<in> {Node_Active, Node_Removed}
        | Node_Active \<Rightarrow> st \<in> {Node_Suspect, Node_Unavailable, Node_Draining, Node_Removed}
        | Node_Suspect \<Rightarrow> st \<in> {Node_Active, Node_Unavailable, Node_Draining, Node_Removed}
        | Node_Unavailable \<Rightarrow> st \<in> {Node_Active, Node_Draining, Node_Removed}
        | Node_Draining \<Rightarrow> st \<in> {Node_Drained, Node_Active, Node_Removed}
        | Node_Drained \<Rightarrow> st \<in> {Node_Removed, Node_Active}
        | Node_Removed \<Rightarrow> False)
       (CE_IllegalTransition node))"

type_synonym control_applied = "control_state \<times> (control_error + unit)"

definition accept :: "control_state \<Rightarrow> control_applied" where
  "accept s = (s, Inr ())"

definition refuse :: "control_state \<Rightarrow> control_error \<Rightarrow> control_applied" where
  "refuse s e = (s, Inl e)"

definition apply_register_node :: "control_state \<Rightarrow> node_record \<Rightarrow> control_applied" where
  "apply_register_node s r =
    accept
      (case bt_get (cs_nodes s) (nr_node r) of
         None \<Rightarrow> s\<lparr>cs_nodes := bt_insert (nr_node r) r (cs_nodes s)\<rparr>
       | Some _ \<Rightarrow> s)"

definition apply_set_node_state :: "control_state \<Rightarrow> node_id \<Rightarrow> node_state \<Rightarrow> control_applied" where
  "apply_set_node_state s node st =
    (case bt_get (cs_nodes s) node of
       None \<Rightarrow> refuse s (CE_UnknownNode node)
     | Some r \<Rightarrow>
         (case check_transition (nr_state r) st node of
            Inl e \<Rightarrow> refuse s e
          | Inr _ \<Rightarrow> accept (s\<lparr>cs_nodes := bt_insert node (r\<lparr>nr_state := st\<rparr>) (cs_nodes s)\<rparr>)))"

section \<open>Placements and plans\<close>

definition bump_generation :: "control_state \<Rightarrow> control_state" where
  "bump_generation s = s\<lparr>cs_generation := saturating_add (cs_generation s) 1\<rparr>"

definition apply_set_desired :: "control_state \<Rightarrow> desired_replica_set \<Rightarrow> control_applied" where
  "apply_set_desired s d =
    (let current = cs_placement_version s;
         offered = drs_version d;
         tablet = drs_tablet d;
         stored = accept (bump_generation
           (s\<lparr>cs_placements := bt_insert tablet d (cs_placements s),
              cs_placement_version := max offered current,
              cs_next_tablet_id := max (cs_next_tablet_id s) (saturating_add tablet 1)\<rparr>))
     in
     if has_live_topology s tablet then refuse s (CE_SupersededTopology tablet)
     else case bt_get (cs_placements s) tablet of
       Some existing \<Rightarrow>
         if offered < drs_version existing \<or> offered < current
         then refuse s (CE_StalePlacement current offered)
         else if offered = drs_version existing then
           (if drs_replicas existing = drs_replicas d then accept s
            else refuse s (CE_PlacementConflict offered))
         else if saturating_add current 1 < offered then refuse s (CE_PlacementGap current offered)
         else stored
     | None \<Rightarrow>
         if offered < current then refuse s (CE_StalePlacement current offered)
         else if saturating_add current 1 < offered then refuse s (CE_PlacementGap current offered)
         else stored)"

text \<open>
  The placement a migration relies on: it either executes the placement that is already current, or
  it publishes its own as the next version (\<open>advances_placement\<close>).
\<close>

definition migration_advances ::
  "control_state \<Rightarrow> migration_plan \<Rightarrow> desired_replica_set \<Rightarrow> control_error + bool" where
  "migration_advances s plan d =
    (let current = cs_placement_version s; conflict = CE_TopologyConflict (mig_tablet plan) in
     if mig_generation plan = current then
       (if drs_version d \<noteq> mig_generation plan \<or> desired_contains d (mig_from plan) \<or>
           \<not> desired_contains d (mig_to plan) \<or> mig_desired_voters plan \<noteq> drs_replicas d
        then Inl conflict else Inr False)
     else and_then (map_err (\<lambda>_. conflict) (placement_version_next current)) (\<lambda>successor.
       if mig_generation plan = successor then
         (if \<not> desired_contains d (mig_from plan) \<or> desired_contains d (mig_to plan)
          then Inl conflict
          else and_then
            (map_err (\<lambda>_. conflict)
              (desired_new (mig_tablet plan)
                (filter (\<lambda>node. node \<noteq> mig_from plan) (drs_replicas d) @ [mig_to plan])
                (mig_generation plan)))
            (\<lambda>expected.
              if drs_replicas expected \<noteq> mig_desired_voters plan then Inl conflict else Inr True))
       else Inl (CE_StaleGeneration (mig_id plan) (mig_generation plan) current)))"

definition publish_migration_placement ::
  "control_state \<Rightarrow> migration_plan \<Rightarrow> control_error + control_state" where
  "publish_migration_placement s plan =
    map_ok (\<lambda>d. bump_generation
        (s\<lparr>cs_placements := bt_insert (mig_tablet plan) d (cs_placements s),
           cs_placement_version := mig_generation plan,
           cs_next_tablet_id := max (cs_next_tablet_id s) (saturating_add (mig_tablet plan) 1)\<rparr>))
      (map_err (\<lambda>_. CE_TopologyConflict (mig_tablet plan))
        (desired_new (mig_tablet plan) (mig_desired_voters plan) (mig_generation plan)))"

definition store_migration :: "control_state \<Rightarrow> migration_plan \<Rightarrow> control_state" where
  "store_migration s plan = bump_generation
    (s\<lparr>cs_migrations := bt_insert (mig_id plan) plan (cs_migrations s),
       cs_next_plan_id := max (cs_next_plan_id s) (mig_id plan + 1)\<rparr>)"

definition target_active :: "control_state \<Rightarrow> node_id \<Rightarrow> bool" where
  "target_active s node \<longleftrightarrow>
    (case bt_get (cs_nodes s) node of None \<Rightarrow> False | Some r \<Rightarrow> nr_state r = Node_Active)"

definition apply_create_migration :: "control_state \<Rightarrow> migration_plan \<Rightarrow> control_applied" where
  "apply_create_migration s plan =
    (let tablet = mig_tablet plan in
     case bt_get (cs_migrations s) (mig_id plan) of
       Some existing \<Rightarrow>
         if existing = plan then accept s else refuse s (CE_SupersededTopology tablet)
     | None \<Rightarrow>
       if has_plan s (mig_id plan) then refuse s (CE_SupersededTopology tablet)
       else if has_live_topology s tablet then refuse s (CE_SupersededTopology tablet)
       else case bt_get (cs_placements s) tablet of
         None \<Rightarrow> refuse s (CE_TopologyConflict tablet)
       | Some d \<Rightarrow>
         if mig_from plan = mig_to plan then refuse s (CE_TopologyConflict tablet)
         else case migration_advances s plan d of
           Inl e \<Rightarrow> refuse s e
         | Inr advances \<Rightarrow>
           if \<not> target_active s (mig_to plan) then refuse s (CE_TopologyConflict tablet)
           else case (if advances then publish_migration_placement s plan else Inr s) of
             Inl e \<Rightarrow> refuse s e
           | Inr s' \<Rightarrow> accept (store_migration s' plan))"

definition apply_advance_migration ::
  "control_state \<Rightarrow> plan_id \<Rightarrow> migration_phase \<Rightarrow> placement_version \<Rightarrow> control_applied" where
  "apply_advance_migration s i p generation =
    (case bt_get (cs_migrations s) i of
       None \<Rightarrow> refuse s (CE_UnknownPlan i)
     | Some existing \<Rightarrow>
         if generation \<noteq> mig_generation existing
         then refuse s (CE_StaleGeneration i generation (mig_generation existing))
         else if \<not> mig_can_advance_to (mig_phase existing) p then refuse s (CE_IllegalTransition i)
         else accept (s\<lparr>cs_migrations := bt_insert i (mig_advance existing p) (cs_migrations s)\<rparr>))"

definition apply_remove_migration :: "control_state \<Rightarrow> plan_id \<Rightarrow> control_applied" where
  "apply_remove_migration s i =
    (case bt_get (cs_migrations s) i of
       None \<Rightarrow> refuse s (CE_UnknownPlan i)
     | Some existing \<Rightarrow>
         if \<not> mig_is_terminal (mig_phase existing) then refuse s (CE_IllegalTransition i)
         else accept (s\<lparr>cs_migrations := bt_remove i (cs_migrations s)\<rparr>))"

text \<open>Children and merge targets inherit the replica set of the parents at the plan's generation.\<close>

definition place_child ::
  "node_id list \<Rightarrow> placement_version \<Rightarrow> (u64, desired_replica_set) bmap \<Rightarrow> tablet_id \<Rightarrow>
   (u64, desired_replica_set) bmap" where
  "place_child replicas generation placements child =
    (case desired_new child replicas generation of
       Inl _ \<Rightarrow> placements
     | Inr d \<Rightarrow> bt_insert child d placements)"

definition store_split :: "control_state \<Rightarrow> split_plan \<Rightarrow> control_state" where
  "store_split s plan =
    s\<lparr>cs_splits := bt_insert (split_id plan) plan (cs_splits s),
      cs_placement_version := max (cs_placement_version s) (split_generation plan),
      cs_next_plan_id := max (cs_next_plan_id s) (split_id plan + 1),
      cs_next_tablet_id := max (max (cs_next_tablet_id s) (saturating_add (split_left plan) 1))
        (saturating_add (split_right plan) 1),
      cs_placements := foldl (place_child (split_replicas plan) (split_generation plan))
        (cs_placements s) [split_left plan, split_right plan]\<rparr>"

definition apply_create_split :: "control_state \<Rightarrow> split_plan \<Rightarrow> control_applied" where
  "apply_create_split s plan =
    (let i = split_id plan; parent = split_parent plan in
     case bt_get (cs_splits s) i of
       Some existing \<Rightarrow> if existing = plan then accept s else refuse s (CE_DuplicatePlan i)
     | None \<Rightarrow>
       if has_plan s i then refuse s (CE_DuplicatePlan i)
       else case List.find (has_live_topology s) (split_tablets plan) of
         Some tablet \<Rightarrow> refuse s (CE_TopologyConflict tablet)
       | None \<Rightarrow>
         if split_phase plan \<noteq> Split_Planned then refuse s (CE_TopologyConflict parent)
         else case placement_version_next (cs_placement_version s) of
           Inl _ \<Rightarrow> refuse s (CE_TopologyConflict parent)
         | Inr expected \<Rightarrow>
           if split_generation plan \<noteq> expected
           then refuse s (CE_StaleGeneration i (split_generation plan) expected)
           else case bt_get (cs_placements s) parent of
             None \<Rightarrow> refuse s (CE_TopologyConflict parent)
           | Some d \<Rightarrow>
             if drs_replicas d \<noteq> split_replicas plan \<or> split_replicas plan = []
             then refuse s (CE_TopologyConflict parent)
             else if list_ex (\<lambda>child. bt_get (cs_placements s) child \<noteq> None)
               [split_left plan, split_right plan]
             then refuse s (CE_TopologyConflict parent)
             else accept (store_split s plan))"

definition apply_advance_split ::
  "control_state \<Rightarrow> plan_id \<Rightarrow> split_phase \<Rightarrow> placement_version \<Rightarrow> control_applied" where
  "apply_advance_split s i p generation =
    (case bt_get (cs_splits s) i of
       None \<Rightarrow> refuse s (CE_UnknownSplit i)
     | Some existing \<Rightarrow>
         if generation \<noteq> split_generation existing
         then refuse s (CE_StaleGeneration i generation (split_generation existing))
         else if \<not> split_can_advance_to (split_phase existing) p then refuse s (CE_IllegalTransition i)
         else accept (s\<lparr>cs_splits := bt_insert i (split_advance existing p) (cs_splits s)\<rparr>))"

definition apply_remove_split :: "control_state \<Rightarrow> plan_id \<Rightarrow> control_applied" where
  "apply_remove_split s i =
    (case bt_get (cs_splits s) i of
       None \<Rightarrow> refuse s (CE_UnknownSplit i)
     | Some existing \<Rightarrow>
         if \<not> split_is_terminal (split_phase existing) then refuse s (CE_IllegalTransition i)
         else accept (s\<lparr>cs_splits := bt_remove i (cs_splits s)\<rparr>))"

definition store_merge :: "control_state \<Rightarrow> merge_plan \<Rightarrow> control_state" where
  "store_merge s plan =
    s\<lparr>cs_merges := bt_insert (merge_id plan) plan (cs_merges s),
      cs_placement_version := max (cs_placement_version s) (merge_generation plan),
      cs_next_plan_id := max (cs_next_plan_id s) (merge_id plan + 1),
      cs_next_tablet_id := max (cs_next_tablet_id s) (saturating_add (merge_merged plan) 1),
      cs_placements := place_child (merge_replicas plan) (merge_generation plan)
        (cs_placements s) (merge_merged plan)\<rparr>"

definition apply_create_merge :: "control_state \<Rightarrow> merge_plan \<Rightarrow> control_applied" where
  "apply_create_merge s plan =
    (let i = merge_id plan; left = merge_left plan; right = merge_right plan in
     case bt_get (cs_merges s) i of
       Some existing \<Rightarrow> if existing = plan then accept s else refuse s (CE_DuplicatePlan i)
     | None \<Rightarrow>
       if has_plan s i then refuse s (CE_DuplicatePlan i)
       else case List.find (has_live_topology s) (merge_tablets plan) of
         Some tablet \<Rightarrow> refuse s (CE_TopologyConflict tablet)
       | None \<Rightarrow>
         if merge_phase plan \<noteq> Merge_Planned then refuse s (CE_TopologyConflict left)
         else case placement_version_next (cs_placement_version s) of
           Inl _ \<Rightarrow> refuse s (CE_TopologyConflict left)
         | Inr expected \<Rightarrow>
           if merge_generation plan \<noteq> expected
           then refuse s (CE_StaleGeneration i (merge_generation plan) expected)
           else case bt_get (cs_placements s) left of
             None \<Rightarrow> refuse s (CE_TopologyConflict left)
           | Some l \<Rightarrow>
             case bt_get (cs_placements s) right of
               None \<Rightarrow> refuse s (CE_TopologyConflict right)
             | Some r \<Rightarrow>
               if drs_replicas l \<noteq> drs_replicas r \<or> drs_replicas l \<noteq> merge_replicas plan \<or>
                  merge_replicas plan = []
               then refuse s (CE_TopologyConflict left)
               else if bt_get (cs_placements s) (merge_merged plan) \<noteq> None
               then refuse s (CE_TopologyConflict left)
               else accept (store_merge s plan))"

definition apply_advance_merge ::
  "control_state \<Rightarrow> plan_id \<Rightarrow> merge_phase \<Rightarrow> placement_version \<Rightarrow> control_applied" where
  "apply_advance_merge s i p generation =
    (case bt_get (cs_merges s) i of
       None \<Rightarrow> refuse s (CE_UnknownMerge i)
     | Some existing \<Rightarrow>
         if generation \<noteq> merge_generation existing
         then refuse s (CE_StaleGeneration i generation (merge_generation existing))
         else if \<not> merge_can_advance_to (merge_phase existing) p then refuse s (CE_IllegalTransition i)
         else accept (s\<lparr>cs_merges := bt_insert i (merge_advance existing p) (cs_merges s)\<rparr>))"

definition apply_remove_merge :: "control_state \<Rightarrow> plan_id \<Rightarrow> control_applied" where
  "apply_remove_merge s i =
    (case bt_get (cs_merges s) i of
       None \<Rightarrow> refuse s (CE_UnknownMerge i)
     | Some existing \<Rightarrow>
         if \<not> merge_is_terminal (merge_phase existing) then refuse s (CE_IllegalTransition i)
         else accept (s\<lparr>cs_merges := bt_remove i (cs_merges s)\<rparr>))"

section \<open>Catalog and redundancy\<close>

definition apply_register_namespace :: "control_state \<Rightarrow> namespace_record \<Rightarrow> control_applied" where
  "apply_register_namespace s r =
    (case bt_get (cs_namespaces s) (nsr_id r) of
       None \<Rightarrow> accept (s\<lparr>cs_namespaces := bt_insert (nsr_id r) r (cs_namespaces s)\<rparr>)
     | Some existing \<Rightarrow>
         if existing = r then accept s else refuse s (CE_IllegalTransition (nsr_id r)))"

definition apply_create_index :: "control_state \<Rightarrow> index_record \<Rightarrow> control_applied" where
  "apply_create_index s r =
    (case bt_get (cs_indexes s) (ixr_id r) of
       Some _ \<Rightarrow> refuse s (CE_IllegalTransition (ixr_id r))
     | None \<Rightarrow> accept (s\<lparr>cs_indexes := bt_insert (ixr_id r) r (cs_indexes s)\<rparr>))"

definition apply_advance_index :: "control_state \<Rightarrow> u64 \<Rightarrow> u8 \<Rightarrow> control_applied" where
  "apply_advance_index s i b =
    (case bt_get (cs_indexes s) i of
       None \<Rightarrow> refuse s (CE_UnknownIndex i)
     | Some existing \<Rightarrow>
         (case index_state_decode_byte b of
            Inl _ \<Rightarrow> refuse s (CE_UnknownIndex i)
          | Inr st \<Rightarrow>
              accept (s\<lparr>cs_indexes := bt_insert i (existing\<lparr>ixr_state := st\<rparr>) (cs_indexes s)\<rparr>)))"

definition apply_remove_index :: "control_state \<Rightarrow> u64 \<Rightarrow> control_applied" where
  "apply_remove_index s i =
    (case bt_get (cs_indexes s) i of
       None \<Rightarrow> refuse s (CE_UnknownIndex i)
     | Some existing \<Rightarrow>
         if ixr_state existing \<noteq> Index_Dropping then refuse s (CE_IllegalTransition i)
         else accept (s\<lparr>cs_indexes := bt_remove i (cs_indexes s)\<rparr>))"

definition apply_publish_layout ::
  "control_state \<Rightarrow> layout_key \<Rightarrow> u64 \<Rightarrow> layout_record \<Rightarrow> control_applied" where
  "apply_publish_layout s k generation r =
    (let stored = accept (s\<lparr>cs_redundancy := bt_insert k r (cs_redundancy s)\<rparr>) in
     if generation \<noteq> lr_control_generation r
     then refuse s (CE_RedundancyGap (lr_control_generation r) generation)
     else case bt_get (cs_redundancy s) k of
       None \<Rightarrow> if generation \<noteq> 1 then refuse s (CE_RedundancyGap 0 generation) else stored
     | Some current \<Rightarrow>
         if generation = lr_control_generation current then
           (if lr_layout r = lr_layout current then accept s
            else refuse s (CE_RedundancyStale (lr_control_generation current) generation))
         else if checked_add (lr_control_generation current) 1 = Some generation then stored
         else if lr_control_generation current < generation
         then refuse s (CE_RedundancyGap (lr_control_generation current) generation)
         else refuse s (CE_RedundancyStale (lr_control_generation current) generation))"

definition apply_drop_layout :: "control_state \<Rightarrow> layout_key \<Rightarrow> control_applied" where
  "apply_drop_layout s k = accept (s\<lparr>cs_redundancy := bt_remove k (cs_redundancy s)\<rparr>)"

section \<open>Applying a committed mutation\<close>

fun control_apply :: "control_state \<Rightarrow> control_mutation \<Rightarrow> control_applied" where
  "control_apply s (RegisterNode r) = apply_register_node s r"
| "control_apply s (SetNodeState node st) = apply_set_node_state s node st"
| "control_apply s (SetDesiredPlacement d) = apply_set_desired s d"
| "control_apply s (CreateMigration plan) = apply_create_migration s plan"
| "control_apply s (AdvanceMigration i p generation) = apply_advance_migration s i p generation"
| "control_apply s (RemoveMigration i) = apply_remove_migration s i"
| "control_apply s (CreateSplit plan') = apply_create_split s plan'"
| "control_apply s (AdvanceSplit i p' generation) = apply_advance_split s i p' generation"
| "control_apply s (RemoveSplit i) = apply_remove_split s i"
| "control_apply s (CreateMerge plan'') = apply_create_merge s plan''"
| "control_apply s (AdvanceMerge i p'' generation) = apply_advance_merge s i p'' generation"
| "control_apply s (RemoveMerge i) = apply_remove_merge s i"
| "control_apply s (RegisterNamespace nr) = apply_register_namespace s nr"
| "control_apply s (CreateIndex ir) = apply_create_index s ir"
| "control_apply s (AdvanceIndex i b) = apply_advance_index s i b"
| "control_apply s (RemoveIndex i) = apply_remove_index s i"
| "control_apply s (PublishRedundancyLayout k generation lr) = apply_publish_layout s k generation lr"
| "control_apply s (DropRedundancyAsset k) = apply_drop_layout s k"

end
