(* ===== verification/Codec.thy ===== *)
theory Codec
  imports Ids
begin

text \<open>
  The binary codec of \<open>crates/kivi-codec\<close> (\<open>traits.rs\<close>, \<open>ids.rs\<close>, \<open>error.rs\<close>).  Integers are
  little-endian, blobs carry a 32-bit length, and a decoder returns the value with the number of
  bytes it consumed, or an error.  An encoder returns \<^term>\<open>None\<close> where the code's assertion on the
  blob length panics.

  The locale \<open>codec\<close> is the contract every \<open>Encode\<close>/\<open>Decode\<close> pair promises: a value that encodes
  is read back from the front of any buffer, the declared length is the real one, and a decoder
  never claims more bytes than it was given (so the slicing \<open>&input[first..]\<close> of the composite
  decoders cannot panic).
\<close>

section \<open>Errors\<close>

datatype codec_error =
    Truncated nat nat
  | TrailingBytes nat nat
  | TooLarge nat nat
  | InvalidBoolEncoding u8
  | InvalidTag string u8

type_synonym 'a decoder = "bytes \<Rightarrow> codec_error + ('a \<times> nat)"

definition MAX_FRAME_BYTES :: nat where
  "MAX_FRAME_BYTES = 16 * 1024 * 1024"

section \<open>Little-endian integers\<close>

fun to_le :: "nat \<Rightarrow> 'a::len word \<Rightarrow> bytes" where
  "to_le 0 w = []"
| "to_le (Suc n) w = ucast w # to_le n (drop_bit 8 w)"

fun from_le :: "bytes \<Rightarrow> 'a::len word" where
  "from_le [] = 0"
| "from_le (b # bs) = ucast b OR push_bit 8 (from_le bs)"

text \<open>\<open>slice::first_chunk\<close> with the truncation error of the primitive decoders.\<close>

definition decode_chunk :: "nat \<Rightarrow> bytes decoder" where
  "decode_chunk n input =
    (if n \<le> length input then Inr (take n input, n) else Inl (Truncated n (length input)))"

definition encode_u8 :: "u8 \<Rightarrow> bytes" where
  "encode_u8 x = [x]"

definition decode_u8 :: "u8 decoder" where
  "decode_u8 input =
    (case input of [] \<Rightarrow> Inl (Truncated 1 0) | b # _ \<Rightarrow> Inr (b, 1))"

definition encode_u16 :: "u16 \<Rightarrow> bytes" where
  "encode_u16 x = to_le 2 x"

definition decode_u16 :: "u16 decoder" where
  "decode_u16 input = map_ok (\<lambda>(bs, n). (from_le bs, n)) (decode_chunk 2 input)"

definition encode_u32 :: "u32 \<Rightarrow> bytes" where
  "encode_u32 x = to_le 4 x"

definition decode_u32 :: "u32 decoder" where
  "decode_u32 input = map_ok (\<lambda>(bs, n). (from_le bs, n)) (decode_chunk 4 input)"

definition encode_u64 :: "u64 \<Rightarrow> bytes" where
  "encode_u64 x = to_le 8 x"

definition decode_u64 :: "u64 decoder" where
  "decode_u64 input = map_ok (\<lambda>(bs, n). (from_le bs, n)) (decode_chunk 8 input)"

text \<open>\<open>i64\<close> has the same bytes as the word that carries it.\<close>

definition encode_i64 :: "i64 \<Rightarrow> bytes" where
  "encode_i64 x = to_le 8 x"

definition decode_i64 :: "i64 decoder" where
  "decode_i64 input = map_ok (\<lambda>(bs, n). (from_le bs, n)) (decode_chunk 8 input)"

definition encode_u128 :: "u128 \<Rightarrow> bytes" where
  "encode_u128 x = to_le 16 x"

definition decode_u128 :: "u128 decoder" where
  "decode_u128 input = map_ok (\<lambda>(bs, n). (from_le bs, n)) (decode_chunk 16 input)"

definition encode_bool :: "bool \<Rightarrow> bytes" where
  "encode_bool b = [if b then 1 else 0]"

definition decode_bool :: "bool decoder" where
  "decode_bool input =
    and_then (decode_u8 input) (\<lambda>(b, n).
      if b = 0 then Inr (False, n)
      else if b = 1 then Inr (True, n)
      else Inl (InvalidBoolEncoding b))"

section \<open>Blobs\<close>

definition encode_bytes :: "bytes \<Rightarrow> bytes option" where
  "encode_bytes bs =
    (if length bs \<le> MAX_FRAME_BYTES then Some (encode_u32 (of_nat (length bs)) @ bs) else None)"

definition decode_byte_slice :: "bytes decoder" where
  "decode_byte_slice input =
    and_then (decode_u32 input) (\<lambda>(len32, prefix).
      let len = unat len32; stop = prefix + len in
      if len > MAX_FRAME_BYTES then Inl (TooLarge len MAX_FRAME_BYTES)
      else if length input < stop then Inl (Truncated stop (length input))
      else Inr (take len (drop prefix input), stop))"

definition decode_byte_vec :: "bytes decoder" where
  "decode_byte_vec input = map_ok (\<lambda>(slice, consumed). (slice, consumed)) (decode_byte_slice input)"

definition decode_exact :: "'a decoder \<Rightarrow> bytes \<Rightarrow> codec_error + 'a" where
  "decode_exact dec input =
    and_then (dec input) (\<lambda>(value, consumed).
      if consumed = length input then Inr value
      else Inl (TrailingBytes consumed (length input)))"

text \<open>Appending the encodings of the parts; a panic of one part is a panic of the whole.\<close>

fun enc_seq :: "bytes option list \<Rightarrow> bytes option" where
  "enc_seq [] = Some []"
| "enc_seq (None # ps) = None"
| "enc_seq (Some bs # ps) = map_option ((@) bs) (enc_seq ps)"

text \<open>Decoding a part at an offset and continuing behind it.\<close>

definition dec_next :: "'a decoder \<Rightarrow> bytes \<Rightarrow> nat \<Rightarrow> ('a \<Rightarrow> nat \<Rightarrow> codec_error + 'b) \<Rightarrow> codec_error + 'b" where
  "dec_next dec input at k =
    and_then (dec (drop at input)) (\<lambda>(value, consumed). k value (at + consumed))"

section \<open>Identifiers and time\<close>

definition encode_tablet_authority :: "tablet_authority \<Rightarrow> bytes" where
  "encode_tablet_authority a =
    encode_u64 (auth_tablet a) @ encode_u64 (auth_epoch a) @ encode_u64 (auth_guard a)"

definition decode_tablet_authority :: "tablet_authority decoder" where
  "decode_tablet_authority input =
    dec_next decode_u64 input 0 (\<lambda>tablet at1.
    dec_next decode_u64 input at1 (\<lambda>epoch at2.
    dec_next decode_u64 input at2 (\<lambda>guard at3.
      Inr (\<lparr> auth_tablet = tablet, auth_epoch = epoch, auth_guard = guard \<rparr>, at3))))"

definition expiry_encoded_len :: "expiry \<Rightarrow> nat" where
  "expiry_encoded_len e = (case e of None \<Rightarrow> 1 | Some _ \<Rightarrow> 9)"

definition encode_expiry :: "expiry \<Rightarrow> bytes" where
  "encode_expiry e = (case e of None \<Rightarrow> [0] | Some at \<Rightarrow> 1 # encode_i64 at)"

definition decode_expiry :: "expiry decoder" where
  "decode_expiry input =
    dec_next decode_u8 input 0 (\<lambda>tag at1.
      if tag = 0 then Inr (None, at1)
      else if tag = 1 then
        dec_next decode_i64 input at1 (\<lambda>at at2. Inr (Some at, at2))
      else Inl (InvalidTag ''expiry'' tag))"

section \<open>The contract of a codec\<close>

locale codec =
  fixes wf :: "'a \<Rightarrow> bool"
    and encoded_len :: "'a \<Rightarrow> nat"
    and encode :: "'a \<Rightarrow> bytes option"
    and decode :: "'a decoder"
  assumes round_trip: "wf x \<Longrightarrow> \<exists>bs. encode x = Some bs \<and> length bs = encoded_len x
      \<and> (\<forall>rest. decode (bs @ rest) = Inr (x, length bs))"
    and consumes: "decode input = Inr (x, n) \<Longrightarrow> n \<le> length input"
begin

lemma exact: "wf x \<Longrightarrow> encode x = Some bs \<Longrightarrow> decode_exact decode bs = Inr x"
  using round_trip [of x] by (auto simp: decode_exact_def dest: spec [of _ "[]"])

lemma trailing:
  "wf x \<Longrightarrow> encode x = Some bs \<Longrightarrow> rest \<noteq> [] \<Longrightarrow>
    decode_exact decode (bs @ rest) = Inl (TrailingBytes (length bs) (length (bs @ rest)))"
  using round_trip [of x] by (auto simp: decode_exact_def)

lemma prefix_free:
  assumes "wf x" "wf y" "encode x = Some bs" "encode y = Some cs" "bs @ r = cs @ r'"
  shows "x = y \<and> bs = cs \<and> r = r'"
proof -
  have "decode (bs @ r) = Inr (x, length bs)" "decode (cs @ r') = Inr (y, length cs)"
    using round_trip [OF assms(1)] round_trip [OF assms(2)] assms(3,4) by auto
  then have "x = y" "length bs = length cs" unfolding assms(5) by simp_all
  then show ?thesis using assms(5) by simp
qed

end

section \<open>Lemmas\<close>

lemma length_to_le [simp]: "length (to_le n w) = n"
  by (induction n arbitrary: w) auto

lemma from_le_to_le: "from_le (to_le n w) = take_bit (8 * n) w"
proof (induction n arbitrary: w)
  case (Suc n)
  show ?case
    by (simp add: Suc.IH) (rule bit_word_eqI; auto simp: bit_simps)
qed simp

lemma decode_chunk_append [simp]: "n = length bs \<Longrightarrow> decode_chunk n (bs @ rest) = Inr (bs, n)"
  by (simp add: decode_chunk_def)

lemma decode_chunk_consumes: "decode_chunk n input = Inr (bs, m) \<Longrightarrow> m \<le> length input"
  by (auto simp: decode_chunk_def split: if_splits)

named_theorems codec_simps \<open>lengths and read-back of encodings\<close>

lemma length_encode_int [codec_simps]:
  "length (encode_u8 a) = 1" "length (encode_u16 b) = 2" "length (encode_u32 c) = 4"
  "length (encode_u64 d) = 8" "length (encode_i64 e) = 8" "length (encode_u128 f) = 16"
  "length (encode_bool g) = 1"
  by (simp_all add: encode_u8_def encode_u16_def encode_u32_def encode_u64_def encode_i64_def
      encode_u128_def encode_bool_def)

lemma decode_int_append [codec_simps]:
  "decode_u8 (encode_u8 a @ rest) = Inr (a, 1)"
  "decode_u8 (a # rest) = Inr (a, 1)"
  "decode_u16 (encode_u16 b @ rest) = Inr (b, 2)"
  "decode_u32 (encode_u32 c @ rest) = Inr (c, 4)"
  "decode_u64 (encode_u64 d @ rest) = Inr (d, 8)"
  "decode_i64 (encode_i64 e @ rest) = Inr (e, 8)"
  "decode_u128 (encode_u128 f @ rest) = Inr (f, 16)"
  "decode_bool (encode_bool g @ rest) = Inr (g, 1)"
  by (simp_all add: encode_u8_def encode_u16_def encode_u32_def encode_u64_def encode_i64_def
      encode_u128_def encode_bool_def decode_u8_def decode_u16_def decode_u32_def decode_u64_def
      decode_i64_def decode_u128_def decode_bool_def from_le_to_le take_bit_word_eq_self)

lemma encode_bytes_eq_Some_iff [codec_simps]:
  "encode_bytes bs = Some e \<longleftrightarrow>
    length bs \<le> MAX_FRAME_BYTES \<and> e = encode_u32 (of_nat (length bs)) @ bs"
  by (auto simp: encode_bytes_def)

lemma decode_byte_vec_append [codec_simps]:
  assumes "length bs \<le> MAX_FRAME_BYTES"
  shows "decode_byte_vec (encode_u32 (of_nat (length bs)) @ bs @ rest) = Inr (bs, 4 + length bs)"
proof -
  have "unat (of_nat (length bs) :: u32) = length bs"
    using assms by (simp add: MAX_FRAME_BYTES_def unat_of_nat)
  then show ?thesis
    using assms by (simp add: decode_byte_vec_def decode_byte_slice_def codec_simps)
qed

lemma enc_seq_Cons_eq_Some_iff [codec_simps]:
  "enc_seq (p # ps) = Some e \<longleftrightarrow> (\<exists>b bs. p = Some b \<and> enc_seq ps = Some bs \<and> e = b @ bs)"
  by (cases p) auto

lemma dec_next_Inr_iff:
  "dec_next dec input at k = Inr r \<longleftrightarrow>
    (\<exists>value consumed. dec (drop at input) = Inr (value, consumed) \<and> k value (at + consumed) = Inr r)"
  by (auto simp: dec_next_def result_simps)

lemma decode_int_consumes:
  "decode_u8 input = Inr (a, n) \<Longrightarrow> n \<le> length input"
  "decode_u16 input = Inr (b, n) \<Longrightarrow> n \<le> length input"
  "decode_u32 input = Inr (c, n) \<Longrightarrow> n \<le> length input"
  "decode_u64 input = Inr (d, n) \<Longrightarrow> n \<le> length input"
  "decode_i64 input = Inr (e, n) \<Longrightarrow> n \<le> length input"
  "decode_u128 input = Inr (f, n) \<Longrightarrow> n \<le> length input"
  by (auto simp: decode_u8_def decode_u16_def decode_u32_def decode_u64_def decode_i64_def
      decode_u128_def result_simps split: list.splits dest: decode_chunk_consumes)

lemma decode_bool_consumes: "decode_bool input = Inr (b, n) \<Longrightarrow> n \<le> length input"
  by (auto simp: decode_bool_def result_simps dest: decode_int_consumes(1) split: if_splits)

lemma decode_byte_vec_consumes: "decode_byte_vec input = Inr (bs, n) \<Longrightarrow> n \<le> length input"
  by (auto simp: decode_byte_vec_def decode_byte_slice_def result_simps Let_def split: if_splits)

lemma dec_next_consumes:
  assumes "dec_next dec input at k = Inr (x, n)" "at \<le> length input"
    and "\<And>input v m. dec input = Inr (v, m) \<Longrightarrow> m \<le> length input"
    and "\<And>v m. m \<le> length input \<Longrightarrow> k v m = Inr (x, n) \<Longrightarrow> n \<le> length input"
  shows "n \<le> length input"
proof -
  obtain v m where "dec (drop at input) = Inr (v, m)" "k v (at + m) = Inr (x, n)"
    using assms(1) by (auto simp: dec_next_Inr_iff)
  moreover from this have "at + m \<le> length input"
    using assms(2) assms(3) [of "drop at input" v m] by simp
  ultimately show ?thesis using assms(4) by blast
qed

lemma decode_tablet_authority_consumes:
  "decode_tablet_authority input = Inr (a, n) \<Longrightarrow> n \<le> length input"
  unfolding decode_tablet_authority_def
  by (auto elim!: dec_next_consumes intro: decode_int_consumes)

lemma decode_expiry_consumes: "decode_expiry input = Inr (a, n) \<Longrightarrow> n \<le> length input"
  unfolding decode_expiry_def
  by (auto elim!: dec_next_consumes intro: decode_int_consumes split: if_splits)

interpretation u8: codec "\<lambda>_. True" "\<lambda>_. 1" "\<lambda>x. Some (encode_u8 x)" decode_u8
  by unfold_locales (simp add: codec_simps, erule decode_int_consumes)

interpretation u16: codec "\<lambda>_. True" "\<lambda>_. 2" "\<lambda>x. Some (encode_u16 x)" decode_u16
  by unfold_locales (simp add: codec_simps, erule decode_int_consumes)

interpretation u32: codec "\<lambda>_. True" "\<lambda>_. 4" "\<lambda>x. Some (encode_u32 x)" decode_u32
  by unfold_locales (simp add: codec_simps, erule decode_int_consumes)

interpretation u64: codec "\<lambda>_. True" "\<lambda>_. 8" "\<lambda>x. Some (encode_u64 x)" decode_u64
  by unfold_locales (simp add: codec_simps, erule decode_int_consumes)

interpretation i64: codec "\<lambda>_. True" "\<lambda>_. 8" "\<lambda>x. Some (encode_i64 x)" decode_i64
  by unfold_locales (simp add: codec_simps, erule decode_int_consumes)

interpretation u128: codec "\<lambda>_. True" "\<lambda>_. 16" "\<lambda>x. Some (encode_u128 x)" decode_u128
  by unfold_locales (simp add: codec_simps, erule decode_int_consumes)

interpretation bool: codec "\<lambda>_. True" "\<lambda>_. 1" "\<lambda>x. Some (encode_bool x)" decode_bool
  by unfold_locales (simp add: codec_simps, erule decode_bool_consumes)

interpretation blob: codec "\<lambda>bs. length bs \<le> MAX_FRAME_BYTES" "\<lambda>bs. 4 + length bs" encode_bytes
    decode_byte_vec
  by unfold_locales (simp add: codec_simps, erule decode_byte_vec_consumes)

interpretation authority: codec "\<lambda>_. True" "\<lambda>_. 24" "\<lambda>x. Some (encode_tablet_authority x)"
    decode_tablet_authority
  by unfold_locales
    (simp add: codec_simps encode_tablet_authority_def decode_tablet_authority_def dec_next_def,
     erule decode_tablet_authority_consumes)

interpretation expiry: codec "\<lambda>_. True" expiry_encoded_len "\<lambda>x. Some (encode_expiry x)" decode_expiry
  by unfold_locales
    (auto simp: codec_simps encode_expiry_def decode_expiry_def expiry_encoded_len_def dec_next_def
      split: option.splits intro: decode_expiry_consumes)

end
