(* ===== verification/Codec_Rules.thy ===== *)
theory Codec_Rules
  imports Codec
begin

text \<open>
  A calculus for the composite codecs.  Every decoder of the code base reads its parts at growing offsets
  of one buffer; \<open>parses\<close> says that such a body, started where an encoding starts, reads the value back and
  stops where the encoding stops, and \<open>stays\<close> that it never reports an offset behind the buffer.  The
  introduction rules follow the shape of the decoders, so that the read-back and the bound of
  a codec are proved by applying them.
\<close>

section \<open>Reading back\<close>

definition codes :: "bytes option \<Rightarrow> 'a decoder \<Rightarrow> 'a \<Rightarrow> bool" where
  "codes e dec x \<longleftrightarrow> (\<exists>bs. e = Some bs \<and> (\<forall>rest. dec (bs @ rest) = Inr (x, length bs)))"

definition parses :: "bytes option list \<Rightarrow> (bytes \<Rightarrow> nat \<Rightarrow> codec_error + ('a \<times> nat)) \<Rightarrow> 'a \<Rightarrow> bool" where
  "parses es body x \<longleftrightarrow>
    (\<exists>bs. enc_seq es = Some bs \<and> (\<forall>pre rest. body (pre @ bs @ rest) (length pre) = Inr (x, length pre + length bs)))"

lemma parses_done: "parses [] (\<lambda>input at. Inr (x, at)) x"
  by (simp add: parses_def)

lemma parses_next:
  assumes "codes e dec v" "parses es (k v) x"
  shows "parses (e # es) (\<lambda>input at. dec_next dec input at (\<lambda>v at'. k v input at')) x"
proof -
  obtain b where b: "e = Some b" "\<And>rest. dec (b @ rest) = Inr (v, length b)"
    using assms(1) by (auto simp: codes_def)
  obtain bs where bs: "enc_seq es = Some bs"
      "\<And>pre rest. k v (pre @ bs @ rest) (length pre) = Inr (x, length pre + length bs)"
    using assms(2) by (auto simp: parses_def)
  have "k v (pre @ b @ bs @ rest) (length pre + length b) = Inr (x, length pre + length b + length bs)" for pre rest
    using bs(2) [of "pre @ b" rest] by simp
  then show ?thesis using b bs(1) by (simp add: parses_def dec_next_def add.assoc)
qed

lemma parses_tag:
  "parses es (k t) x \<Longrightarrow> parses (Some [t] # es) (\<lambda>input at. dec_next decode_u8 input at (\<lambda>v at'. k v input at')) x"
  by (rule parses_next [of _ _ t]) (simp_all add: codes_def codec_simps)

lemma parses_eq: "x = y \<Longrightarrow> parses [] (\<lambda>input at. Inr (x, at)) y"
  by (simp add: parses_done)

lemma codes_seq: "parses es body x \<Longrightarrow> codes (enc_seq es) (\<lambda>input. body input 0) x"
  unfolding parses_def codes_def by (metis append_Nil list.size(3) add_0)

lemma codes_start:
  "codes e dec v \<Longrightarrow> parses es (k v) x \<Longrightarrow>
   codes (enc_seq (e # es)) (\<lambda>input. dec_next dec input 0 (\<lambda>v at. k v input at)) x"
  using codes_seq [OF parses_next] .

lemma codes_start_tag:
  "parses es (k t) x \<Longrightarrow> codes (enc_seq (Some [t] # es)) (\<lambda>input. dec_next decode_u8 input 0 (\<lambda>v at. k v input at)) x"
  using codes_seq [OF parses_tag] .

text \<open>One part that is itself a whole body, and a part that is computed from the one before it.\<close>

lemma parses_append: "parses (es @ fs) body x \<longleftrightarrow> parses (enc_seq es # fs) body x"
proof -
  have "enc_seq (es @ fs) = enc_seq (enc_seq es # fs)"
  proof (induction es rule: enc_seq.induct)
    case (3 b es)
    then show ?case by (cases "enc_seq es"; cases "enc_seq fs") auto
  qed (cases "enc_seq fs"; simp)+
  then show ?thesis by (simp add: parses_def)
qed

section \<open>Staying inside the buffer\<close>

definition within :: "'a decoder \<Rightarrow> bool" where
  "within dec \<longleftrightarrow> (\<forall>input x n. dec input = Inr (x, n) \<longrightarrow> n \<le> length input)"

lemma within_D: "within dec \<Longrightarrow> dec input = Inr (x, n) \<Longrightarrow> n \<le> length input"
  by (simp add: within_def)

definition stays :: "(bytes \<Rightarrow> nat \<Rightarrow> codec_error + ('a \<times> nat)) \<Rightarrow> bool" where
  "stays body \<longleftrightarrow> (\<forall>input at x n. at \<le> length input \<longrightarrow> body input at = Inr (x, n) \<longrightarrow> n \<le> length input)"

named_theorems stays_intros \<open>bodies that stay inside the buffer\<close>

lemma stays_done [stays_intros]: "stays (\<lambda>input at. Inr (x, at))"
  by (simp add: stays_def)

lemma stays_error [stays_intros]: "stays (\<lambda>input at. Inl e)"
  by (simp add: stays_def)

lemma stays_if [stays_intros]:
  "stays f \<Longrightarrow> stays g \<Longrightarrow> stays (\<lambda>input at. if c then f input at else g input at)"
  by (cases c) simp_all

lemma stays_next [stays_intros]:
  "within dec \<Longrightarrow> (\<And>v. stays (k v)) \<Longrightarrow> stays (\<lambda>input at. dec_next dec input at (\<lambda>v at'. k v input at'))"
proof (unfold stays_def, intro allI impI)
  fix input at x n
  assume dec: "within dec" and k: "\<And>v. \<forall>input at x n. at \<le> length input \<longrightarrow> k v input at = Inr (x, n) \<longrightarrow> n \<le> length input"
    and at: "at \<le> length input" and run: "dec_next dec input at (\<lambda>v at'. k v input at') = Inr (x, n)"
  obtain v m where "dec (drop at input) = Inr (v, m)" "k v input (at + m) = Inr (x, n)"
    using run by (auto simp: dec_next_Inr_iff)
  moreover from this(1) have "at + m \<le> length input" using within_D [OF dec, of "drop at input"] at by fastforce
  ultimately show "n \<le> length input" using k by blast
qed

lemma within_body: "stays body \<Longrightarrow> within (\<lambda>input. body input 0)"
  unfolding stays_def within_def by blast

lemma within_start [stays_intros]:
  "within dec \<Longrightarrow> (\<And>v. stays (k v)) \<Longrightarrow> within (\<lambda>input. dec_next dec input 0 (\<lambda>v at. k v input at))"
  using within_body [OF stays_next] .

lemma within_int [stays_intros]:
  "within decode_u8" "within decode_u16" "within decode_u32" "within decode_u64" "within decode_i64"
  "within decode_u128" "within decode_bool" "within decode_byte_vec" "within (decode_chunk m)"
  "within decode_expiry"
  by (auto simp: within_def dest: decode_int_consumes decode_bool_consumes decode_byte_vec_consumes
      decode_chunk_consumes decode_expiry_consumes)

section \<open>The parts\<close>

named_theorems codes_intros \<open>parts that read back\<close>

lemma codes_int [codes_intros]:
  "codes (Some (encode_u8 a)) decode_u8 a" "codes (Some (encode_u16 b)) decode_u16 b"
  "codes (Some (encode_u32 c)) decode_u32 c" "codes (Some (encode_u64 d)) decode_u64 d"
  "codes (Some (encode_i64 e)) decode_i64 e" "codes (Some (encode_u128 f)) decode_u128 f"
  "codes (Some (encode_bool g)) decode_bool g" "codes (Some (encode_expiry h)) decode_expiry h"
  by (auto simp: codes_def codec_simps encode_expiry_def decode_expiry_def dec_next_def split: option.splits)

lemma codes_array [codes_intros]: "length bs = n \<Longrightarrow> codes (Some bs) (decode_chunk n) bs"
  by (simp add: codes_def)

lemma codes_blob [codes_intros]: "length bs \<le> MAX_FRAME_BYTES \<Longrightarrow> codes (encode_bytes bs) decode_byte_vec bs"
  by (auto simp: codes_def encode_bytes_def codec_simps)

text \<open>A codec from the two calculi.\<close>

lemma codec_from_rules:
  assumes "\<And>x. ok x \<Longrightarrow> codes (enc x) dec x" "\<And>x bs. ok x \<Longrightarrow> enc x = Some bs \<Longrightarrow> length bs = len x" "within dec"
  shows "codec ok len enc dec"
proof
  fix x assume "ok x"
  then show "\<exists>bs. enc x = Some bs \<and> length bs = len x \<and> (\<forall>rest. dec (bs @ rest) = Inr (x, length bs))"
    using assms(1) [of x] assms(2) [of x] unfolding codes_def by metis
next
  fix input x n assume "dec input = Inr (x, n)"
  then show "n \<le> length input" using assms(3) by (rule within_D [rotated])
qed

section \<open>Sequences\<close>

text \<open>A counted sequence: the parts one after the other, read by a loop over the count.\<close>

fun decode_items :: "'a decoder \<Rightarrow> nat \<Rightarrow> bytes \<Rightarrow> nat \<Rightarrow> ('a list \<Rightarrow> nat \<Rightarrow> codec_error + 'b) \<Rightarrow> codec_error + 'b" where
  "decode_items dec 0 input at k = k [] at"
| "decode_items dec (Suc n) input at k =
    dec_next dec input at (\<lambda>v at'. decode_items dec n input at' (\<lambda>vs at''. k (v # vs) at''))"

lemma parses_items:
  assumes "\<forall>v \<in> set vs. codes (enc v) dec v" "parses es (k vs) x"
  shows "parses (map enc vs @ es) (\<lambda>input at. decode_items dec (length vs) input at (\<lambda>vs at'. k vs input at')) x"
  using assms
proof (induction vs arbitrary: k)
  case (Cons v vs)
  have "parses (map enc vs @ es) (\<lambda>input at. decode_items dec (length vs) input at (\<lambda>vs at'. k (v # vs) input at')) x"
    using Cons.IH [of "\<lambda>vs. k (v # vs)"] Cons.prems by simp
  then show ?case using Cons.prems(1) by (auto intro: parses_next)
qed simp

lemma stays_items [stays_intros]:
  "within dec \<Longrightarrow> (\<And>vs. stays (k vs)) \<Longrightarrow> stays (\<lambda>input at. decode_items dec n input at (\<lambda>vs at'. k vs input at'))"
proof (induction n arbitrary: k)
  case (Suc n)
  have "stays (\<lambda>input at. decode_items dec n input at (\<lambda>vs at'. k (v # vs) input at'))" for v
    using Suc.IH [of "\<lambda>vs. k (v # vs)"] Suc.prems by simp
  then show ?case using Suc.prems(1) by (auto intro: stays_next)
qed simp

section \<open>Counts and fields at fixed offsets\<close>

text \<open>\<open>u32::try_from(n).unwrap_or(u32::MAX)\<close>: a count that does not fit is written as the largest word.\<close>

definition len_u32 :: "nat \<Rightarrow> u32" where
  "len_u32 n = (if n < 2 ^ 32 then of_nat n else - 1)"

lemma unat_len_u32: "n < 2 ^ 32 \<Longrightarrow> unat (len_u32 n) = n"
  by (simp add: len_u32_def unsigned_of_nat take_bit_nat_eq_self)

text \<open>\<open>from_le_bytes(input[k..k + n])\<close>, behind a length check of the caller.\<close>

definition le_at :: "nat \<Rightarrow> nat \<Rightarrow> bytes \<Rightarrow> 'a::len word" where
  "le_at k n input = from_le (take n (drop k input))"

text \<open>Reading a little-endian field and writing it again gives the same bytes.\<close>

lemma to_le_cong: "(\<And>i. i < 8 * n \<Longrightarrow> bit v i = bit w i) \<Longrightarrow> to_le n v = to_le n (w :: 'a::len word)"
proof (induction n arbitrary: v w)
  case (Suc n)
  have "ucast v = (ucast w :: u8)"
    by (rule bit_word_eqI) (use Suc.prems in \<open>auto simp: bit_simps\<close>)
  moreover have "to_le n (drop_bit 8 v) = to_le n (drop_bit 8 w)"
    by (rule Suc.IH) (use Suc.prems in \<open>auto simp: bit_simps\<close>)
  ultimately show ?case by simp
qed simp

lemma to_le_from_le: "8 * length bs \<le> LENGTH('a::len) \<Longrightarrow> to_le (length bs) (from_le bs :: 'a word) = bs"
proof (induction bs)
  case (Cons b bs)
  let ?w = "from_le bs :: 'a word"
  have "ucast (ucast b OR push_bit 8 ?w) = b"
    by (rule bit_word_eqI) (use Cons.prems in \<open>auto simp: bit_simps\<close>)
  moreover have "to_le (length bs) (drop_bit 8 (ucast b OR push_bit 8 ?w)) = to_le (length bs) ?w"
    by (rule to_le_cong) (use Cons.prems in \<open>auto simp: bit_simps dest: bit_imp_le_length\<close>)
  ultimately show ?case using Cons by simp
qed simp

end
