(* ===== verification/Control_Codec.thy ===== *)
theory Control_Codec
  imports Control_State Codec_Rules
begin

text \<open>
  The bytes of the control plane: the records of \<open>crates/kivi-control/src\<close> (\<open>node.rs\<close>, \<open>placement.rs\<close>,
  \<open>migration.rs\<close>, \<open>split.rs\<close>, \<open>merge.rs\<close>, \<open>catalog.rs\<close>, \<open>layouts.rs\<close>) and the control mutation of
  \<open>mutation.rs\<close>.  Unlike the codecs of the data path these decoders read a whole buffer: they check its
  length, take fields at fixed offsets and rebuild the record through its checked constructor.

  The text form of a socket address is the pair of functions \<open>std::net\<close> provides, printing and parsing;
  they are arguments of the definitions, and a node record is well formed when parsing inverts printing on
  its three endpoints.  The human-readable texts in errors are left out.

  The lemmas show that every well-formed record and every well-formed control mutation is read back
  exactly, and what the checked constructors guarantee of anything that decodes.
\<close>

section \<open>Fields\<close>

text \<open>\<open>String::from_utf8\<close>.\<close>

definition in_bytes :: "u8 \<Rightarrow> u8 \<Rightarrow> u8 \<Rightarrow> bool" where
  "in_bytes lo hi b \<longleftrightarrow> lo \<le> b \<and> b \<le> hi"

fun utf8_valid :: "bytes \<Rightarrow> bool" where
  "utf8_valid [] = True"
| "utf8_valid (b # bs) =
    (if b < 0x80 then utf8_valid bs
     else case bs of
       [] \<Rightarrow> False
     | c # cs \<Rightarrow>
         if in_bytes 0xC2 0xDF b then in_bytes 0x80 0xBF c \<and> utf8_valid cs
         else case cs of
           [] \<Rightarrow> False
         | d # ds \<Rightarrow>
             if in_bytes 0xE0 0xEF b
             then in_bytes (if b = 0xE0 then 0xA0 else 0x80) (if b = 0xED then 0x9F else 0xBF) c \<and>
               in_bytes 0x80 0xBF d \<and> utf8_valid ds
             else case ds of
               [] \<Rightarrow> False
             | e # es \<Rightarrow>
                 in_bytes 0xF0 0xF4 b \<and>
                 in_bytes (if b = 0xF0 then 0x90 else 0x80) (if b = 0xF4 then 0x8F else 0xBF) c \<and>
                 in_bytes 0x80 0xBF d \<and> in_bytes 0x80 0xBF e \<and> utf8_valid es)"

text \<open>A counted list of node identifiers behind \<open>base\<close>.\<close>

definition encode_u64s :: "u64 list \<Rightarrow> bytes" where
  "encode_u64s xs = concat (map encode_u64 xs)"

definition u64s_at :: "nat \<Rightarrow> nat \<Rightarrow> bytes \<Rightarrow> u64 list" where
  "u64s_at base count input = map (\<lambda>index. le_at (base + 8 * index) 8 input) [0..<count]"

section \<open>Nodes\<close>

datatype node_error =
  NE_BadState u8 | NE_Truncated | NE_Oversized nat nat | NE_TrailingBytes | NE_BadEndpoint

fun node_state_encode_byte :: "node_state \<Rightarrow> u8" where
  "node_state_encode_byte Node_Joining = 0"
| "node_state_encode_byte Node_Active = 1"
| "node_state_encode_byte Node_Draining = 2"
| "node_state_encode_byte Node_Drained = 3"
| "node_state_encode_byte Node_Removed = 4"
| "node_state_encode_byte Node_Suspect = 5"
| "node_state_encode_byte Node_Unavailable = 6"

definition node_state_decode_byte :: "u8 \<Rightarrow> node_error + node_state" where
  "node_state_decode_byte b =
    (if b = 0 then Inr Node_Joining
     else if b = 1 then Inr Node_Active
     else if b = 2 then Inr Node_Draining
     else if b = 3 then Inr Node_Drained
     else if b = 4 then Inr Node_Removed
     else if b = 5 then Inr Node_Suspect
     else if b = 6 then Inr Node_Unavailable
     else Inl (NE_BadState b))"

definition push_str :: "bytes \<Rightarrow> bytes" where
  "push_str s = encode_u32 (len_u32 (length s)) @ s"

definition take_str :: "bytes \<Rightarrow> node_error + (bytes \<times> bytes)" where
  "take_str input =
    (if length input < 4 then Inl NE_Truncated
     else let len = unat (le_at 0 4 input :: u32) in
       if length input < 4 + len then Inl (NE_Oversized len (length input))
       else let bs = take len (drop 4 input) in
         if utf8_valid bs then Inr (bs, drop (4 + len) input) else Inl NE_BadEndpoint)"

definition encode_node :: "(socket_addr \<Rightarrow> bytes) \<Rightarrow> node_record \<Rightarrow> bytes" where
  "encode_node to_str r =
    encode_u64 (nr_node r) @ [node_state_encode_byte (nr_state r)] @ push_str (to_str (nr_peer r)) @
    push_str (to_str (nr_native r)) @ push_str (to_str (nr_admin r)) @ nr_cert_fingerprint r @
    push_str (nr_failure_domain r) @ encode_u32 (nr_weight r)"

definition parse_endpoint :: "(bytes \<Rightarrow> socket_addr option) \<Rightarrow> bytes \<Rightarrow> node_error + socket_addr" where
  "parse_endpoint parse s = ok_or NE_BadEndpoint (parse s)"

definition decode_node :: "(bytes \<Rightarrow> socket_addr option) \<Rightarrow> bytes \<Rightarrow> node_error + node_record" where
  "decode_node parse input =
    (if length input < 45 then Inl NE_Truncated
     else and_then (node_state_decode_byte (input ! 8)) (\<lambda>st.
       and_then (take_str (drop 9 input)) (\<lambda>(peer_str, rest).
       and_then (take_str rest) (\<lambda>(native_str, rest).
       and_then (take_str rest) (\<lambda>(admin_str, rest).
       if length rest < 36 then Inl NE_Truncated
       else and_then (take_str (drop 32 rest)) (\<lambda>(domain, tail).
       if length tail < 4 then Inl NE_Truncated
       else if drop 4 tail \<noteq> [] then Inl NE_TrailingBytes
       else
         and_then (parse_endpoint parse peer_str) (\<lambda>peer.
         and_then (parse_endpoint parse native_str) (\<lambda>native.
         and_then (parse_endpoint parse admin_str) (\<lambda>admin.
           Inr \<lparr>nr_node = le_at 0 8 input, nr_peer = peer, nr_native = native, nr_admin = admin,
             nr_cert_fingerprint = take 32 rest, nr_failure_domain = domain,
             nr_weight = max (le_at 0 4 tail) 1, nr_state = st\<rparr>)))))))))"

section \<open>Placements\<close>

definition encode_desired :: "desired_replica_set \<Rightarrow> bytes" where
  "encode_desired d =
    encode_u64 (drs_tablet d) @ encode_u64 (drs_version d) @
    encode_u32 (len_u32 (length (drs_replicas d))) @ encode_u64s (drs_replicas d)"

definition decode_desired :: "bytes \<Rightarrow> placement_error + desired_replica_set" where
  "decode_desired input =
    (if length input < 20 then Inl PE_Truncated
     else let count = unat (le_at 16 4 input :: u32) in
       if length input < 20 + 8 * count then Inl PE_Truncated
       else if 20 + 8 * count < length input then Inl PE_TrailingBytes
       else desired_new (le_at 0 8 input) (u64s_at 20 count input) (le_at 8 8 input))"

section \<open>Plans\<close>

fun mig_encode_byte :: "migration_phase \<Rightarrow> u8" where
  "mig_encode_byte Mig_Planned = 0"
| "mig_encode_byte Mig_TargetStarting = 1"
| "mig_encode_byte Mig_LearnerAdded = 2"
| "mig_encode_byte Mig_Ready = 3"
| "mig_encode_byte Mig_MembershipChanging = 4"
| "mig_encode_byte Mig_Committed = 5"
| "mig_encode_byte Mig_SourceRetiring = 6"
| "mig_encode_byte Mig_Completed = 7"
| "mig_encode_byte Mig_Failed = 8"

definition mig_decode_byte :: "u8 \<Rightarrow> migration_error + migration_phase" where
  "mig_decode_byte b =
    (if b = 0 then Inr Mig_Planned
     else if b = 1 then Inr Mig_TargetStarting
     else if b = 2 then Inr Mig_LearnerAdded
     else if b = 3 then Inr Mig_Ready
     else if b = 4 then Inr Mig_MembershipChanging
     else if b = 5 then Inr Mig_Committed
     else if b = 6 then Inr Mig_SourceRetiring
     else if b = 7 then Inr Mig_Completed
     else if b = 8 then Inr Mig_Failed
     else Inl (MGE_BadPhase b))"

definition encode_migration :: "migration_plan \<Rightarrow> bytes" where
  "encode_migration p =
    encode_u64 (mig_id p) @ encode_u64 (mig_tablet p) @ encode_u64 (mig_generation p) @
    encode_u64 (mig_from p) @ encode_u64 (mig_to p) @ [mig_encode_byte (mig_phase p)] @
    encode_u32 (len_u32 (length (mig_desired_voters p))) @ encode_u64s (mig_desired_voters p)"

definition decode_migration :: "bytes \<Rightarrow> migration_error + migration_plan" where
  "decode_migration input =
    (if length input < 45 then Inl MGE_Truncated
     else and_then (mig_decode_byte (input ! 40)) (\<lambda>p.
       let count = unat (le_at 41 4 input :: u32) in
       if length input < 45 + 8 * count then Inl MGE_Truncated
       else if 45 + 8 * count < length input then Inl MGE_TrailingBytes
       else map_ok (\<lambda>plan. plan\<lparr>mig_phase := p\<rparr>)
         (migration_new (le_at 0 8 input) (le_at 8 8 input) (le_at 16 8 input) (le_at 24 8 input)
           (le_at 32 8 input) (u64s_at 45 count input))))"

fun split_encode_byte :: "split_phase \<Rightarrow> u8" where
  "split_encode_byte Split_Planned = 0"
| "split_encode_byte Split_ChildrenProvisioning = 1"
| "split_encode_byte Split_BaseSeeded = 2"
| "split_encode_byte Split_Fenced = 3"
| "split_encode_byte Split_ChildrenReady = 6"
| "split_encode_byte Split_CutoverCommitted = 4"
| "split_encode_byte Split_ParentRetiring = 5"
| "split_encode_byte Split_Completed = 7"
| "split_encode_byte Split_Failed = 8"

definition split_decode_byte :: "u8 \<Rightarrow> split_error + split_phase" where
  "split_decode_byte b =
    (if b = 0 then Inr Split_Planned
     else if b = 1 then Inr Split_ChildrenProvisioning
     else if b = 2 then Inr Split_BaseSeeded
     else if b = 3 then Inr Split_Fenced
     else if b = 4 then Inr Split_CutoverCommitted
     else if b = 5 then Inr Split_ParentRetiring
     else if b = 6 then Inr Split_ChildrenReady
     else if b = 7 then Inr Split_Completed
     else if b = 8 then Inr Split_Failed
     else Inl (SPE_BadPhase b))"

definition encode_split_key :: "bytes option \<Rightarrow> bytes" where
  "encode_split_key k =
    (case k of None \<Rightarrow> [0] | Some bs \<Rightarrow> [1] @ encode_u32 (len_u32 (length bs)) @ bs)"

definition encode_split :: "split_plan \<Rightarrow> bytes" where
  "encode_split p =
    encode_u64 (split_id p) @ encode_u64 (split_parent p) @ encode_u128 (split_hash p) @
    encode_u64 (split_left p) @ encode_u64 (split_right p) @ encode_u64 (split_generation p) @
    [split_encode_byte (split_phase p)] @ encode_u32 (len_u32 (length (split_replicas p))) @
    encode_u64s (split_replicas p) @ encode_split_key (split_key p)"

text \<open>The optional key at \<open>at\<close>, with the offset behind it.\<close>

definition decode_split_key :: "bytes \<Rightarrow> nat \<Rightarrow> split_error + (bytes option \<times> nat)" where
  "decode_split_key input at =
    (if input ! at = 0 then Inr (None, at + 1)
     else if input ! at = 1 then
       (if length input < at + 1 + 4 then Inl SPE_Truncated
        else let len = unat (le_at (at + 1) 4 input :: u32) in
          if length input < at + 5 + len then Inl SPE_Truncated
          else Inr (Some (take len (drop (at + 5) input)), at + 5 + len))
     else Inl SPE_Truncated)"

definition decode_split :: "bytes \<Rightarrow> split_error + split_plan" where
  "decode_split input =
    (if length input < 62 then Inl SPE_Truncated
     else and_then (split_decode_byte (input ! 56)) (\<lambda>p.
       let count = unat (le_at 57 4 input :: u32); at = 61 + 8 * count in
       if length input < at + 1 then Inl SPE_Truncated
       else and_then (decode_split_key input at) (\<lambda>(skey, at).
         if length input < at then Inl SPE_Truncated
         else if at < length input then Inl SPE_TrailingBytes
         else map_ok (\<lambda>plan. plan\<lparr>split_phase := p\<rparr>)
           (split_new (le_at 0 8 input) (le_at 8 8 input) (le_at 16 16 input) skey (le_at 32 8 input)
             (le_at 40 8 input) (u64s_at 61 count input) (le_at 48 8 input)))))"

fun merge_encode_byte :: "merge_phase \<Rightarrow> u8" where
  "merge_encode_byte Merge_Planned = 0"
| "merge_encode_byte Merge_TargetAllocated = 1"
| "merge_encode_byte Merge_BaseSeeded = 2"
| "merge_encode_byte Merge_Fenced = 3"
| "merge_encode_byte Merge_TargetReady = 6"
| "merge_encode_byte Merge_CutoverCommitted = 4"
| "merge_encode_byte Merge_ParentsRetiring = 5"
| "merge_encode_byte Merge_Completed = 7"
| "merge_encode_byte Merge_Failed = 8"

definition merge_decode_byte :: "u8 \<Rightarrow> merge_error + merge_phase" where
  "merge_decode_byte b =
    (if b = 0 then Inr Merge_Planned
     else if b = 1 then Inr Merge_TargetAllocated
     else if b = 2 then Inr Merge_BaseSeeded
     else if b = 3 then Inr Merge_Fenced
     else if b = 4 then Inr Merge_CutoverCommitted
     else if b = 5 then Inr Merge_ParentsRetiring
     else if b = 6 then Inr Merge_TargetReady
     else if b = 7 then Inr Merge_Completed
     else if b = 8 then Inr Merge_Failed
     else Inl (MRE_BadPhase b))"

definition encode_merge :: "merge_plan \<Rightarrow> bytes" where
  "encode_merge p =
    encode_u64 (merge_id p) @ encode_u64 (merge_left p) @ encode_u64 (merge_right p) @
    encode_u64 (merge_merged p) @ encode_u64 (merge_generation p) @ [merge_encode_byte (merge_phase p)] @
    encode_u32 (len_u32 (length (merge_replicas p))) @ encode_u64s (merge_replicas p)"

definition decode_merge :: "bytes \<Rightarrow> merge_error + merge_plan" where
  "decode_merge input =
    (if length input < 45 then Inl MRE_Truncated
     else and_then (merge_decode_byte (input ! 40)) (\<lambda>p.
       let count = unat (le_at 41 4 input :: u32) in
       if length input < 45 + 8 * count then Inl MRE_Truncated
       else if 45 + 8 * count < length input then Inl MRE_TrailingBytes
       else map_ok (\<lambda>plan. plan\<lparr>merge_phase := p\<rparr>)
         (merge_new (le_at 0 8 input) (le_at 8 8 input) (le_at 16 8 input) (le_at 24 8 input)
           (u64s_at 45 count input) (le_at 32 8 input))))"

section \<open>Catalog\<close>

fun catalog_layout_encode_byte :: "catalog_layout \<Rightarrow> u8" where
  "catalog_layout_encode_byte Catalog_Hash = 0"
| "catalog_layout_encode_byte Catalog_Ordered = 1"

definition catalog_layout_decode_byte :: "u8 \<Rightarrow> catalog_error + catalog_layout" where
  "catalog_layout_decode_byte b =
    (if b = 0 then Inr Catalog_Hash else if b = 1 then Inr Catalog_Ordered else Inl (CGE_BadLayout b))"

definition encode_namespace_record :: "namespace_record \<Rightarrow> bytes" where
  "encode_namespace_record r = encode_u64 (nsr_id r) @ [catalog_layout_encode_byte (nsr_layout r)]"

definition decode_namespace_record :: "bytes \<Rightarrow> catalog_error + namespace_record" where
  "decode_namespace_record input =
    (if length input \<noteq> 9 then Inl CGE_Truncated
     else map_ok (\<lambda>l. \<lparr>nsr_id = le_at 0 8 input, nsr_layout = l\<rparr>) (catalog_layout_decode_byte (input ! 8)))"

fun index_kind_encode_byte :: "catalog_index_kind \<Rightarrow> u8" where
  "index_kind_encode_byte Index_NonUnique = 0"
| "index_kind_encode_byte Index_Unique = 1"

definition index_kind_decode_byte :: "u8 \<Rightarrow> catalog_error + catalog_index_kind" where
  "index_kind_decode_byte b =
    (if b = 0 then Inr Index_NonUnique else if b = 1 then Inr Index_Unique else Inl (CGE_BadIndexKind b))"

fun index_state_encode_byte :: "catalog_index_state \<Rightarrow> u8" where
  "index_state_encode_byte Index_Building = 0"
| "index_state_encode_byte Index_Ready = 1"
| "index_state_encode_byte Index_Dropping = 2"

definition encode_index_record :: "index_record \<Rightarrow> bytes" where
  "encode_index_record r =
    encode_u64 (ixr_id r) @ encode_u64 (ixr_primary r) @
    [index_kind_encode_byte (ixr_kind r), index_state_encode_byte (ixr_state r)]"

definition decode_index_record :: "bytes \<Rightarrow> catalog_error + index_record" where
  "decode_index_record input =
    (if length input \<noteq> 18 then Inl CGE_Truncated
     else and_then (index_kind_decode_byte (input ! 16)) (\<lambda>k.
       and_then (index_state_decode_byte (input ! 17)) (\<lambda>st.
         Inr \<lparr>ixr_id = le_at 0 8 input, ixr_primary = le_at 8 8 input, ixr_kind = k, ixr_state = st\<rparr>)))"

section \<open>Redundancy layouts\<close>

definition LAYOUT_KEY_LEN :: nat where
  "LAYOUT_KEY_LEN = 41"

definition MAX_LAYOUT_WIRE_BYTES :: nat where
  "MAX_LAYOUT_WIRE_BYTES = 4 * 1024 * 1024"

datatype layout_error =
    LE_Truncated
  | LE_Oversized nat nat
  | LE_TrailingBytes
  | LE_BadKind u8
  | LE_ZeroHash
  | LE_ZeroGeneration
  | LE_EmptyLayout

datatype asset_kind =
  Chunk | ChunkManifest | CheckpointBand | CheckpointManifest | CheckpointDedup | GenericImmutable

definition asset_kind_from_u8 :: "u8 \<Rightarrow> asset_kind option" where
  "asset_kind_from_u8 b =
    (if b = 0 then Some Chunk
     else if b = 1 then Some ChunkManifest
     else if b = 2 then Some CheckpointBand
     else if b = 3 then Some CheckpointManifest
     else if b = 4 then Some CheckpointDedup
     else if b = 5 then Some GenericImmutable
     else None)"

definition encode_layout_key :: "layout_key \<Rightarrow> bytes" where
  "encode_layout_key k = [lk_kind k] @ encode_u64 (lk_domain k) @ lk_hash k"

definition decode_layout_key :: "bytes \<Rightarrow> layout_error + layout_key" where
  "decode_layout_key input =
    (if length input < LAYOUT_KEY_LEN then Inl LE_Truncated
     else if LAYOUT_KEY_LEN < length input then Inl LE_TrailingBytes
     else let kind = input ! 0; hash = take 32 (drop 9 input) in
       if asset_kind_from_u8 kind = None then Inl (LE_BadKind kind)
       else if hash = replicate 32 0 then Inl LE_ZeroHash
       else Inr (LayoutKey kind (le_at 1 8 input) hash))"

definition encode_layout_record :: "layout_record \<Rightarrow> bytes" where
  "encode_layout_record r =
    encode_u64 (lr_control_generation r) @ encode_u32 (len_u32 (length (lr_layout r))) @ lr_layout r"

definition decode_layout_record :: "bytes \<Rightarrow> layout_error + layout_record" where
  "decode_layout_record input =
    (if length input < 12 then Inl LE_Truncated
     else let generation = le_at 0 8 input; len = unat (le_at 8 4 input :: u32) in
       if generation = 0 then Inl LE_ZeroGeneration
       else if MAX_LAYOUT_WIRE_BYTES < len then Inl (LE_Oversized len (length input))
       else if length input < 12 + len then Inl (LE_Oversized len (length input))
       else if 12 + len < length input then Inl LE_TrailingBytes
       else if len = 0 then Inl LE_EmptyLayout
       else Inr \<lparr>lr_control_generation = generation, lr_layout = take len (drop 12 input)\<rparr>)"

section \<open>Control mutations\<close>

definition CONTROL_MUTATION_VERSION :: u16 where
  "CONTROL_MUTATION_VERSION = 1"

datatype control_mutation_error =
    CME_UnsupportedVersion u16
  | CME_Truncated
  | CME_Oversized nat nat
  | CME_BadTag u8
  | CME_TrailingBytes
  | CME_BadBody

fun control_body :: "(socket_addr \<Rightarrow> bytes) \<Rightarrow> control_mutation \<Rightarrow> u8 \<times> bytes" where
  "control_body to_str (RegisterNode record) = (0, encode_node to_str record)"
| "control_body to_str (SetNodeState node st) = (1, encode_u64 node @ [node_state_encode_byte st])"
| "control_body to_str (SetDesiredPlacement desired) = (2, encode_desired desired)"
| "control_body to_str (CreateMigration plan) = (3, encode_migration plan)"
| "control_body to_str (AdvanceMigration plan p generation) =
    (4, encode_u64 plan @ [mig_encode_byte p] @ encode_u64 generation)"
| "control_body to_str (RemoveMigration plan) = (5, encode_u64 plan)"
| "control_body to_str (CreateSplit plan') = (6, encode_split plan')"
| "control_body to_str (AdvanceSplit plan p' generation) =
    (7, encode_u64 plan @ [split_encode_byte p'] @ encode_u64 generation)"
| "control_body to_str (RemoveSplit plan) = (8, encode_u64 plan)"
| "control_body to_str (CreateMerge plan'') = (9, encode_merge plan'')"
| "control_body to_str (AdvanceMerge plan p'' generation) =
    (10, encode_u64 plan @ [merge_encode_byte p''] @ encode_u64 generation)"
| "control_body to_str (RemoveMerge plan) = (11, encode_u64 plan)"
| "control_body to_str (RegisterNamespace ns) = (12, encode_namespace_record ns)"
| "control_body to_str (CreateIndex index) = (13, encode_index_record index)"
| "control_body to_str (AdvanceIndex i st') = (14, encode_u64 i @ [st'])"
| "control_body to_str (RemoveIndex i) = (15, encode_u64 i)"
| "control_body to_str (PublishRedundancyLayout key generation layout) =
    (16, encode_layout_key key @ encode_u64 generation @ encode_layout_record layout)"
| "control_body to_str (DropRedundancyAsset key) = (17, encode_layout_key key)"

definition encode_control_mutation :: "(socket_addr \<Rightarrow> bytes) \<Rightarrow> control_mutation \<Rightarrow> bytes" where
  "encode_control_mutation to_str m =
    (let (tag, body) = control_body to_str m in
     encode_u16 CONTROL_MUTATION_VERSION @ [tag] @ encode_u32 (len_u32 (length body)) @ body)"

text \<open>A failure of a record's own decoder.\<close>

definition bad_body :: "'e + 'a \<Rightarrow> control_mutation_error + 'a" where
  "bad_body r = map_err (\<lambda>_. CME_BadBody) r"

text \<open>The three bodies several tags share: an identifier, an identifier with a state byte, and an identifier
  with a phase byte and a generation.\<close>

definition id_body :: "bytes \<Rightarrow> (u64 \<Rightarrow> control_mutation) \<Rightarrow> control_mutation_error + control_mutation" where
  "id_body body build = (if length body \<noteq> 8 then Inl CME_Truncated else Inr (build (le_at 0 8 body)))"

definition advance_body ::
  "bytes \<Rightarrow> (u8 \<Rightarrow> 'e + 'p) \<Rightarrow> (u64 \<Rightarrow> 'p \<Rightarrow> u64 \<Rightarrow> control_mutation) \<Rightarrow>
   control_mutation_error + control_mutation" where
  "advance_body body phase_of build =
    (if length body \<noteq> 17 then Inl CME_Truncated
     else map_ok (\<lambda>p. build (le_at 0 8 body) p (le_at 9 8 body)) (bad_body (phase_of (body ! 8))))"

definition publish_body :: "bytes \<Rightarrow> control_mutation_error + control_mutation" where
  "publish_body body =
    (if length body < LAYOUT_KEY_LEN + 8 + 12 then Inl CME_Truncated
     else and_then (bad_body (decode_layout_key (take LAYOUT_KEY_LEN body))) (\<lambda>key.
       let generation = le_at LAYOUT_KEY_LEN 8 body in
       and_then (bad_body (decode_layout_record (drop (LAYOUT_KEY_LEN + 8) body))) (\<lambda>record.
         if generation \<noteq> lr_control_generation record then Inl CME_BadBody
         else Inr (PublishRedundancyLayout key generation record))))"

definition decode_control_body ::
  "(bytes \<Rightarrow> socket_addr option) \<Rightarrow> u8 \<Rightarrow> bytes \<Rightarrow> control_mutation_error + control_mutation" where
  "decode_control_body parse tag body =
    (if tag = 0 then map_ok RegisterNode (bad_body (decode_node parse body))
     else if tag = 1 then
       (if length body \<noteq> 9 then Inl CME_Truncated
        else map_ok (SetNodeState (le_at 0 8 body)) (bad_body (node_state_decode_byte (body ! 8))))
     else if tag = 2 then map_ok SetDesiredPlacement (bad_body (decode_desired body))
     else if tag = 3 then map_ok CreateMigration (bad_body (decode_migration body))
     else if tag = 4 then advance_body body mig_decode_byte AdvanceMigration
     else if tag = 5 then id_body body RemoveMigration
     else if tag = 6 then map_ok CreateSplit (bad_body (decode_split body))
     else if tag = 7 then advance_body body split_decode_byte AdvanceSplit
     else if tag = 8 then id_body body RemoveSplit
     else if tag = 9 then map_ok CreateMerge (bad_body (decode_merge body))
     else if tag = 10 then advance_body body merge_decode_byte AdvanceMerge
     else if tag = 11 then id_body body RemoveMerge
     else if tag = 12 then map_ok RegisterNamespace (bad_body (decode_namespace_record body))
     else if tag = 13 then map_ok CreateIndex (bad_body (decode_index_record body))
     else if tag = 14 then
       (if length body \<noteq> 9 then Inl CME_Truncated else Inr (AdvanceIndex (le_at 0 8 body) (body ! 8)))
     else if tag = 15 then id_body body RemoveIndex
     else if tag = 16 then publish_body body
     else if tag = 17 then
       (if length body \<noteq> LAYOUT_KEY_LEN then Inl CME_Truncated
        else map_ok DropRedundancyAsset (bad_body (decode_layout_key body)))
     else Inl (CME_BadTag tag))"

definition decode_control_mutation ::
  "(bytes \<Rightarrow> socket_addr option) \<Rightarrow> bytes \<Rightarrow> control_mutation_error + control_mutation" where
  "decode_control_mutation parse input =
    (if length input < 7 then Inl CME_Truncated
     else let version = le_at 0 2 input; tag = input ! 2; len = unat (le_at 3 4 input :: u32) in
       if version \<noteq> CONTROL_MUTATION_VERSION then Inl (CME_UnsupportedVersion version)
       else if length input < 7 + len then Inl (CME_Oversized len (length input))
       else if drop (7 + len) input \<noteq> [] then Inl CME_TrailingBytes
       else decode_control_body parse tag (take len (drop 7 input)))"

section \<open>Well-formed records\<close>

definition text_wf :: "bytes \<Rightarrow> bool" where
  "text_wf s \<longleftrightarrow> length s < 2 ^ 32 \<and> utf8_valid s"

definition endpoint_wf :: "(socket_addr \<Rightarrow> bytes) \<Rightarrow> (bytes \<Rightarrow> socket_addr option) \<Rightarrow> socket_addr \<Rightarrow> bool" where
  "endpoint_wf to_str parse a \<longleftrightarrow> text_wf (to_str a) \<and> parse (to_str a) = Some a"

definition node_wf :: "(socket_addr \<Rightarrow> bytes) \<Rightarrow> (bytes \<Rightarrow> socket_addr option) \<Rightarrow> node_record \<Rightarrow> bool" where
  "node_wf to_str parse r \<longleftrightarrow>
    endpoint_wf to_str parse (nr_peer r) \<and> endpoint_wf to_str parse (nr_native r) \<and>
    endpoint_wf to_str parse (nr_admin r) \<and> length (nr_cert_fingerprint r) = 32 \<and>
    text_wf (nr_failure_domain r) \<and> nr_weight r \<noteq> 0"

definition node_list_wf :: "node_id list \<Rightarrow> bool" where
  "node_list_wf ns \<longleftrightarrow> sorted_wrt (<) ns \<and> length ns < 2 ^ 32"

definition desired_wf :: "desired_replica_set \<Rightarrow> bool" where
  "desired_wf d \<longleftrightarrow> drs_replicas d \<noteq> [] \<and> node_list_wf (drs_replicas d)"

definition migration_wf :: "migration_plan \<Rightarrow> bool" where
  "migration_wf p \<longleftrightarrow> mig_from p \<noteq> mig_to p \<and> node_list_wf (mig_desired_voters p)"

definition split_wf :: "split_plan \<Rightarrow> bool" where
  "split_wf p \<longleftrightarrow>
    distinct (split_tablets p) \<and> node_list_wf (split_replicas p) \<and>
    (case split_key p of None \<Rightarrow> True | Some k \<Rightarrow> length k < 2 ^ 32)"

definition merge_wf :: "merge_plan \<Rightarrow> bool" where
  "merge_wf p \<longleftrightarrow> distinct (merge_tablets p) \<and> node_list_wf (merge_replicas p)"

definition layout_key_wf :: "layout_key \<Rightarrow> bool" where
  "layout_key_wf k \<longleftrightarrow> asset_kind_from_u8 (lk_kind k) \<noteq> None \<and> length (lk_hash k) = 32 \<and> lk_hash k \<noteq> replicate 32 0"

definition layout_record_wf :: "layout_record \<Rightarrow> bool" where
  "layout_record_wf r \<longleftrightarrow>
    lr_control_generation r \<noteq> 0 \<and> lr_layout r \<noteq> [] \<and> length (lr_layout r) \<le> MAX_LAYOUT_WIRE_BYTES"

fun control_mutation_wf ::
  "(socket_addr \<Rightarrow> bytes) \<Rightarrow> (bytes \<Rightarrow> socket_addr option) \<Rightarrow> control_mutation \<Rightarrow> bool" where
  "control_mutation_wf to_str parse (RegisterNode record) = node_wf to_str parse record"
| "control_mutation_wf to_str parse (SetDesiredPlacement desired) = desired_wf desired"
| "control_mutation_wf to_str parse (CreateMigration plan) = migration_wf plan"
| "control_mutation_wf to_str parse (CreateSplit plan') = split_wf plan'"
| "control_mutation_wf to_str parse (CreateMerge plan'') = merge_wf plan''"
| "control_mutation_wf to_str parse (PublishRedundancyLayout key generation layout) \<longleftrightarrow>
    layout_key_wf key \<and> layout_record_wf layout \<and> generation = lr_control_generation layout"
| "control_mutation_wf to_str parse (DropRedundancyAsset key) = layout_key_wf key"
| "control_mutation_wf to_str parse _ = True"

section \<open>Reading fields back\<close>

named_theorems field_reads \<open>fields of an encoding\<close>

lemma le_at_skip [field_reads]: "length xs \<le> k \<Longrightarrow> le_at k n (xs @ ys) = le_at (k - length xs) n ys"
  by (simp add: le_at_def)

lemma le_at_tail [field_reads]: "0 < k \<Longrightarrow> le_at k n (b # ys) = le_at (k - 1) n ys"
  by (cases k) (simp_all add: le_at_def)

lemma le_at_encode [field_reads]:
  "le_at 0 2 (encode_u16 a @ ys) = a" "le_at 0 4 (encode_u32 b @ ys) = b" "le_at 0 8 (encode_u64 c @ ys) = c"
  "le_at 0 16 (encode_u128 d @ ys) = d" "le_at 0 4 (encode_u32 b) = b" "le_at 0 8 (encode_u64 c) = c"
  by (simp_all add: le_at_def encode_u16_def encode_u32_def encode_u64_def encode_u128_def from_le_to_le
      take_bit_word_eq_self)

lemma length_encode_u64s [field_reads]: "length (encode_u64s xs) = 8 * length xs"
  by (induction xs) (simp_all add: encode_u64s_def codec_simps)

lemma u64s_at_skip [field_reads]: "length xs \<le> base \<Longrightarrow> u64s_at base n (xs @ ys) = u64s_at (base - length xs) n ys"
  by (simp add: u64s_at_def le_at_skip)

lemma u64s_at_tail [field_reads]: "0 < base \<Longrightarrow> u64s_at base n (b # ys) = u64s_at (base - 1) n ys"
  by (simp add: u64s_at_def le_at_tail)

lemma u64s_at_encode: "u64s_at 0 (length xs) (encode_u64s xs @ ys) = xs"
proof (induction xs)
  case (Cons x xs)
  have "u64s_at 0 (length (x # xs)) (encode_u64s (x # xs) @ ys) =
      x # u64s_at 0 (length xs) (encode_u64s xs @ ys)"
    unfolding u64s_at_def
    by (simp add: map_upt_Suc encode_u64s_def field_reads codec_simps del: upt_Suc)
  then show ?case using Cons.IH by simp
qed (simp add: u64s_at_def)

lemma u64s_at_encode_all [field_reads]: "u64s_at 0 (length xs) (encode_u64s xs) = xs"
  using u64s_at_encode [of xs "[]"] by simp

lemma sorted_dedup: "sorted_wrt (<) (xs :: u64 list) \<Longrightarrow> dedup_by_key id (sort xs) = xs"
proof -
  assume "sorted_wrt (<) xs"
  then have "sort xs = xs" and "dedup_by_key id xs = xs"
    by (auto intro: sorted_sort_id simp: strict_sorted_iff)
      (induction xs rule: induct_list012; auto)
  then show ?thesis by simp
qed

section \<open>Reading records back\<close>

lemma node_state_byte [field_reads]: "node_state_decode_byte (node_state_encode_byte st) = Inr st"
  by (cases st) (simp_all add: node_state_decode_byte_def)

lemma mig_byte [field_reads]: "mig_decode_byte (mig_encode_byte p) = Inr p"
  by (cases p) (simp_all add: mig_decode_byte_def)

lemma split_byte [field_reads]: "split_decode_byte (split_encode_byte p) = Inr p"
  by (cases p) (simp_all add: split_decode_byte_def)

lemma merge_byte [field_reads]: "merge_decode_byte (merge_encode_byte p) = Inr p"
  by (cases p) (simp_all add: merge_decode_byte_def)

lemma catalog_layout_byte [field_reads]: "catalog_layout_decode_byte (catalog_layout_encode_byte l) = Inr l"
  by (cases l) (simp_all add: catalog_layout_decode_byte_def)

lemma index_kind_byte [field_reads]: "index_kind_decode_byte (index_kind_encode_byte k) = Inr k"
  by (cases k) (simp_all add: index_kind_decode_byte_def)

lemma index_state_byte [field_reads]: "index_state_decode_byte (index_state_encode_byte s) = Inr s"
  by (cases s) (simp_all add: index_state_decode_byte_def)

lemma max_one: "w \<noteq> 0 \<Longrightarrow> max w (1 :: 'a::len word) = w"
  by (simp add: max_def) (metis antisym word_less_1 linorder_not_le order_le_less)

lemma take_str_push [field_reads]: "text_wf s \<Longrightarrow> take_str (push_str s @ rest) = Inr (s, rest)"
  by (simp add: take_str_def push_str_def text_wf_def field_reads codec_simps unat_len_u32)

lemma length_push_str [field_reads]: "length (push_str s) = 4 + length s"
  by (simp add: push_str_def codec_simps)

lemma decode_node_encode: "node_wf to_str parse r \<Longrightarrow> decode_node parse (encode_node to_str r) = Inr r"
  by (simp add: decode_node_def encode_node_def node_wf_def endpoint_wf_def parse_endpoint_def field_reads
      codec_simps nth_append max_one)

lemma decode_desired_encode: "desired_wf d \<Longrightarrow> decode_desired (encode_desired d) = Inr d"
  by (simp add: decode_desired_def encode_desired_def desired_wf_def node_list_wf_def field_reads codec_simps
      unat_len_u32 desired_new_Inr_iff sorted_sort_id strict_sorted_iff)

lemma decode_migration_encode: "migration_wf p \<Longrightarrow> decode_migration (encode_migration p) = Inr p"
  by (simp add: decode_migration_def encode_migration_def migration_wf_def node_list_wf_def field_reads
      codec_simps nth_append unat_len_u32 migration_new_def sorted_dedup)

lemma decode_merge_encode: "merge_wf p \<Longrightarrow> decode_merge (encode_merge p) = Inr p"
  by (simp add: decode_merge_def encode_merge_def merge_wf_def merge_tablets_def node_list_wf_def field_reads
      codec_simps nth_append unat_len_u32 merge_new_def sorted_dedup)

lemma decode_namespace_encode: "decode_namespace_record (encode_namespace_record r) = Inr r"
  by (simp add: decode_namespace_record_def encode_namespace_record_def field_reads codec_simps nth_append)

lemma decode_index_encode: "decode_index_record (encode_index_record r) = Inr r"
  by (simp add: decode_index_record_def encode_index_record_def field_reads codec_simps nth_append)

lemma decode_layout_key_encode: "layout_key_wf k \<Longrightarrow> decode_layout_key (encode_layout_key k) = Inr k"
  by (cases k) (simp add: decode_layout_key_def encode_layout_key_def layout_key_wf_def LAYOUT_KEY_LEN_def field_reads
      codec_simps nth_append)

lemma decode_layout_record_encode: "layout_record_wf r \<Longrightarrow> decode_layout_record (encode_layout_record r) = Inr r"
  by (simp add: decode_layout_record_def encode_layout_record_def layout_record_wf_def MAX_LAYOUT_WIRE_BYTES_def
      field_reads codec_simps unat_len_u32)

lemma length_encode_split_key [field_reads]:
  "length (encode_split_key k) = (case k of None \<Rightarrow> 1 | Some bs \<Rightarrow> 5 + length bs)"
  by (simp add: encode_split_key_def codec_simps split: option.splits)

lemma decode_split_key_encode [field_reads]:
  assumes "case k of None \<Rightarrow> True | Some bs \<Rightarrow> length bs < 2 ^ 32" "at = length pre"
  shows "decode_split_key (pre @ encode_split_key k) at = Inr (k, at + length (encode_split_key k))"
  using assms
  by (cases k) (simp_all add: decode_split_key_def encode_split_key_def nth_append field_reads codec_simps unat_len_u32)

lemma decode_split_encode: "split_wf p \<Longrightarrow> decode_split (encode_split p) = Inr p"
proof -
  assume wf: "split_wf p"
  define pre where "pre = encode_u64 (split_id p) @ encode_u64 (split_parent p) @ encode_u128 (split_hash p) @
    encode_u64 (split_left p) @ encode_u64 (split_right p) @ encode_u64 (split_generation p) @
    [split_encode_byte (split_phase p)] @ encode_u32 (len_u32 (length (split_replicas p))) @
    encode_u64s (split_replicas p)"
  have len: "length pre = 61 + 8 * length (split_replicas p)"
    by (simp add: pre_def field_reads codec_simps)
  have enc: "encode_split p = pre @ encode_split_key (split_key p)"
    by (simp add: pre_def encode_split_def)
  have fields: "le_at 0 8 (pre @ t) = split_id p" "le_at 8 8 (pre @ t) = split_parent p"
    "le_at 16 16 (pre @ t) = split_hash p" "le_at 32 8 (pre @ t) = split_left p"
    "le_at 40 8 (pre @ t) = split_right p" "le_at 48 8 (pre @ t) = split_generation p"
    "(pre @ t) ! 56 = split_encode_byte (split_phase p)"
    "le_at 57 4 (pre @ t) = len_u32 (length (split_replicas p))"
    "u64s_at 61 (length (split_replicas p)) (pre @ t) = split_replicas p" for t
    by (simp_all add: pre_def field_reads codec_simps nth_append u64s_at_encode)
  show ?thesis
    using wf unfolding enc decode_split_def
    by (simp add: fields len field_reads unat_len_u32 node_list_wf_def split_wf_def split_tablets_def split_new_def
        sorted_dedup split: option.splits)
qed

section \<open>Reading mutations back\<close>

lemmas record_round_trips = decode_node_encode decode_desired_encode decode_migration_encode decode_split_encode
  decode_merge_encode decode_namespace_encode decode_index_encode decode_layout_key_encode
  decode_layout_record_encode

lemma bad_body_Inr [simp]: "bad_body (Inr x) = Inr x"
  by (simp add: bad_body_def)

lemma bad_body_Inr_iff [simp]: "bad_body r = Inr x \<longleftrightarrow> r = Inr x"
  by (simp add: bad_body_def result_simps)

lemma length_encode_layout_key: "layout_key_wf k \<Longrightarrow> length (encode_layout_key k) = LAYOUT_KEY_LEN"
  by (simp add: encode_layout_key_def layout_key_wf_def LAYOUT_KEY_LEN_def codec_simps)

lemma publish_body_encode:
  assumes "layout_key_wf k" "layout_record_wf r" "g = lr_control_generation r"
  shows "publish_body (encode_layout_key k @ encode_u64 g @ encode_layout_record r) = Inr (PublishRedundancyLayout k g r)"
proof -
  have "12 \<le> length (encode_layout_record r)" by (simp add: encode_layout_record_def codec_simps)
  then show ?thesis using assms
    by (simp add: publish_body_def length_encode_layout_key field_reads codec_simps record_round_trips)
qed

lemma decode_control_body_encode:
  assumes "control_mutation_wf to_str parse m" "control_body to_str m = (tag, body)"
  shows "decode_control_body parse tag body = Inr m"
  using assms
  by (cases m) (auto simp: decode_control_body_def record_round_trips id_body_def advance_body_def field_reads
      codec_simps nth_append publish_body_encode length_encode_layout_key)

lemma decode_control_mutation_encode:
  assumes "control_mutation_wf to_str parse m" "length (snd (control_body to_str m)) < 2 ^ 32"
  shows "decode_control_mutation parse (encode_control_mutation to_str m) = Inr m"
proof -
  obtain tag body where b: "control_body to_str m = (tag, body)" by (cases "control_body to_str m")
  show ?thesis
    using assms(2) decode_control_body_encode [OF assms(1) b]
    by (simp add: decode_control_mutation_def encode_control_mutation_def b field_reads codec_simps nth_append
        unat_len_u32 CONTROL_MUTATION_VERSION_def)
qed

section \<open>What decodes is well formed\<close>

lemma u32_bound [simp]: "unat (n :: u32) < 4294967296"
  using unsigned_less [of n, where 'a = nat] by simp

lemma length_u64s_at [simp]: "length (u64s_at base n input) = n"
  by (simp add: u64s_at_def)

lemma dedup_by_key_subseq: "set (dedup_by_key id xs) = set xs \<and> length (dedup_by_key id xs) \<le> length xs"
  by (induction xs rule: induct_list012) auto

lemma dedup_sorted: "sorted (xs :: u64 list) \<Longrightarrow> sorted_wrt (<) (dedup_by_key id xs)"
  by (induction xs rule: induct_list012) (force simp: order_less_le dedup_by_key_subseq)+

lemma node_list_wf_dedup: "length ns < 2 ^ 32 \<Longrightarrow> node_list_wf (dedup_by_key id (sort ns))"
  using dedup_by_key_subseq [of "sort ns"] dedup_sorted [of "sort ns"] by (simp add: node_list_wf_def)

lemma take_str_wf: "take_str input = Inr (s, rest) \<Longrightarrow> text_wf s"
  by (auto simp: take_str_def text_wf_def Let_def split: if_splits)

lemma decode_node_wf:
  assumes "decode_node parse input = Inr r" "\<And>s a. parse s = Some a \<Longrightarrow> endpoint_wf to_str parse a"
  shows "node_wf to_str parse r"
  using assms
  by (auto simp: decode_node_def node_wf_def parse_endpoint_def result_simps split: if_splits prod.splits
      dest: take_str_wf) (auto simp: max_def split: if_splits)

lemma sort_eq_Nil_iff: "sort xs = [] \<longleftrightarrow> xs = []"
  by (metis set_empty set_sort)

lemma decode_desired_wf: "decode_desired input = Inr d \<Longrightarrow> desired_wf d"
  unfolding decode_desired_def Let_def
  by (auto simp: desired_new_Inr_iff desired_wf_def node_list_wf_def strict_sorted_iff sort_eq_Nil_iff split: if_split_asm)

lemma decode_migration_wf: "decode_migration input = Inr p \<Longrightarrow> migration_wf p"
  by (auto simp: decode_migration_def Let_def result_simps migration_new_def migration_wf_def node_list_wf_dedup
      split: if_splits)

lemma decode_merge_wf: "decode_merge input = Inr p \<Longrightarrow> merge_wf p"
  by (auto simp: decode_merge_def Let_def result_simps merge_new_def merge_wf_def merge_tablets_def node_list_wf_dedup
      split: if_splits)

lemma decode_split_key_wf: "decode_split_key input at = Inr (Some k, n) \<Longrightarrow> length k < 2 ^ 32"
  by (auto simp: decode_split_key_def Let_def split: if_splits)

lemma decode_split_wf: "decode_split input = Inr p \<Longrightarrow> split_wf p"
  by (auto simp: decode_split_def Let_def result_simps split_new_def split_wf_def split_tablets_def node_list_wf_dedup
      split: if_splits option.splits dest: decode_split_key_wf [simplified])

lemma decode_layout_key_wf: "decode_layout_key input = Inr k \<Longrightarrow> layout_key_wf k"
  by (auto simp: decode_layout_key_def Let_def layout_key_wf_def LAYOUT_KEY_LEN_def split: if_splits)

lemma decode_layout_record_wf: "decode_layout_record input = Inr r \<Longrightarrow> layout_record_wf r"
  by (auto simp: decode_layout_record_def Let_def layout_record_wf_def split: if_splits)

lemmas records_wf = decode_node_wf decode_desired_wf decode_migration_wf decode_split_wf decode_merge_wf
  decode_layout_key_wf decode_layout_record_wf

lemma decode_control_mutation_wf:
  assumes "decode_control_mutation parse input = Inr m" "\<And>s a. parse s = Some a \<Longrightarrow> endpoint_wf to_str parse a"
  shows "control_mutation_wf to_str parse m"
  using assms(1) decode_node_wf [OF _ assms(2)]
  by (auto simp: decode_control_mutation_def Let_def decode_control_body_def id_body_def advance_body_def
      publish_body_def result_simps dest: records_wf split: if_splits)

end
