(* ===== verification/Control_Progress.thy ===== *)
theory Control_Progress
  imports Control_Safety
begin

text \<open>
  How topology plans move over a sequence of committed control mutations: a split publishes routing
  only from its proven-ready phase, every live split can be driven to completion (and its tablets
  are free afterwards), the phases of a migration can only change a bounded number of times, and
  the tablet allocator never hands out an identity that is in use.
\<close>

section \<open>Definitions\<close>

definition split_phase_of :: "control_state \<Rightarrow> plan_id \<Rightarrow> split_phase option" where
  "split_phase_of s i = map_option split_phase (bt_get (cs_splits s) i)"

definition split_published :: "control_state \<Rightarrow> plan_id \<Rightarrow> bool" where
  "split_published s i \<longleftrightarrow>
    (case split_phase_of s i of None \<Rightarrow> False | Some p \<Rightarrow> has_published_routing p)"

definition mig_phase_of :: "control_state \<Rightarrow> plan_id \<Rightarrow> migration_phase option" where
  "mig_phase_of s i = map_option mig_phase (bt_get (cs_migrations s) i)"

fun all_accepted :: "control_state \<Rightarrow> control_mutation list \<Rightarrow> bool" where
  "all_accepted s [] \<longleftrightarrow> True"
| "all_accepted s (m # ms) \<longleftrightarrow> control_accepts s m \<and> all_accepted (control_step s m) ms"

fun mig_phase_changes :: "control_state \<Rightarrow> plan_id \<Rightarrow> control_mutation list \<Rightarrow> nat" where
  "mig_phase_changes s i [] = 0"
| "mig_phase_changes s i (m # ms) =
    of_bool (mig_phase_of (control_step s m) i \<noteq> mig_phase_of s i) +
    mig_phase_changes (control_step s m) i ms"

fun split_rank :: "split_phase \<Rightarrow> nat" where
  "split_rank Split_Planned = 7"
| "split_rank Split_ChildrenProvisioning = 6"
| "split_rank Split_BaseSeeded = 5"
| "split_rank Split_Fenced = 4"
| "split_rank Split_ChildrenReady = 3"
| "split_rank Split_CutoverCommitted = 2"
| "split_rank Split_ParentRetiring = 1"
| "split_rank _ = 0"

fun mig_rank :: "migration_phase \<Rightarrow> nat" where
  "mig_rank Mig_Planned = 7"
| "mig_rank Mig_TargetStarting = 6"
| "mig_rank Mig_LearnerAdded = 5"
| "mig_rank Mig_Ready = 4"
| "mig_rank Mig_MembershipChanging = 3"
| "mig_rank Mig_Committed = 2"
| "mig_rank Mig_SourceRetiring = 1"
| "mig_rank _ = 0"

definition taken_tablets :: "control_state \<Rightarrow> tablet_id set" where
  "taken_tablets s =
    set (bt_keys (cs_placements s)) \<union>
    (\<Union>plan \<in> set (bt_values (cs_splits s)). {split_left plan, split_right plan}) \<union>
    (\<Union>plan \<in> set (bt_values (cs_merges s)). {merge_merged plan})"

section \<open>Routing is published only from the ready phase\<close>

lemma split_phase_change:
  assumes "topology_change s m s'"
  shows "split_phase_of s' i = split_phase_of s i \<or> split_phase_of s' i = None \<or>
    split_phase_of s' i = Some Split_Planned \<or>
    (\<exists>plan p. bt_get (cs_splits s) i = Some plan \<and> split_can_advance_to (split_phase plan) p \<and>
       split_phase_of s' i = Some p \<and> m = AdvanceSplit i p (split_generation plan))"
  using assms
  by cases
    (auto simp: split_phase_of_def same_topology_def store_migration_def bump_generation_def
      store_split_def store_merge_def split_advance_def)

lemma cutover_only_from_ready:
  assumes "topology_change s m s'" "\<not> split_published s i" "split_published s' i"
  shows "split_phase_of s i = Some Split_ChildrenReady \<and>
    (\<exists>generation. m = AdvanceSplit i Split_CutoverCommitted generation)"
  using split_phase_change [OF assms(1), of i] assms(2,3)
  by (auto simp: split_published_def split_phase_of_def has_published_routing_def
      split_can_advance_to_def split: option.splits split_phase.splits)

lemma control_steps_snoc [simp]: "control_steps s (ms @ [m]) = control_step (control_steps s ms) m"
  by (simp add: control_steps_def)

lemma control_steps_Nil [simp]: "control_steps s [] = s"
  by (simp add: control_steps_def)

lemma control_steps_Cons [simp]: "control_steps s (m # ms) = control_steps (control_step s m) ms"
  by (simp add: control_steps_def)

text \<open>
  C26: Whatever sequence of mutations the control group commits, a split that had not published its
  routing and has published it afterwards went through the phase in which its children are proven
  ready, and left that phase by the cutover mutation.
\<close>

theorem split_publishes_only_when_ready:
  assumes "\<not> split_published s i" "split_published (control_steps s ms) i"
  shows "\<exists>n generation. n < length ms \<and>
    split_phase_of (control_steps s (take n ms)) i = Some Split_ChildrenReady \<and>
    ms ! n = AdvanceSplit i Split_CutoverCommitted generation"
  using assms(2)
proof (induction ms rule: rev_induct)
  case Nil
  then show ?case using assms(1) by simp
next
  case (snoc m ms)
  show ?case
  proof (cases "split_published (control_steps s ms) i")
    case True
    then obtain n g where n: "n < length ms"
        "split_phase_of (control_steps s (take n ms)) i = Some Split_ChildrenReady"
        "ms ! n = AdvanceSplit i Split_CutoverCommitted g"
      using snoc.IH by blast
    then show ?thesis by (intro exI [of _ n] exI [of _ g]) (simp add: nth_append)
  next
    case False
    then show ?thesis
      using cutover_only_from_ready [OF control_step_change, of "control_steps s ms" i m] snoc.prems
      by (intro exI [of _ "length ms"]) simp
  qed
qed

definition sample_cutover :: "control_mutation list" where
  "sample_cutover = map (\<lambda>p. AdvanceSplit 1 p 2)
    [Split_ChildrenProvisioning, Split_BaseSeeded, Split_Fenced, Split_ChildrenReady,
     Split_CutoverCommitted]"

theorem split_publishes_only_when_ready_witness:
  "\<not> split_published sample_image 1 \<and> split_published (control_steps sample_image sample_cutover) 1 \<and>
   (\<exists>n generation. n < 5 \<and>
      split_phase_of (control_steps sample_image (take n sample_cutover)) 1 = Some Split_ChildrenReady \<and>
      sample_cutover ! n = AdvanceSplit 1 Split_CutoverCommitted generation)"
proof -
  have "\<not> split_published sample_image 1"
    by (simp add: split_published_def split_phase_of_def sample_image_splits bt_get_def sample_split_def
        has_published_routing_def)
  moreover have "split_published (control_steps sample_image sample_cutover) 1"
    by (simp add: sample_cutover_def control_step_def apply_advance_split_def sample_image_splits
        bt_get_def sample_split_def split_can_advance_to_def split_advance_def accept_def
        split_published_def split_phase_of_def has_published_routing_def)
  moreover have "length sample_cutover = 5" by (simp add: sample_cutover_def)
  ultimately show ?thesis
    using split_publishes_only_when_ready [of sample_image 1 sample_cutover] by simp
qed

section \<open>Every live split can complete\<close>

lemma advance_split_accepted:
  assumes "bt_get (cs_splits s) i = Some plan" "split_can_advance_to (split_phase plan) p"
  shows "control_accepts s (AdvanceSplit i p (split_generation plan))"
    and "control_step s (AdvanceSplit i p (split_generation plan)) =
      s\<lparr>cs_splits := bt_insert i (split_advance plan p) (cs_splits s)\<rparr>"
  using assms
  by (simp_all add: control_accepts_def control_step_def apply_advance_split_def accept_def)

lemma split_progress:
  assumes "\<not> split_is_terminal p"
  obtains q where "split_can_advance_to p q" "Suc (split_rank q) = split_rank p"
    "split_is_terminal q \<longrightarrow> q = Split_Completed"
  using assms
  by (cases p)
    (auto simp: split_is_terminal_def split_can_advance_to_def
      intro: that [of Split_ChildrenProvisioning] that [of Split_BaseSeeded] that [of Split_Fenced]
        that [of Split_ChildrenReady] that [of Split_CutoverCommitted] that [of Split_ParentRetiring]
        that [of Split_Completed])

lemma completed_split_frees:
  assumes inv: "plan_inv s" and plan: "bt_get (cs_splits s) i = Some plan"
    and live: "\<not> split_is_terminal (split_phase plan)" "split_is_terminal p"
    and t: "t \<in> set (split_tablets plan)"
  shows "\<not> has_live_topology (s\<lparr>cs_splits := bt_insert i (split_advance plan p) (cs_splits s)\<rparr>) t"
    (is "\<not> has_live_topology ?s t")
proof -
  have "bt_wf (cs_splits s)" "live_count s t \<le> 1" using inv by (simp_all add: plan_inv_def)
  then have "live_count ?s t = 0"
    using live_count_split [of s ?s i "split_advance plan p" t] plan live t
    by (simp add: split_advance_def)
  then show ?thesis by (simp add: has_live_topology_iff)
qed

lemma drive_split:
  assumes "control_run s" "bt_get (cs_splits s) i = Some plan" "\<not> split_is_terminal (split_phase plan)"
  shows "\<exists>ms. length ms = split_rank (split_phase plan) \<and> all_accepted s ms \<and>
    bt_get (cs_splits (control_steps s ms)) i = Some (split_advance plan Split_Completed) \<and>
    (\<forall>t \<in> set (split_tablets plan). \<not> has_live_topology (control_steps s ms) t)"
  using assms
proof (induction "split_rank (split_phase plan)" arbitrary: s plan)
  case 0
  then show ?case by (cases "split_phase plan") (auto simp: split_is_terminal_def)
next
  case (Suc n)
  obtain q where q: "split_can_advance_to (split_phase plan) q"
      "Suc (split_rank q) = split_rank (split_phase plan)" "split_is_terminal q \<longrightarrow> q = Split_Completed"
    using split_progress [OF Suc.prems(3)] by blast
  define m where "m = AdvanceSplit i q (split_generation plan)"
  let ?plan = "split_advance plan q"
  have acc: "control_accepts s m" and step: "control_step s m = s\<lparr>cs_splits := bt_insert i ?plan (cs_splits s)\<rparr>"
    unfolding m_def using advance_split_accepted [OF Suc.prems(2) q(1)] by auto
  have get: "bt_get (cs_splits (control_step s m)) i = Some ?plan" by (simp add: step)
  show ?case
  proof (cases "split_is_terminal q")
    case True
    then have "n = 0" "q = Split_Completed" using q Suc.hyps(2) by auto
    then show ?thesis
      using acc get completed_split_frees [OF control_run_plan_inv [OF Suc.prems(1)] Suc.prems(2,3) True]
        Suc.hyps(2) q(2)
      by (intro exI [of _ "[m]"]) (simp add: step)
  next
    case False
    have "\<exists>ms. length ms = split_rank (split_phase ?plan) \<and> all_accepted (control_step s m) ms \<and>
      bt_get (cs_splits (control_steps (control_step s m) ms)) i = Some (split_advance ?plan Split_Completed) \<and>
      (\<forall>t \<in> set (split_tablets ?plan). \<not> has_live_topology (control_steps (control_step s m) ms) t)"
      using Suc.hyps(2) q(2) False Suc.prems(1) get
      by (intro Suc.hyps(1)) (simp_all add: split_advance_def control_run.run_step)
    then obtain ms where "length ms = split_rank q" "all_accepted (control_step s m) ms"
      "bt_get (cs_splits (control_steps (control_step s m) ms)) i = Some (split_advance plan Split_Completed)"
      "\<forall>t \<in> set (split_tablets plan). \<not> has_live_topology (control_steps (control_step s m) ms) t"
      by (auto simp: split_advance_def split_tablets_def)
    then show ?thesis using acc q(2) by (intro exI [of _ "m # ms"]) simp
  qed
qed

text \<open>
  C11: No split gets stuck.  From every reachable image, a live split can be driven to completion by
  a sequence of at most seven mutations, each of which is accepted, and afterwards no live plan
  touches the parent or the children.
\<close>

theorem live_split_can_complete:
  assumes "control_run s" "bt_get (cs_splits s) i = Some plan" "\<not> split_is_terminal (split_phase plan)"
  shows "\<exists>ms. length ms \<le> 7 \<and> all_accepted s ms \<and>
    split_phase_of (control_steps s ms) i = Some Split_Completed \<and>
    (\<forall>t \<in> {split_parent plan, split_left plan, split_right plan}.
       \<not> has_live_topology (control_steps s ms) t)"
proof -
  obtain ms where ms: "length ms = split_rank (split_phase plan)" "all_accepted s ms"
      "bt_get (cs_splits (control_steps s ms)) i = Some (split_advance plan Split_Completed)"
      "\<forall>t \<in> set (split_tablets plan). \<not> has_live_topology (control_steps s ms) t"
    using drive_split [OF assms] by blast
  have "length ms \<le> 7" unfolding ms(1) by (cases "split_phase plan") simp_all
  then show ?thesis
    using ms by (intro exI [of _ ms]) (simp add: split_phase_of_def split_advance_def split_tablets_def)
qed

theorem live_split_can_complete_witness:
  "\<exists>ms. length ms \<le> 7 \<and> all_accepted sample_image ms \<and>
    split_phase_of (control_steps sample_image ms) 1 = Some Split_Completed \<and>
    \<not> has_live_topology (control_steps sample_image ms) 8"
  using live_split_can_complete [OF sample_image_run, of 1 sample_split]
  by (auto simp: sample_image_splits bt_get_def sample_split_def split_is_terminal_def)

section \<open>A migration changes phase a bounded number of times\<close>

lemma mig_rank_advance: "mig_can_advance_to p q \<Longrightarrow> p \<noteq> q \<Longrightarrow> mig_rank q < mig_rank p"
  by (cases p) (auto simp: mig_can_advance_to_def)

lemma mig_rank_bound: "mig_rank p \<le> 7"
  by (cases p) simp_all

lemma mig_phase_change:
  assumes "topology_change s m s'" "bt_get (cs_migrations s) i = Some plan" "m \<noteq> RemoveMigration i"
  shows "\<exists>plan'. bt_get (cs_migrations s') i = Some plan' \<and>
    mig_can_advance_to (mig_phase plan) (mig_phase plan')"
  using assms
  by cases
    (auto simp: same_topology_def store_migration_def bump_generation_def store_split_def
      store_merge_def mig_advance_def has_plan_def mig_life.advances_refl)

lemma mig_changes_bounded:
  assumes "bt_get (cs_migrations s) i = Some plan" "RemoveMigration i \<notin> set ms"
  shows "mig_phase_changes s i ms \<le> mig_rank (mig_phase plan)"
  using assms
proof (induction ms arbitrary: s plan)
  case (Cons m ms)
  obtain plan' where plan': "bt_get (cs_migrations (control_step s m)) i = Some plan'"
      "mig_can_advance_to (mig_phase plan) (mig_phase plan')"
    using mig_phase_change [OF control_step_change Cons.prems(1), of m] Cons.prems(2) by auto
  have "mig_phase_changes (control_step s m) i ms \<le> mig_rank (mig_phase plan')"
    using Cons.IH [OF plan'(1)] Cons.prems(2) by simp
  moreover have "mig_phase_of (control_step s m) i = Some (mig_phase plan')"
      "mig_phase_of s i = Some (mig_phase plan)"
    using plan'(1) Cons.prems(1) by (simp_all add: mig_phase_of_def)
  ultimately show ?case
    using mig_rank_advance [OF plan'(2)] by (cases "mig_phase plan = mig_phase plan'") auto
qed simp

text \<open>
  C27: Over any sequence of committed mutations that does not remove it, a migration plan stays
  registered and changes phase at most seven times: its lifecycle has no cycle.
\<close>

theorem migration_phase_changes_bounded:
  assumes "bt_get (cs_migrations s) i = Some plan" "RemoveMigration i \<notin> set ms"
  shows "mig_phase_changes s i ms \<le> 7"
  using mig_changes_bounded [OF assms] mig_rank_bound [of "mig_phase plan"] by simp

definition sample_migrating :: control_state where
  "sample_migrating = control_empty\<lparr>cs_migrations :=
    [(4, \<lparr>mig_id = 4, mig_tablet = 7, mig_generation = 2, mig_from = 1, mig_to = 2,
      mig_desired_voters = [2, 3], mig_phase = Mig_Planned\<rparr>)]\<rparr>"

definition sample_moves :: "control_mutation list" where
  "sample_moves = [AdvanceMigration 4 Mig_TargetStarting 2, AdvanceMigration 4 Mig_TargetStarting 2,
    AdvanceMigration 4 Mig_Planned 2, AdvanceMigration 4 Mig_Failed 2]"

theorem migration_phase_changes_bounded_witness:
  "mig_phase_changes sample_migrating 4 sample_moves = 2 \<and>
   mig_phase_changes sample_migrating 4 sample_moves \<le> 7"
proof -
  have "mig_phase_changes sample_migrating 4 sample_moves \<le> 7"
    by (rule migration_phase_changes_bounded) (simp_all add: sample_migrating_def bt_get_def sample_moves_def)
  moreover have "mig_phase_changes sample_migrating 4 sample_moves = 2"
    by (simp add: sample_migrating_def sample_moves_def mig_phase_of_def control_step_def
        apply_advance_migration_def bt_get_def mig_can_advance_to_def mig_advance_def accept_def refuse_def)
  ultimately show ?thesis by simp
qed

section \<open>The tablet allocator\<close>

definition below_next :: "control_state \<Rightarrow> tablet_id \<Rightarrow> bool" where
  "below_next s t \<longleftrightarrow> t < cs_next_tablet_id s \<or> cs_next_tablet_id s = - 1"

definition alloc_inv :: "control_state \<Rightarrow> bool" where
  "alloc_inv s \<longleftrightarrow> bt_wf (cs_splits s) \<and> bt_wf (cs_merges s) \<and> 1 \<le> cs_next_tablet_id s \<and>
    (\<forall>t \<in> taken_tablets s. below_next s t)"

lemma less_saturating_Suc: "t < saturating_add t 1 \<or> saturating_add t 1 = - 1" for t :: u64
  by (auto simp: saturating_add_def word_less_nat_alt unat_word_ariths)

lemma below_next_mono:
  "below_next s t \<Longrightarrow> cs_next_tablet_id s \<le> cs_next_tablet_id s' \<Longrightarrow> below_next s' t"
  by (auto simp: below_next_def intro: order_antisym word_n1_ge)

lemma below_next_allocated:
  "saturating_add t 1 \<le> cs_next_tablet_id s \<Longrightarrow> below_next s t"
  using less_saturating_Suc [of t] by (auto simp: below_next_def intro: order_antisym word_n1_ge)

lemma taken_iff:
  assumes "bt_wf (cs_splits s)" "bt_wf (cs_merges s)"
  shows "t \<in> taken_tablets s \<longleftrightarrow> bt_get (cs_placements s) t \<noteq> None \<or>
    (\<exists>i plan. bt_get (cs_splits s) i = Some plan \<and> (t = split_left plan \<or> t = split_right plan)) \<or>
    (\<exists>i plan. bt_get (cs_merges s) i = Some plan \<and> t = merge_merged plan)"
  by (simp add: taken_tablets_def bt_keys_iff bt_values_iff assms Bex_def) blast

lemma alloc_inv_grow:
  assumes inv: "alloc_inv s" and wf: "bt_wf (cs_splits s')" "bt_wf (cs_merges s')"
    and up: "cs_next_tablet_id s \<le> cs_next_tablet_id s'"
    and taken: "\<And>t. t \<in> taken_tablets s' \<Longrightarrow> t \<in> taken_tablets s \<or> saturating_add t 1 \<le> cs_next_tablet_id s'"
  shows "alloc_inv s'"
proof -
  have "below_next s' t" if "t \<in> taken_tablets s'" for t
    using taken [OF that] inv up below_next_mono below_next_allocated by (auto simp: alloc_inv_def)
  then show ?thesis using inv wf up by (auto simp: alloc_inv_def elim: order_trans)
qed

lemma alloc_inv_change:
  assumes change: "topology_change s m s'" and inv: "alloc_inv s"
  shows "alloc_inv s'"
proof (rule alloc_inv_grow [OF inv])
  have wf: "bt_wf (cs_splits s)" "bt_wf (cs_merges s)" using inv by (simp_all add: alloc_inv_def)
  show wf': "bt_wf (cs_splits s')" "bt_wf (cs_merges s')"
    using change wf
    by (cases; simp add: same_topology_def store_migration_def bump_generation_def store_split_def
        store_merge_def)+
  show "cs_next_tablet_id s \<le> cs_next_tablet_id s'"
    using change
    by cases (auto simp: same_topology_def store_migration_def bump_generation_def store_split_def
        store_merge_def place_def le_max_iff_disj)
  show "t \<in> taken_tablets s \<or> saturating_add t 1 \<le> cs_next_tablet_id s'"
    if "t \<in> taken_tablets s'" for t
    using change that unfolding taken_iff [OF wf] taken_iff [OF wf']
    by cases
      (auto simp: same_topology_def store_migration_def bump_generation_def store_split_def
        store_merge_def place_def get_place_child split_advance_def merge_advance_def le_max_iff_disj
        split: if_splits sum.splits)
qed

lemma bootstrap_placements:
  "bt_get (foldl (\<lambda>m d. bt_insert (drs_tablet d) d m) m placements) t \<noteq> None \<longleftrightarrow>
   bt_get m t \<noteq> None \<or> t \<in> drs_tablet ` set placements"
  by (induction placements arbitrary: m) auto

lemma foldl_max_ge:
  "h \<le> foldl (\<lambda>h d. max h (f d)) h ds" "d \<in> set ds \<Longrightarrow> f d \<le> foldl (\<lambda>h d. max h (f d)) h ds"
  for h :: "'a::linorder"
proof (induction ds arbitrary: h)
  case (Cons e ds)
  { case 1
    show ?case using Cons(1) [of "max h (f e)"] by simp
  next
    case 2
    then show ?case using Cons(1) [of "max h (f e)"] Cons(2) [of "max h (f e)"] by auto
  }
qed simp_all

lemma saturating_Suc_mono: "a \<le> b \<Longrightarrow> saturating_add a 1 \<le> saturating_add b 1" for a b :: u64
  by (auto simp: saturating_add_def word_le_nat_alt unat_word_ariths unsigned_minus_1_eq_mask
      mask_eq_exp_minus_1)

lemma alloc_inv_bootstrap: "alloc_inv (control_bootstrap nodes placements)"
proof -
  let ?s = "control_bootstrap nodes placements"
  have "below_next ?s t" if "t \<in> taken_tablets ?s" for t
  proof -
    have "t \<in> drs_tablet ` set placements"
      using that bootstrap_placements [of "[]" placements t]
      by (auto simp: taken_iff control_bootstrap_def bt_get_def [of "[]"])
    then have "t \<le> foldl (\<lambda>h d. max h (drs_tablet d)) 0 placements"
      using foldl_max_ge(2) by force
    then show ?thesis
      by (intro below_next_allocated)
        (simp add: control_bootstrap_def le_max_iff_disj saturating_Suc_mono)
  qed
  then show ?thesis by (simp add: alloc_inv_def control_bootstrap_def)
qed

lemma control_run_alloc_inv: "control_run s \<Longrightarrow> alloc_inv s"
proof (induction rule: control_run.induct)
  case run_empty
  then show ?case by (simp add: alloc_inv_def taken_tablets_def bt_keys_def bt_values_def)
qed (simp_all add: alloc_inv_bootstrap alloc_inv_change [OF control_step_change])

lemma foldl_max_less: "foldl max h ks < (b :: 'a::linorder) \<longleftrightarrow> h < b \<and> (\<forall>k \<in> set ks. k < b)"
  by (induction ks arbitrary: h) auto

lemma room_not_max:
  fixes n count :: u64
  assumes "unat n + unat (max count 1) < 2 ^ 64"
  shows "unat n < 2 ^ 64 - 1" "n \<noteq> - 1"
proof -
  have "1 \<le> max count 1" by simp
  then have "1 \<le> unat (max count 1)" by (simp add: word_le_nat_alt del: max.cobounded2)
  then show lt: "unat n < 2 ^ 64 - 1" using assms by simp
  then show "n \<noteq> - 1" by (auto simp: unsigned_minus_1_eq_mask mask_eq_exp_minus_1)
qed

lemma fresh_tablet_ids_eq:
  assumes inv: "alloc_inv s" and room: "unat (cs_next_tablet_id s) + unat (max count 1) < 2 ^ 64"
  shows "fresh_tablet_ids s count =
    map (\<lambda>offset. cs_next_tablet_id s + word_of_nat offset) [0 ..< unat (max count 1)]"
proof -
  let ?n = "cs_next_tablet_id s"
  note lt = room_not_max [OF room]
  have n: "1 \<le> ?n" "0 < ?n" using inv by (auto simp: alloc_inv_def word_le_nat_alt word_less_nat_alt)
  have "\<forall>t \<in> set (bt_keys (cs_placements s)). t < ?n"
    using inv lt(2) by (auto simp: alloc_inv_def below_next_def taken_tablets_def)
  then have "foldl max 0 (bt_keys (cs_placements s)) < ?n" using n(2) by (simp add: foldl_max_less)
  then have "saturating_add (foldl max 0 (bt_keys (cs_placements s))) 1 \<le> ?n"
    using lt(1) by (auto simp: saturating_add_def word_less_nat_alt word_le_nat_alt unat_word_ariths)
  then have first: "max (max ?n (saturating_add (foldl max 0 (bt_keys (cs_placements s))) 1)) 1 = ?n"
    using n by simp
  have "saturating_add ?n (word_of_nat k) = ?n + word_of_nat k" if "k < unat (max count 1)" for k
    using that room
    by (simp add: saturating_add_def unsigned_of_nat take_bit_nat_eq_self)
  then show ?thesis by (simp add: fresh_tablet_ids_def first Let_def)
qed

text \<open>
  C28: The identities proposed for the children of a split or the target of a merge are new.  In
  every reachable image, as long as the identity space is not exhausted, the requested number of
  pairwise different identities is returned, and none of them is placed or is the child or target
  of any plan, live or finished.
\<close>

theorem fresh_tablet_ids_are_fresh:
  assumes "control_run s" "unat (cs_next_tablet_id s) + unat (max count 1) < 2 ^ 64"
  shows "length (fresh_tablet_ids s count) = unat (max count 1) \<and> distinct (fresh_tablet_ids s count) \<and>
    set (fresh_tablet_ids s count) \<inter> taken_tablets s = {}"
proof -
  let ?n = "cs_next_tablet_id s"
  note eq = fresh_tablet_ids_eq [OF control_run_alloc_inv [OF assms(1)] assms(2)]
  have unat: "unat (?n + word_of_nat k) = unat ?n + k" if "k < unat (max count 1)" for k
    using that assms(2) by (simp add: unat_word_ariths unsigned_of_nat take_bit_nat_eq_self)
  have "inj_on (\<lambda>k. ?n + word_of_nat k) {0 ..< unat (max count 1)}"
    by (rule inj_onI) (metis add_left_cancel atLeastLessThan_iff unat)
  then have "distinct (fresh_tablet_ids s count)" by (simp add: eq distinct_map)
  moreover have "t < ?n" if "t \<in> taken_tablets s" for t
    using that control_run_alloc_inv [OF assms(1)] room_not_max(2) [OF assms(2)]
    by (auto simp: alloc_inv_def below_next_def)
  then have "t \<notin> taken_tablets s" if "t \<in> set (fresh_tablet_ids s count)" for t
    using that unat by (fastforce simp: eq word_less_nat_alt)
  ultimately show ?thesis by (auto simp: eq)
qed

theorem fresh_tablet_ids_are_fresh_witness:
  "fresh_tablet_ids sample_image 2 = [10, 11] \<and> distinct (fresh_tablet_ids sample_image 2) \<and>
   set (fresh_tablet_ids sample_image 2) \<inter> taken_tablets sample_image = {} \<and>
   {7, 8, 9} \<subseteq> taken_tablets sample_image"
proof -
  have n: "cs_next_tablet_id sample_image = 10"
    by (simp add: sample_image_eq store_split_def sample_genesis_eq sample_split_def saturating_add_def)
  have p: "bt_keys (cs_placements sample_image) = [7, 8, 9]"
    by (simp add: sample_image_eq store_split_def sample_genesis_eq sample_split_def place_child_def
        desired_new_def bt_keys_def)
  have "fresh_tablet_ids sample_image 2 = [10, 11]"
    by (simp add: fresh_tablet_ids_def n p saturating_add_def upt_rec)
  then show ?thesis
    using fresh_tablet_ids_are_fresh [OF sample_image_run, of 2] by (simp add: n p taken_tablets_def)
qed

end
