(* ===== verification/Control_Snapshot.thy ===== *)
theory Control_Snapshot
  imports Control_Codec Control_Progress
begin

text \<open>
  The snapshot of the control image (\<open>encode_snapshot\<close> and \<open>decode_snapshot\<close> in
  \<open>crates/kivi-control/src/state.rs\<close>): every registry as a counted sequence of length-prefixed records.

  The image invariant \<open>image_wf\<close> says that every registry is indexed by the identity of its records and
  holds only well-formed records.  It holds of every bootstrap image, every mutation that came out of the
  mutation decoder preserves it, and an image that satisfies it is restored from its snapshot exactly.
  Whatever bytes a snapshot decodes from, the result satisfies the invariant.
\<close>

section \<open>Encoding\<close>

definition push_len_blob :: "bytes \<Rightarrow> bytes" where
  "push_len_blob blob = encode_u32 (len_u32 (length blob)) @ blob"

definition push_map :: "bytes list \<Rightarrow> bytes" where
  "push_map blobs = encode_u32 (len_u32 (length blobs)) @ concat (map push_len_blob blobs)"

definition push_layout :: "layout_key \<times> layout_record \<Rightarrow> bytes" where
  "push_layout e = push_len_blob (encode_layout_key (fst e)) @ push_len_blob (encode_layout_record (snd e))"

definition encode_snapshot :: "(socket_addr \<Rightarrow> bytes) \<Rightarrow> control_state \<Rightarrow> bytes" where
  "encode_snapshot to_str s =
    encode_u64 (cs_placement_version s) @ encode_u64 (cs_generation s) @ encode_u64 (cs_next_plan_id s) @
    encode_u64 (cs_next_tablet_id s) @
    push_map (map (encode_node to_str) (bt_values (cs_nodes s))) @
    push_map (map encode_desired (bt_values (cs_placements s))) @
    push_map (map encode_migration (bt_values (cs_migrations s))) @
    push_map (map encode_split (bt_values (cs_splits s))) @
    push_map (map encode_merge (bt_values (cs_merges s))) @
    push_map (map encode_namespace_record (bt_values (cs_namespaces s))) @
    push_map (map encode_index_record (bt_values (cs_indexes s))) @
    encode_u32 (len_u32 (length (cs_redundancy s))) @ concat (map push_layout (cs_redundancy s))"

section \<open>Decoding\<close>

datatype control_snapshot_error =
    CSE_Truncated
  | CSE_TrailingBytes
  | CSE_DuplicatePlan u64
  | CSE_BadNode node_error
  | CSE_BadPlacement placement_error
  | CSE_BadMigration migration_error
  | CSE_BadSplit split_error
  | CSE_BadMerge merge_error
  | CSE_BadCatalog catalog_error
  | CSE_BadRedundancy layout_error

definition take_len_blob :: "bytes \<Rightarrow> control_snapshot_error + (bytes \<times> bytes)" where
  "take_len_blob input =
    (if length input < 4 then Inl CSE_Truncated
     else let len = unat (le_at 0 4 input :: u32); input = drop 4 input in
       if length input < len then Inl CSE_Truncated else Inr (take len input, drop len input))"

fun take_entries :: "nat \<Rightarrow> bytes \<Rightarrow> control_snapshot_error + (bytes list \<times> bytes)" where
  "take_entries 0 input = Inr ([], input)"
| "take_entries (Suc n) input =
    and_then (take_len_blob input) (\<lambda>(blob, input).
      map_ok (\<lambda>(blobs, rest). (blob # blobs, rest)) (take_entries n input))"

definition take_map :: "bytes \<Rightarrow> control_snapshot_error + (bytes list \<times> bytes)" where
  "take_map input =
    (if length input < 4 then Inl CSE_Truncated
     else take_entries (unat (le_at 0 4 input :: u32)) (drop 4 input))"

text \<open>Each record of a section is decoded and inserted under its own identity.\<close>

fun decode_registry ::
  "(bytes \<Rightarrow> 'e + 'v) \<Rightarrow> ('v \<Rightarrow> u64) \<Rightarrow> (u64, 'v) bmap \<Rightarrow> bytes list \<Rightarrow> 'e + (u64, 'v) bmap" where
  "decode_registry dec key acc [] = Inr acc"
| "decode_registry dec key acc (blob # blobs) =
    and_then (dec blob) (\<lambda>v. decode_registry dec key (bt_insert (key v) v acc) blobs)"

definition take_registry ::
  "('e \<Rightarrow> control_snapshot_error) \<Rightarrow> (bytes \<Rightarrow> 'e + 'v) \<Rightarrow> ('v \<Rightarrow> u64) \<Rightarrow> bytes \<Rightarrow>
   control_snapshot_error + ((u64, 'v) bmap \<times> bytes)" where
  "take_registry bad dec key input =
    and_then (take_map input) (\<lambda>(blobs, rest).
      map_ok (\<lambda>m. (m, rest)) (map_err bad (decode_registry dec key [] blobs)))"

fun first_duplicate :: "u64 list \<Rightarrow> u64 list \<Rightarrow> u64 option" where
  "first_duplicate seen [] = None"
| "first_duplicate seen (i # is) =
    (if i \<in> set seen then Some i else first_duplicate (bts_insert i seen) is)"

definition check_plan_ids ::
  "(u64, migration_plan) bmap \<Rightarrow> (u64, split_plan) bmap \<Rightarrow> (u64, merge_plan) bmap \<Rightarrow>
   control_snapshot_error + unit" where
  "check_plan_ids migrations splits merges =
    (case first_duplicate [] (bt_keys migrations @ bt_keys splits @ bt_keys merges) of
       Some plan \<Rightarrow> Inl (CSE_DuplicatePlan plan)
     | None \<Rightarrow> Inr ())"

definition MAX_REDUNDANCY_SNAPSHOT_ENTRIES :: nat where
  "MAX_REDUNDANCY_SNAPSHOT_ENTRIES = 1000000"

fun decode_layouts ::
  "nat \<Rightarrow> (layout_key, layout_record) bmap \<Rightarrow> bytes \<Rightarrow>
   control_snapshot_error + ((layout_key, layout_record) bmap \<times> bytes)" where
  "decode_layouts 0 acc input = Inr (acc, input)"
| "decode_layouts (Suc n) acc input =
    and_then (take_len_blob input) (\<lambda>(key_bytes, input).
    and_then (map_err CSE_BadRedundancy (decode_layout_key key_bytes)) (\<lambda>key.
    and_then (take_len_blob input) (\<lambda>(record_bytes, input).
    and_then (map_err CSE_BadRedundancy (decode_layout_record record_bytes)) (\<lambda>record.
      decode_layouts n (bt_insert key record acc) input))))"

definition take_layouts ::
  "bytes \<Rightarrow> control_snapshot_error + ((layout_key, layout_record) bmap \<times> bytes)" where
  "take_layouts input =
    (if length input < 4 then Inl CSE_Truncated
     else let count = unat (le_at 0 4 input :: u32) in
       if MAX_REDUNDANCY_SNAPSHOT_ENTRIES < count then Inl CSE_Truncated
       else decode_layouts count [] (drop 4 input))"

definition decode_snapshot ::
  "(bytes \<Rightarrow> socket_addr option) \<Rightarrow> bytes \<Rightarrow> control_snapshot_error + control_state" where
  "decode_snapshot parse input =
    (if length input < 32 then Inl CSE_Truncated
     else
       and_then (take_registry CSE_BadNode (decode_node parse) nr_node (drop 32 input)) (\<lambda>(nodes, rest).
       and_then (take_registry CSE_BadPlacement decode_desired drs_tablet rest) (\<lambda>(placements, rest).
       and_then (take_registry CSE_BadMigration decode_migration mig_id rest) (\<lambda>(migrations, rest).
       and_then (take_registry CSE_BadSplit decode_split split_id rest) (\<lambda>(splits, rest).
       and_then (take_registry CSE_BadMerge decode_merge merge_id rest) (\<lambda>(merges, rest).
       and_then (check_plan_ids migrations splits merges) (\<lambda>_.
       and_then (take_registry CSE_BadCatalog decode_namespace_record nsr_id rest) (\<lambda>(namespaces, rest).
       and_then (take_registry CSE_BadCatalog decode_index_record ixr_id rest) (\<lambda>(indexes, rest).
       and_then (take_layouts rest) (\<lambda>(redundancy, rest).
         if rest \<noteq> [] then Inl CSE_TrailingBytes
         else Inr \<lparr>cs_nodes = nodes, cs_placements = placements, cs_migrations = migrations,
           cs_splits = splits, cs_merges = merges, cs_namespaces = namespaces, cs_indexes = indexes,
           cs_redundancy = redundancy, cs_placement_version = le_at 0 8 input, cs_generation = le_at 8 8 input,
           cs_next_plan_id = max (le_at 16 8 input) 1, cs_next_tablet_id = max (le_at 24 8 input) 1\<rparr>))))))))))"

section \<open>The image invariant\<close>

definition registry_wf :: "('v \<Rightarrow> u64) \<Rightarrow> ('v \<Rightarrow> bool) \<Rightarrow> (u64, 'v) bmap \<Rightarrow> bool" where
  "registry_wf key ok m \<longleftrightarrow> bt_wf m \<and> list_all (\<lambda>(k, v). k = key v \<and> ok v) m"

definition image_wf :: "(socket_addr \<Rightarrow> bytes) \<Rightarrow> (bytes \<Rightarrow> socket_addr option) \<Rightarrow> control_state \<Rightarrow> bool" where
  "image_wf to_str parse s \<longleftrightarrow>
    registry_wf nr_node (node_wf to_str parse) (cs_nodes s) \<and>
    registry_wf drs_tablet desired_wf (cs_placements s) \<and>
    registry_wf mig_id migration_wf (cs_migrations s) \<and>
    registry_wf split_id split_wf (cs_splits s) \<and>
    registry_wf merge_id merge_wf (cs_merges s) \<and>
    registry_wf nsr_id (\<lambda>_. True) (cs_namespaces s) \<and>
    registry_wf ixr_id (\<lambda>_. True) (cs_indexes s) \<and>
    bt_wf (cs_redundancy s) \<and>
    list_all (\<lambda>(k, r). layout_key_wf k \<and> layout_record_wf r) (cs_redundancy s) \<and>
    cs_next_plan_id s \<noteq> 0 \<and> cs_next_tablet_id s \<noteq> 0"

text \<open>Counts and record lengths that fit their 32-bit fields, and the bound of the redundancy section.\<close>

definition blobs_fit :: "bytes list \<Rightarrow> bool" where
  "blobs_fit blobs \<longleftrightarrow> length blobs < 2 ^ 32 \<and> list_all (\<lambda>b. length b < 2 ^ 32) blobs"

definition registries_fit :: "(socket_addr \<Rightarrow> bytes) \<Rightarrow> control_state \<Rightarrow> bool" where
  "registries_fit to_str s \<longleftrightarrow>
    blobs_fit (map (encode_node to_str) (bt_values (cs_nodes s))) \<and>
    blobs_fit (map encode_desired (bt_values (cs_placements s))) \<and>
    blobs_fit (map encode_migration (bt_values (cs_migrations s))) \<and>
    blobs_fit (map encode_split (bt_values (cs_splits s))) \<and>
    blobs_fit (map encode_merge (bt_values (cs_merges s))) \<and>
    length (cs_namespaces s) < 2 ^ 32 \<and> length (cs_indexes s) < 2 ^ 32"

definition image_fits :: "(socket_addr \<Rightarrow> bytes) \<Rightarrow> control_state \<Rightarrow> bool" where
  "image_fits to_str s \<longleftrightarrow>
    registries_fit to_str s \<and> length (cs_redundancy s) \<le> MAX_REDUNDANCY_SNAPSHOT_ENTRIES"

section \<open>Reading sections back\<close>

lemma take_len_blob_push: "length blob < 2 ^ 32 \<Longrightarrow> take_len_blob (push_len_blob blob @ rest) = Inr (blob, rest)"
  by (simp add: take_len_blob_def push_len_blob_def field_reads codec_simps unat_len_u32)

lemma take_entries_push:
  "list_all (\<lambda>b. length b < 2 ^ 32) blobs \<Longrightarrow>
   take_entries (length blobs) (concat (map push_len_blob blobs) @ rest) = Inr (blobs, rest)"
  by (induction blobs) (simp_all add: take_len_blob_push)

lemma take_map_push: "blobs_fit blobs \<Longrightarrow> take_map (push_map blobs @ rest) = Inr (blobs, rest)"
  by (simp add: take_map_def push_map_def blobs_fit_def field_reads codec_simps unat_len_u32 take_entries_push)

lemma decode_registry_encode:
  "list_all (\<lambda>(k, v). k = key v \<and> dec (enc v) = Inr v) m \<Longrightarrow>
   decode_registry dec key acc (map enc (bt_values m)) = Inr (foldl (\<lambda>m e. bt_insert (fst e) (snd e) m) acc m)"
  by (induction m arbitrary: acc) (auto simp: bt_values_def)

lemma take_registry_push:
  assumes "registry_wf key ok m" "blobs_fit (map enc (bt_values m))" "\<And>v. ok v \<Longrightarrow> dec (enc v) = Inr v"
  shows "take_registry bad dec key (push_map (map enc (bt_values m)) @ rest) = Inr (m, rest)"
proof -
  have "list_all (\<lambda>(k, v). k = key v \<and> dec (enc v) = Inr v) m"
    using assms(1,3) by (auto simp: registry_wf_def list_all_iff)
  then show ?thesis
    using assms(1) by (simp add: take_registry_def take_map_push [OF assms(2)] decode_registry_encode bt_rebuild registry_wf_def)
qed

lemma decode_layouts_push:
  assumes "list_all (\<lambda>(k, r). layout_key_wf k \<and> layout_record_wf r) m"
  shows "decode_layouts (length m) acc (concat (map push_layout m) @ rest) =
    Inr (foldl (\<lambda>m e. bt_insert (fst e) (snd e) m) acc m, rest)"
  using assms
proof (induction m arbitrary: acc)
  case (Cons e m)
  have "length (encode_layout_key (fst e)) < 2 ^ 32" "length (encode_layout_record (snd e)) < 2 ^ 32"
    using Cons.prems
    by (auto simp: length_encode_layout_key LAYOUT_KEY_LEN_def encode_layout_record_def layout_record_wf_def
        MAX_LAYOUT_WIRE_BYTES_def codec_simps split: prod.splits)
  then show ?case
    using Cons by (auto simp: push_layout_def take_len_blob_push record_round_trips split: prod.splits)
qed simp

lemma first_duplicate_None: "first_duplicate seen is = None \<longleftrightarrow> distinct is \<and> set is \<inter> set seen = {}"
  by (induction seen "is" rule: first_duplicate.induct) auto

lemma distinct_bt_keys: "bt_wf m \<Longrightarrow> distinct (bt_keys m)"
  by (simp add: bt_keys_def bt_wf_distinct)

lemma check_plan_ids_ok:
  assumes "bt_wf (cs_migrations s)" "bt_wf (cs_splits s)" "bt_wf (cs_merges s)"
  shows "check_plan_ids (cs_migrations s) (cs_splits s) (cs_merges s) = Inr () \<longleftrightarrow> (\<forall>i. plan_kinds s i \<le> 1)"
proof -
  have "plan_kinds s i \<le> 1 \<longleftrightarrow>
      \<not> (i \<in> set (bt_keys (cs_migrations s)) \<and> i \<in> set (bt_keys (cs_splits s))) \<and>
      \<not> (i \<in> set (bt_keys (cs_migrations s)) \<and> i \<in> set (bt_keys (cs_merges s))) \<and>
      \<not> (i \<in> set (bt_keys (cs_splits s)) \<and> i \<in> set (bt_keys (cs_merges s)))" for i
    by (auto simp: plan_kinds_def bt_keys_iff)
  moreover have "check_plan_ids (cs_migrations s) (cs_splits s) (cs_merges s) = Inr () \<longleftrightarrow>
      distinct (bt_keys (cs_migrations s) @ bt_keys (cs_splits s) @ bt_keys (cs_merges s))"
    using first_duplicate_None [of "[]" "bt_keys (cs_migrations s) @ bt_keys (cs_splits s) @ bt_keys (cs_merges s)"]
    unfolding check_plan_ids_def by (cases "first_duplicate [] (bt_keys (cs_migrations s) @ bt_keys (cs_splits s) @ bt_keys (cs_merges s))") auto
  ultimately show ?thesis
    using assms by (auto simp: distinct_bt_keys)
qed

lemma fixed_blobs_fit:
  "length m < 2 ^ 32 \<Longrightarrow> blobs_fit (map encode_namespace_record (bt_values m))"
  "length n < 2 ^ 32 \<Longrightarrow> blobs_fit (map encode_index_record (bt_values n))"
  by (auto simp: blobs_fit_def list_all_iff encode_namespace_record_def encode_index_record_def codec_simps bt_values_def)

text \<open>Decoding reaches the redundancy section with every other registry read back.\<close>

lemma decode_snapshot_sections:
  assumes wf: "image_wf to_str parse s" and kinds: "\<forall>i. plan_kinds s i \<le> 1" and fits: "registries_fit to_str s"
  shows "decode_snapshot parse (encode_snapshot to_str s) =
    and_then (take_layouts (encode_u32 (len_u32 (length (cs_redundancy s))) @ concat (map push_layout (cs_redundancy s))))
      (\<lambda>(redundancy, rest). if rest \<noteq> [] then Inl CSE_TrailingBytes else Inr (s\<lparr>cs_redundancy := redundancy\<rparr>))"
proof -
  have regs: "registry_wf nr_node (node_wf to_str parse) (cs_nodes s)" "registry_wf drs_tablet desired_wf (cs_placements s)"
    "registry_wf mig_id migration_wf (cs_migrations s)" "registry_wf split_id split_wf (cs_splits s)"
    "registry_wf merge_id merge_wf (cs_merges s)" "registry_wf nsr_id (\<lambda>_. True) (cs_namespaces s)"
    "registry_wf ixr_id (\<lambda>_. True) (cs_indexes s)"
    using wf by (simp_all add: image_wf_def)
  have fit: "blobs_fit (map (encode_node to_str) (bt_values (cs_nodes s)))"
    "blobs_fit (map encode_desired (bt_values (cs_placements s)))"
    "blobs_fit (map encode_migration (bt_values (cs_migrations s)))"
    "blobs_fit (map encode_split (bt_values (cs_splits s)))"
    "blobs_fit (map encode_merge (bt_values (cs_merges s)))"
    "blobs_fit (map encode_namespace_record (bt_values (cs_namespaces s)))"
    "blobs_fit (map encode_index_record (bt_values (cs_indexes s)))"
    using fits by (simp_all add: registries_fit_def fixed_blobs_fit)
  note sections = take_registry_push [OF regs(1) fit(1) decode_node_encode]
    take_registry_push [OF regs(2) fit(2) decode_desired_encode]
    take_registry_push [OF regs(3) fit(3) decode_migration_encode]
    take_registry_push [OF regs(4) fit(4) decode_split_encode]
    take_registry_push [OF regs(5) fit(5) decode_merge_encode]
    take_registry_push [OF regs(6) fit(6) decode_namespace_encode]
    take_registry_push [OF regs(7) fit(7) decode_index_encode]
  have ids: "check_plan_ids (cs_migrations s) (cs_splits s) (cs_merges s) = Inr ()"
    using kinds regs by (simp add: check_plan_ids_ok registry_wf_def)
  have rebuilt: "\<lparr>cs_nodes = cs_nodes s, cs_placements = cs_placements s, cs_migrations = cs_migrations s,
      cs_splits = cs_splits s, cs_merges = cs_merges s, cs_namespaces = cs_namespaces s, cs_indexes = cs_indexes s,
      cs_redundancy = r, cs_placement_version = cs_placement_version s, cs_generation = cs_generation s,
      cs_next_plan_id = cs_next_plan_id s, cs_next_tablet_id = cs_next_tablet_id s\<rparr> = s\<lparr>cs_redundancy := r\<rparr>" for r
    by (cases s) simp
  show ?thesis
    using wf unfolding decode_snapshot_def encode_snapshot_def
    by (simp add: rebuilt sections ids field_reads codec_simps max_one image_wf_def cong: if_cong)
qed

lemma decode_snapshot_encode:
  assumes wf: "image_wf to_str parse s" and kinds: "\<forall>i. plan_kinds s i \<le> 1" and fits: "image_fits to_str s"
  shows "decode_snapshot parse (encode_snapshot to_str s) = Inr s"
proof -
  have "length (cs_redundancy s) < 2 ^ 32"
    using fits by (simp add: image_fits_def MAX_REDUNDANCY_SNAPSHOT_ENTRIES_def)
  then have "take_layouts (encode_u32 (len_u32 (length (cs_redundancy s))) @ concat (map push_layout (cs_redundancy s))) =
      Inr (cs_redundancy s, [])"
    using wf fits decode_layouts_push [of "cs_redundancy s" "[]" "[]"]
    by (simp add: take_layouts_def image_wf_def image_fits_def field_reads codec_simps unat_len_u32 bt_rebuild)
  then show ?thesis
    using decode_snapshot_sections [OF wf kinds] fits by (simp add: image_fits_def)
qed

section \<open>The invariant along a run\<close>

lemma registry_wf_empty [simp]: "registry_wf key ok []"
  by (simp add: registry_wf_def bt_wf_def)

lemma registry_wf_insert: "registry_wf key ok m \<Longrightarrow> k = key v \<Longrightarrow> ok v \<Longrightarrow> registry_wf key ok (bt_insert k v m)"
  by (auto simp: registry_wf_def bt_wf_insert list_all_iff bt_get_eq_Some_iff [symmetric] bt_get_insert split: if_splits)

lemma registry_wf_remove: "registry_wf key ok m \<Longrightarrow> registry_wf key ok (bt_remove k m)"
  using bt_wf_remove [of m k] by (auto simp: registry_wf_def list_all_iff bt_remove_def)

lemma registry_wf_get: "registry_wf key ok m \<Longrightarrow> bt_get m k = Some v \<Longrightarrow> key v = k \<and> ok v"
  by (auto simp: registry_wf_def list_all_iff dest: bt_get_Some_mem)

lemma registry_wf_foldl:
  "registry_wf key ok m \<Longrightarrow> list_all ok vs \<Longrightarrow> registry_wf key ok (foldl (\<lambda>m v. bt_insert (key v) v m) m vs)"
  by (induction vs arbitrary: m) (auto intro: registry_wf_insert)

lemma desired_new_wf: "desired_new t ns v = Inr d \<Longrightarrow> length ns < 2 ^ 32 \<Longrightarrow> desired_wf d \<and> drs_tablet d = t"
  by (auto simp: desired_new_Inr_iff desired_wf_def node_list_wf_def strict_sorted_iff sort_eq_Nil_iff)

lemma registry_wf_place_child:
  "registry_wf drs_tablet desired_wf m \<Longrightarrow> length ns < 2 ^ 32 \<Longrightarrow>
   registry_wf drs_tablet desired_wf (place_child ns g m child)"
  by (auto simp: place_child_def intro!: registry_wf_insert split: sum.splits dest: desired_new_wf)

lemma max_zero_iff [simp]: "max a b = (0 :: u64) \<longleftrightarrow> a = 0 \<and> b = 0"
  by (auto simp: max_def)

lemmas image_intros = registry_wf_insert registry_wf_remove registry_wf_place_child

lemma image_wf_bump [simp]: "image_wf to_str parse (bump_generation s) = image_wf to_str parse s"
  by (simp add: image_wf_def bump_generation_def)

lemma image_wf_store_migration:
  "image_wf to_str parse s \<Longrightarrow> migration_wf plan \<Longrightarrow> image_wf to_str parse (store_migration s plan)"
  by (simp add: store_migration_def image_wf_def bump_generation_def image_intros)

lemma image_wf_publish:
  "publish_migration_placement s plan = Inr s' \<Longrightarrow> image_wf to_str parse s \<Longrightarrow> migration_wf plan \<Longrightarrow>
   image_wf to_str parse s'"
  using desired_new_wf [of "mig_tablet plan" "mig_desired_voters plan" "mig_generation plan"]
  by (auto simp: publish_migration_placement_def result_simps bump_generation_def image_wf_def migration_wf_def
      node_list_wf_def intro!: image_intros)

lemma image_wf_store_split:
  "image_wf to_str parse s \<Longrightarrow> split_wf plan \<Longrightarrow> image_wf to_str parse (store_split s plan)"
  by (simp add: store_split_def image_wf_def split_wf_def node_list_wf_def image_intros)

lemma image_wf_store_merge:
  "image_wf to_str parse s \<Longrightarrow> merge_wf plan \<Longrightarrow> image_wf to_str parse (store_merge s plan)"
  by (simp add: store_merge_def image_wf_def merge_wf_def node_list_wf_def image_intros)

lemmas image_arms = control_step_def control_result_defs apply_register_node_def apply_set_node_state_def
  apply_set_desired_def apply_create_migration_def apply_advance_migration_def apply_remove_migration_def
  apply_create_split_def apply_advance_split_def apply_remove_split_def apply_create_merge_def
  apply_advance_merge_def apply_remove_merge_def apply_register_namespace_def apply_create_index_def
  apply_advance_index_def apply_remove_index_def apply_publish_layout_def apply_drop_layout_def

lemma step_node:
  assumes "image_wf to_str parse s" "control_mutation_wf to_str parse m" "m = RegisterNode r \<or> m = SetNodeState n st"
  shows "image_wf to_str parse (control_step s m)"
  using assms registry_wf_get [of nr_node "node_wf to_str parse" "cs_nodes s" n]
  by (auto simp: image_arms image_wf_def node_wf_def intro!: image_intros split: option.splits sum.splits)

lemma step_desired:
  assumes "image_wf to_str parse s" "desired_wf d"
  shows "image_wf to_str parse (control_step s (SetDesiredPlacement d))"
  using assms
  by (auto simp: image_arms Let_def image_wf_def bump_generation_def intro!: image_intros split: option.splits)

lemma step_migration:
  assumes "image_wf to_str parse s"
  shows "migration_wf plan \<Longrightarrow> image_wf to_str parse (control_step s (CreateMigration plan))"
    and "image_wf to_str parse (control_step s (AdvanceMigration i p g))"
    and "image_wf to_str parse (control_step s (RemoveMigration i))"
proof -
  show "migration_wf plan \<Longrightarrow> image_wf to_str parse (control_step s (CreateMigration plan))"
    using assms image_wf_publish [of s plan _ to_str parse]
    by (auto simp: image_arms Let_def intro!: image_wf_store_migration split: option.splits sum.splits)
  have "migration_wf (mig_advance q p) \<and> mig_id (mig_advance q p) = i" if "bt_get (cs_migrations s) i = Some q" for q
    using registry_wf_get [of mig_id migration_wf, OF _ that] assms by (auto simp: image_wf_def migration_wf_def mig_advance_def)
  then show "image_wf to_str parse (control_step s (AdvanceMigration i p g))"
    using assms by (auto simp: image_arms image_wf_def intro!: image_intros split: option.splits)
  show "image_wf to_str parse (control_step s (RemoveMigration i))"
    using assms by (auto simp: image_arms image_wf_def intro!: image_intros split: option.splits)
qed

lemma step_split:
  assumes "image_wf to_str parse s"
  shows "split_wf plan \<Longrightarrow> image_wf to_str parse (control_step s (CreateSplit plan))"
    and "image_wf to_str parse (control_step s (AdvanceSplit i p g))"
    and "image_wf to_str parse (control_step s (RemoveSplit i))"
proof -
  show "split_wf plan \<Longrightarrow> image_wf to_str parse (control_step s (CreateSplit plan))"
    using assms by (auto simp: image_arms Let_def intro!: image_wf_store_split split: option.splits sum.splits)
  have "split_wf (split_advance q p) \<and> split_id (split_advance q p) = i" if "bt_get (cs_splits s) i = Some q" for q
    using registry_wf_get [of split_id split_wf, OF _ that] assms by (auto simp: image_wf_def split_wf_def split_advance_def split_tablets_def)
  then show "image_wf to_str parse (control_step s (AdvanceSplit i p g))"
    using assms by (auto simp: image_arms image_wf_def intro!: image_intros split: option.splits)
  show "image_wf to_str parse (control_step s (RemoveSplit i))"
    using assms by (auto simp: image_arms image_wf_def intro!: image_intros split: option.splits)
qed

lemma step_merge:
  assumes "image_wf to_str parse s"
  shows "merge_wf plan \<Longrightarrow> image_wf to_str parse (control_step s (CreateMerge plan))"
    and "image_wf to_str parse (control_step s (AdvanceMerge i p g))"
    and "image_wf to_str parse (control_step s (RemoveMerge i))"
proof -
  show "merge_wf plan \<Longrightarrow> image_wf to_str parse (control_step s (CreateMerge plan))"
    using assms by (auto simp: image_arms Let_def intro!: image_wf_store_merge split: option.splits sum.splits)
  have "merge_wf (merge_advance q p) \<and> merge_id (merge_advance q p) = i" if "bt_get (cs_merges s) i = Some q" for q
    using registry_wf_get [of merge_id merge_wf, OF _ that] assms by (auto simp: image_wf_def merge_wf_def merge_advance_def merge_tablets_def)
  then show "image_wf to_str parse (control_step s (AdvanceMerge i p g))"
    using assms by (auto simp: image_arms image_wf_def intro!: image_intros split: option.splits)
  show "image_wf to_str parse (control_step s (RemoveMerge i))"
    using assms by (auto simp: image_arms image_wf_def intro!: image_intros split: option.splits)
qed

lemma step_catalog:
  assumes "image_wf to_str parse s"
  shows "image_wf to_str parse (control_step s (RegisterNamespace r))"
    and "image_wf to_str parse (control_step s (CreateIndex x))"
    and "image_wf to_str parse (control_step s (AdvanceIndex i b))"
    and "image_wf to_str parse (control_step s (RemoveIndex i))"
proof -
  show "image_wf to_str parse (control_step s (RegisterNamespace r))"
    "image_wf to_str parse (control_step s (CreateIndex x))" "image_wf to_str parse (control_step s (RemoveIndex i))"
    using assms by (auto simp: image_arms image_wf_def intro!: image_intros split: option.splits)
  show "image_wf to_str parse (control_step s (AdvanceIndex i b))"
    using assms registry_wf_get [of ixr_id "\<lambda>_. True" "cs_indexes s" i]
    by (auto simp: image_arms image_wf_def intro!: image_intros split: option.splits sum.splits)
qed

lemma layouts_wf_insert:
  "bt_wf m \<Longrightarrow> list_all P m \<Longrightarrow> P (k, r) \<Longrightarrow> list_all P (bt_insert k r m)"
  by (auto simp: list_all_iff bt_wf_insert bt_get_eq_Some_iff [symmetric] bt_get_insert split: if_splits)

lemma step_layout:
  assumes "image_wf to_str parse s"
  shows "layout_key_wf k \<Longrightarrow> layout_record_wf r \<Longrightarrow> image_wf to_str parse (control_step s (PublishRedundancyLayout k g r))"
    and "image_wf to_str parse (control_step s (DropRedundancyAsset k))"
proof -
  show "layout_key_wf k \<Longrightarrow> layout_record_wf r \<Longrightarrow> image_wf to_str parse (control_step s (PublishRedundancyLayout k g r))"
    using assms by (auto simp: image_arms Let_def image_wf_def bt_wf_insert intro!: layouts_wf_insert split: option.splits)
  show "image_wf to_str parse (control_step s (DropRedundancyAsset k))"
    using assms bt_wf_remove [of "cs_redundancy s" k]
    by (auto simp: image_arms image_wf_def list_all_iff bt_remove_def)
qed

lemma image_wf_step:
  assumes "image_wf to_str parse s" "control_mutation_wf to_str parse m"
  shows "image_wf to_str parse (control_step s m)"
  using assms step_node [OF assms] step_desired [OF assms(1)] step_migration [OF assms(1)] step_split [OF assms(1)]
    step_merge [OF assms(1)] step_catalog [OF assms(1)] step_layout [OF assms(1)]
  by (cases m) (simp_all only: control_mutation_wf.simps, auto)

lemma image_wf_bootstrap:
  assumes "list_all (node_wf to_str parse) nodes" "list_all desired_wf placements"
  shows "image_wf to_str parse (control_bootstrap nodes placements)"
  using assms by (simp add: image_wf_def control_bootstrap_def control_empty_def bt_wf_def registry_wf_foldl)

lemma image_wf_steps:
  "image_wf to_str parse s \<Longrightarrow> list_all (control_mutation_wf to_str parse) ms \<Longrightarrow> image_wf to_str parse (control_steps s ms)"
  by (induction ms arbitrary: s) (simp_all add: image_wf_step)

lemma control_run_steps: "control_run s \<Longrightarrow> control_run (control_steps s ms)"
  by (induction ms arbitrary: s) (simp_all add: run_step)

section \<open>Whatever decodes is well formed\<close>

lemma decode_registry_wf:
  "decode_registry dec key acc blobs = Inr m \<Longrightarrow> registry_wf key ok acc \<Longrightarrow>
   (\<And>b v. dec b = Inr v \<Longrightarrow> ok v) \<Longrightarrow> registry_wf key ok m"
  by (induction dec key acc blobs rule: decode_registry.induct) (auto simp: result_simps intro: registry_wf_insert)

lemma take_registry_wf:
  "take_registry bad dec key input = Inr (m, rest) \<Longrightarrow> (\<And>b v. dec b = Inr v \<Longrightarrow> ok v) \<Longrightarrow> registry_wf key ok m"
  by (auto simp: take_registry_def result_simps intro: decode_registry_wf)

lemma decode_layouts_wf:
  "decode_layouts n acc input = Inr (m, rest) \<Longrightarrow> bt_wf acc \<Longrightarrow>
   list_all (\<lambda>(k, r). layout_key_wf k \<and> layout_record_wf r) acc \<Longrightarrow>
   bt_wf m \<and> list_all (\<lambda>(k, r). layout_key_wf k \<and> layout_record_wf r) m"
proof (induction n arbitrary: acc input)
  case (Suc n)
  obtain k r tail where step: "decode_layouts n (bt_insert k r acc) tail = Inr (m, rest)" "layout_key_wf k" "layout_record_wf r"
    using Suc.prems(1) by (auto simp: result_simps dest: decode_layout_key_wf decode_layout_record_wf)
  show ?case
    by (rule Suc.IH [OF step(1) bt_wf_insert [OF Suc.prems(2)] layouts_wf_insert [OF Suc.prems(2,3)]]) (simp add: step)
qed simp

lemma take_layouts_wf:
  "take_layouts input = Inr (m, rest) \<Longrightarrow> bt_wf m \<and> list_all (\<lambda>(k, r). layout_key_wf k \<and> layout_record_wf r) m"
  by (auto simp: take_layouts_def Let_def bt_wf_def dest: decode_layouts_wf split: if_splits)

lemma decode_snapshot_wf:
  assumes "decode_snapshot parse input = Inr s" "\<And>t a. parse t = Some a \<Longrightarrow> endpoint_wf to_str parse a"
  shows "image_wf to_str parse s \<and> (\<forall>i. plan_kinds s i \<le> 1)"
proof -
  obtain r1 r2 r3 r4 r5 r6 r7 r8 where
    regs: "take_registry CSE_BadNode (decode_node parse) nr_node (drop 32 input) = Inr (cs_nodes s, r1)"
      "take_registry CSE_BadPlacement decode_desired drs_tablet r1 = Inr (cs_placements s, r2)"
      "take_registry CSE_BadMigration decode_migration mig_id r2 = Inr (cs_migrations s, r3)"
      "take_registry CSE_BadSplit decode_split split_id r3 = Inr (cs_splits s, r4)"
      "take_registry CSE_BadMerge decode_merge merge_id r4 = Inr (cs_merges s, r5)"
      "take_registry CSE_BadCatalog decode_namespace_record nsr_id r5 = Inr (cs_namespaces s, r6)"
      "take_registry CSE_BadCatalog decode_index_record ixr_id r6 = Inr (cs_indexes s, r7)"
    and rest: "take_layouts r7 = Inr (cs_redundancy s, r8)"
      "check_plan_ids (cs_migrations s) (cs_splits s) (cs_merges s) = Inr ()"
      "cs_next_plan_id s \<noteq> 0" "cs_next_tablet_id s \<noteq> 0"
    using assms(1) by (auto simp: decode_snapshot_def result_simps split: if_splits)
  note wf = take_registry_wf [OF regs(1) decode_node_wf [OF _ assms(2)]]
    take_registry_wf [OF regs(2) decode_desired_wf] take_registry_wf [OF regs(3) decode_migration_wf]
    take_registry_wf [OF regs(4) decode_split_wf] take_registry_wf [OF regs(5) decode_merge_wf]
    take_registry_wf [OF regs(6), of "\<lambda>_. True"] take_registry_wf [OF regs(7), of "\<lambda>_. True"]
  have "image_wf to_str parse s"
    using wf take_layouts_wf [OF rest(1)] rest(3,4) by (simp add: image_wf_def)
  moreover have "\<forall>i. plan_kinds s i \<le> 1"
    using rest(2) wf(3-5) by (simp add: check_plan_ids_ok registry_wf_def)
  ultimately show ?thesis ..
qed

section \<open>A sample image\<close>

definition sample_text :: bytes where
  "sample_text = [49, 46, 50, 46, 51, 46, 52, 58, 57]"

definition sample_addr :: socket_addr where
  "sample_addr = SocketV4 0x01020304 9"

definition sample_print :: "socket_addr \<Rightarrow> bytes" where
  "sample_print a = sample_text"

definition sample_parse :: "bytes \<Rightarrow> socket_addr option" where
  "sample_parse t = (if t = sample_text then Some sample_addr else None)"

lemma sample_endpoint: "sample_parse t = Some a \<Longrightarrow> endpoint_wf sample_print sample_parse a"
  by (auto simp: sample_parse_def endpoint_wf_def sample_print_def text_wf_def sample_text_def split: if_splits)

definition sample_node :: node_record where
  "sample_node = node_joining 1 sample_addr sample_addr sample_addr (replicate 32 7)"

definition sample_desired :: desired_replica_set where
  "sample_desired = \<lparr>drs_tablet = 17, drs_replicas = [1, 2], drs_version = 1\<rparr>"

lemma sample_records: "list_all (node_wf sample_print sample_parse) [sample_node]" "list_all desired_wf [sample_desired]"
  using sample_endpoint [of sample_text sample_addr]
  by (simp_all add: sample_node_def node_joining_def node_wf_def text_wf_def sample_parse_def sample_desired_def desired_wf_def
      node_list_wf_def)

lemma sample_restart_eq:
  "control_steps (control_bootstrap [sample_node] [sample_desired]) [SetNodeState 1 Node_Active] =
    control_bootstrap [sample_node\<lparr>nr_state := Node_Active\<rparr>] [sample_desired]"
  by (simp add: control_step_def apply_set_node_state_def control_bootstrap_def bt_get_def sample_node_def node_joining_def
      check_transition_def accept_def)

lemma sample_restart_fits:
  "image_fits sample_print (control_steps (control_bootstrap [sample_node] [sample_desired]) [SetNodeState 1 Node_Active])"
  unfolding sample_restart_eq
  by (simp add: image_fits_def registries_fit_def control_bootstrap_def control_empty_def bt_values_def blobs_fit_def encode_node_def
      encode_desired_def encode_u64s_def push_str_def sample_print_def sample_text_def sample_node_def node_joining_def
      sample_desired_def codec_simps MAX_REDUNDANCY_SNAPSHOT_ENTRIES_def)

section \<open>Properties\<close>



text \<open>C34: Any bytes a snapshot decodes from give an image whose registries are indexed by the identities of
  their records, with distinct plan identities across the three kinds, so damaged bytes are refused or give a
  well-formed image, never a malformed one.\<close>

theorem control_snapshot_sound:
  assumes "\<And>t a. parse t = Some a \<Longrightarrow> endpoint_wf to_str parse a"
    and "decode_snapshot parse input = Inr s"
  shows "image_wf to_str parse s \<and> (\<forall>i. plan_kinds s i \<le> 1)"
  using decode_snapshot_wf [OF assms(2,1)] .

theorem control_snapshot_sound_witness:
  "image_wf sample_print sample_parse control_empty \<and> plan_kinds control_empty 3 \<le> 1"
proof -
  have "decode_snapshot sample_parse (encode_snapshot sample_print control_empty) = Inr control_empty"
    by (rule decode_snapshot_encode [of sample_print])
      (simp_all add: image_wf_def control_empty_def bt_wf_def plan_kinds_def bt_get_def image_fits_def registries_fit_def blobs_fit_def bt_values_def)
  from control_snapshot_sound [OF sample_endpoint this] show ?thesis by simp
qed

text \<open>Nothing bounds the number of layouts an image may hold, but a snapshot with more than a million of
  them is refused.\<close>

theorem large_redundancy_snapshot_refused:
  assumes "image_wf to_str parse s" "\<forall>i. plan_kinds s i \<le> 1" "registries_fit to_str s"
    and "MAX_REDUNDANCY_SNAPSHOT_ENTRIES < length (cs_redundancy s)" "length (cs_redundancy s) < 2 ^ 32"
  shows "decode_snapshot parse (encode_snapshot to_str s) = Inl CSE_Truncated"
  using assms(4,5) decode_snapshot_sections [OF assms(1-3)]
  by (simp add: take_layouts_def field_reads codec_simps unat_len_u32)

end
