(* ===== verification/Objects.thy ===== *)
theory Objects
  imports Ids Ordered_Maps
begin

text \<open>
  The object model of \<open>crates/kivi-state/src/object.rs\<close>: keys, object versions, the logical values
  (bytes, chunked and fabric roots, strict and commutative counters, bounded counters with an escrow
  share, semaphores, leases, stream shards) and the stored object that wraps one of them with its
  version, its expiry and its representation.

  \<open>value_wf\<close> collects what the code keeps true of every value it stores: the two
  \<open>invariant_holds\<close> functions it asserts, the ordering of stream offsets its decoder demands, and that
  a lease never hands out a fencing token it already granted.
\<close>

section \<open>Keys and versions\<close>

type_synonym key = bytes

definition SYSTEM_PREFIX :: u8 where
  "SYSTEM_PREFIX = 0xFF"

definition key_is_system :: "key \<Rightarrow> bool" where
  "key_is_system k = (case k of [] \<Rightarrow> False | b # _ \<Rightarrow> b = SYSTEM_PREFIX)"

type_synonym object_version = u64

datatype version_exhausted = VersionExhausted

definition version_FIRST :: object_version where
  "version_FIRST = 1"

definition object_version_next :: "object_version \<Rightarrow> version_exhausted + object_version" where
  "object_version_next v = (case checked_add v 1 of Some n \<Rightarrow> Inr n | None \<Rightarrow> Inl VersionExhausted)"

section \<open>Logical values\<close>

datatype object_type =
    T_Bytes
  | T_StrictCounter
  | T_CommutativeCounter
  | T_BoundedCounter
  | T_Semaphore
  | T_Lease
  | T_StreamShard

text \<open>A 32-byte manifest identifier and the 16-byte identifiers below are their byte lists.\<close>

type_synonym manifest_id = bytes

record chunked_ref =
  cr_manifest :: manifest_id
  cr_logical_len :: u64

record fabric_ref =
  fr_id :: u64
  fr_logical_len :: u64
  fr_version :: u64

record escrow_share =
  es_holder :: tablet_id
  es_min :: i64
  es_max :: i64

record bounded_counter_state =
  bc_value :: i64
  bc_capacity :: u64
  bc_share :: escrow_share

text \<open>\<open>i64::try_from\<close> of a \<open>u64\<close> keeps the bits and fails above \<open>i64::MAX\<close>.\<close>

definition i64_try_from :: "u64 \<Rightarrow> i64 option" where
  "i64_try_from c = (if unat c < 2 ^ 63 then Some c else None)"

definition bounded_invariant_holds :: "bounded_counter_state \<Rightarrow> bool" where
  "bounded_invariant_holds st =
    (case i64_try_from (bc_capacity st) of
       None \<Rightarrow> False
     | Some cap \<Rightarrow>
         0 \<le> sint (es_min (bc_share st))
         \<and> sint (es_min (bc_share st)) \<le> sint (bc_value st)
         \<and> sint (bc_value st) \<le> sint (es_max (bc_share st))
         \<and> sint (es_max (bc_share st)) \<le> sint cap)"

type_synonym permit_id = bytes

record permit_record =
  pr_owner :: u64
  pr_qty :: u64

definition MAX_SEMAPHORE_PERMITS :: nat where
  "MAX_SEMAPHORE_PERMITS = 4096"

record semaphore_state =
  sem_capacity :: u64
  sem_permits :: "(permit_id, permit_record) bmap"

definition outstanding :: "semaphore_state \<Rightarrow> u64" where
  "outstanding st = foldl (\<lambda>sum permit. saturating_add sum (pr_qty permit)) 0 (bt_values (sem_permits st))"

definition semaphore_invariant_holds :: "semaphore_state \<Rightarrow> bool" where
  "semaphore_invariant_holds st \<longleftrightarrow> outstanding st \<le> sem_capacity st"

type_synonym fencing_token = u64

definition fencing_next :: "fencing_token \<Rightarrow> version_exhausted + fencing_token" where
  "fencing_next f = (case checked_add f 1 of Some n \<Rightarrow> Inr n | None \<Rightarrow> Inl VersionExhausted)"

record lease_holder =
  lh_owner :: u64
  lh_fencing :: fencing_token
  lh_expires_at :: wall_timestamp

record lease_state =
  ls_holder :: "lease_holder option"
  ls_next_fencing :: fencing_token

definition lease_free :: lease_state where
  "lease_free = \<lparr> ls_holder = None, ls_next_fencing = 1 \<rparr>"

definition MAX_STREAM_SHARD_ENTRIES :: nat where
  "MAX_STREAM_SHARD_ENTRIES = 1024"

definition MAX_STREAM_ENTRY_BYTES :: nat where
  "MAX_STREAM_ENTRY_BYTES = 64 * 1024"

record stream_entry =
  se_offset :: u64
  se_partition :: bytes
  se_payload :: bytes

record stream_shard_state =
  ss_stream :: bytes
  ss_shard :: u32
  ss_next_offset :: u64
  ss_entries :: "stream_entry list"

datatype logical_value =
    V_Bytes bytes
  | V_Chunked chunked_ref
  | V_Fabric fabric_ref
  | V_StrictCounter i64
  | V_CommutativeCounter i64
  | V_BoundedCounter bounded_counter_state
  | V_Semaphore semaphore_state
  | V_Lease lease_state
  | V_StreamShard stream_shard_state

fun object_type_of :: "logical_value \<Rightarrow> object_type" where
  "object_type_of (V_Bytes _) = T_Bytes"
| "object_type_of (V_Chunked _) = T_Bytes"
| "object_type_of (V_Fabric _) = T_Bytes"
| "object_type_of (V_StrictCounter _) = T_StrictCounter"
| "object_type_of (V_CommutativeCounter _) = T_CommutativeCounter"
| "object_type_of (V_BoundedCounter _) = T_BoundedCounter"
| "object_type_of (V_Semaphore _) = T_Semaphore"
| "object_type_of (V_Lease _) = T_Lease"
| "object_type_of (V_StreamShard _) = T_StreamShard"

text \<open>The encoded lengths that \<open>logical_bytes\<close> adds up (\<open>encoded_len\<close> of each state).\<close>

definition bounded_encoded_len :: "bounded_counter_state \<Rightarrow> nat" where
  "bounded_encoded_len st = 8 + 8 + (8 + 8 + 8)"

definition semaphore_encoded_len :: "semaphore_state \<Rightarrow> nat" where
  "semaphore_encoded_len st = 8 + 4 + length (sem_permits st) * (16 + 16)"

definition lease_encoded_len :: "lease_state \<Rightarrow> nat" where
  "lease_encoded_len st = 1 + (case ls_holder st of None \<Rightarrow> 0 | Some _ \<Rightarrow> 8 + 8 + 8) + 8"

definition stream_entry_encoded_len :: "stream_entry \<Rightarrow> nat" where
  "stream_entry_encoded_len e = 8 + (4 + length (se_partition e)) + (4 + length (se_payload e))"

definition stream_encoded_len :: "stream_shard_state \<Rightarrow> nat" where
  "stream_encoded_len st =
    16 + 4 + 8 + 4 + sum_list (map stream_entry_encoded_len (ss_entries st))"

fun logical_bytes :: "logical_value \<Rightarrow> u64" where
  "logical_bytes (V_Bytes v) = of_nat (length v)"
| "logical_bytes (V_Chunked c) = cr_logical_len c"
| "logical_bytes (V_Fabric f) = fr_logical_len f"
| "logical_bytes (V_StrictCounter _) = 8"
| "logical_bytes (V_CommutativeCounter _) = 8"
| "logical_bytes (V_BoundedCounter st) = of_nat (bounded_encoded_len st)"
| "logical_bytes (V_Semaphore st) = of_nat (semaphore_encoded_len st)"
| "logical_bytes (V_Lease st) = of_nat (lease_encoded_len st)"
| "logical_bytes (V_StreamShard st) = of_nat (stream_encoded_len st)"

section \<open>Stored objects\<close>

datatype representation = Inline | Chunked | Fabric

record stored_object =
  so_value :: logical_value
  so_version :: object_version
  so_expiry :: expiry
  so_representation :: representation

definition stored_new :: "logical_value \<Rightarrow> object_version \<Rightarrow> expiry \<Rightarrow> stored_object" where
  "stored_new value version expiry =
    \<lparr> so_value = value, so_version = version, so_expiry = expiry,
      so_representation =
        (case value of V_Chunked _ \<Rightarrow> Chunked | V_Fabric _ \<Rightarrow> Fabric | _ \<Rightarrow> Inline) \<rparr>"

definition so_is_expired :: "stored_object \<Rightarrow> wall_timestamp \<Rightarrow> bool" where
  "so_is_expired obj now = expiry_is_expired (so_expiry obj) now"

definition so_object_type :: "stored_object \<Rightarrow> object_type" where
  "so_object_type obj = object_type_of (so_value obj)"

section \<open>Well-formed values\<close>

definition semaphore_wf :: "semaphore_state \<Rightarrow> bool" where
  "semaphore_wf st \<longleftrightarrow>
    bt_wf (sem_permits st)
    \<and> semaphore_invariant_holds st
    \<and> length (sem_permits st) \<le> MAX_SEMAPHORE_PERMITS
    \<and> list_all (\<lambda>permit. 0 < pr_qty permit) (bt_values (sem_permits st))"

definition lease_wf :: "lease_state \<Rightarrow> bool" where
  "lease_wf st \<longleftrightarrow>
    (case ls_holder st of None \<Rightarrow> True | Some h \<Rightarrow> lh_fencing h < ls_next_fencing st)"

definition stream_wf :: "stream_shard_state \<Rightarrow> bool" where
  "stream_wf st \<longleftrightarrow>
    sorted_wrt (<) (map se_offset (ss_entries st))
    \<and> list_all (\<lambda>e. se_offset e < ss_next_offset st) (ss_entries st)
    \<and> length (ss_entries st) \<le> MAX_STREAM_SHARD_ENTRIES
    \<and> list_all (\<lambda>e. length (se_payload e) \<le> MAX_STREAM_ENTRY_BYTES) (ss_entries st)"

fun value_wf :: "logical_value \<Rightarrow> bool" where
  "value_wf (V_BoundedCounter st) = bounded_invariant_holds st"
| "value_wf (V_Semaphore st) = semaphore_wf st"
| "value_wf (V_Lease st) = lease_wf st"
| "value_wf (V_StreamShard st) = stream_wf st"
| "value_wf _ = True"

text \<open>
  A stream never runs out of offsets before its object runs out of versions: every append advances
  both, and the version starts one ahead.
\<close>

definition object_wf :: "stored_object \<Rightarrow> bool" where
  "object_wf obj \<longleftrightarrow>
    value_wf (so_value obj)
    \<and> (case so_value obj of V_StreamShard st \<Rightarrow> ss_next_offset st < so_version obj | _ \<Rightarrow> True)"

section \<open>Lemmas\<close>

interpretation object_version: generation_counter object_version_next
  by unfold_locales (auto simp: object_version_next_def checked_add_one)

interpretation fencing: generation_counter fencing_next
  by unfold_locales (auto simp: fencing_next_def checked_add_one)

lemma stored_new_simps [simp]:
  "so_value (stored_new v ver e) = v"
  "so_version (stored_new v ver e) = ver"
  "so_expiry (stored_new v ver e) = e"
  by (simp_all add: stored_new_def)

lemma i64_try_from_eq_Some_iff: "i64_try_from c = Some d \<longleftrightarrow> unat c < 2 ^ 63 \<and> d = c"
  by (auto simp: i64_try_from_def)

lemma sint_of_small: "unat (c :: i64) < 2 ^ 63 \<Longrightarrow> sint c = int (unat c)"
proof -
  assume "unat c < 2 ^ 63"
  then have "nat (uint c) < 2 ^ 63" by simp
  then have "uint c < 2 ^ 63" unfolding nat_less_numeral_power_cancel_iff .
  moreover have "sint c = signed_take_bit 63 (uint c)" by (simp add: sint_uint)
  moreover have "- (2 ^ 63) \<le> uint c" by (rule order_trans [of _ 0]) simp_all
  ultimately have "sint c = uint c" by (simp only: signed_take_bit_int_eq_self)
  then show ?thesis by simp
qed

lemma unat_saturating_add: "unat (saturating_add a b) = min (unat a + unat b) (2 ^ LENGTH('a) - 1)"
  for a b :: "'a::len word"
proof (cases "unat a + unat b < 2 ^ LENGTH('a)")
  case True
  then show ?thesis by (simp add: saturating_add_def unat_word_ariths)
next
  case False
  then show ?thesis by (simp add: saturating_add_def unsigned_minus_1_eq_mask mask_eq_exp_minus_1)
qed

lemma unat_foldl_saturating:
  fixes a :: "'a::len word"
  shows "unat (foldl (\<lambda>sum p. saturating_add sum (f p)) a ps)
    = min (unat a + sum_list (map (\<lambda>p. unat (f p)) ps)) (2 ^ LENGTH('a) - 1)"
proof (induction ps arbitrary: a)
  case Nil
  have "unat a < 2 ^ LENGTH('a)" by (rule unsigned_less)
  then have "unat a \<le> 2 ^ LENGTH('a) - 1" by linarith
  then show ?case by (simp del: One_nat_def)
next
  case (Cons p ps)
  have step: "min (min a m + n) m = min (a + n) m" for a m n :: nat by (simp add: min_def)
  show ?case by (simp add: Cons.IH unat_saturating_add step add.assoc del: One_nat_def)
qed

definition permits_total :: "(permit_id, permit_record) bmap \<Rightarrow> nat" where
  "permits_total m = sum_list (map (\<lambda>p. unat (pr_qty p)) (bt_values m))"

lemma unat_outstanding:
  "unat (outstanding st) = min (permits_total (sem_permits st)) (2 ^ 64 - 1)"
  by (simp add: outstanding_def unat_foldl_saturating permits_total_def)

lemma permits_total_insert:
  "bt_get m k = None \<Longrightarrow> permits_total (bt_insert k p m) = unat (pr_qty p) + permits_total m"
  by (induction m) (auto simp: permits_total_def bt_values_def bt_get_def split: if_splits)

lemma permits_total_remove: "permits_total (bt_remove k m) \<le> permits_total m"
  by (induction m) (auto simp: permits_total_def bt_values_def bt_remove_def)

lemma set_bt_insert: "set (bt_insert k v m) \<subseteq> insert (k, v) (set m)"
  by (induction m) (auto split: if_splits)

lemma set_bt_values_insert: "set (bt_values (bt_insert k v m)) \<subseteq> insert v (set (bt_values m))"
  using set_bt_insert [of k v m] by (auto simp: bt_values_def)

lemma set_bt_values_remove: "set (bt_values (bt_remove k m)) \<subseteq> set (bt_values m)"
  by (auto simp: bt_values_def bt_remove_def)

lemma bt_get_values: "bt_get m k = Some v \<Longrightarrow> v \<in> set (bt_values m)"
  by (auto simp: bt_values_def bt_get_def dest!: map_of_SomeD intro: rev_image_eqI)

lemma length_bt_remove: "length (bt_remove k m) \<le> length m"
  by (simp add: bt_remove_def)

text \<open>
  The two semaphore moves.  An admitted permit keeps the load within the capacity even though the
  running total saturates; a removal only lowers it.
\<close>

lemma semaphore_wf_insert:
  assumes "semaphore_wf st" "bt_get (sem_permits st) k = None" "0 < pr_qty p"
    and "length (sem_permits st) < MAX_SEMAPHORE_PERMITS"
    and "saturating_add (outstanding st) (pr_qty p) \<le> sem_capacity st"
  shows "semaphore_wf (st\<lparr>sem_permits := bt_insert k p (sem_permits st)\<rparr>)"
proof -
  have "unat (outstanding (st\<lparr>sem_permits := bt_insert k p (sem_permits st)\<rparr>))
      = unat (saturating_add (outstanding st) (pr_qty p))"
    by (simp add: unat_outstanding unat_saturating_add permits_total_insert [OF assms(2)])
  moreover have "list_all (\<lambda>q. 0 < pr_qty q) (bt_values (bt_insert k p (sem_permits st)))"
    using assms(1,3) set_bt_values_insert [of k p "sem_permits st"]
    by (auto simp: semaphore_wf_def list_all_iff)
  ultimately show ?thesis
    using assms by (simp add: semaphore_wf_def semaphore_invariant_holds_def word_le_nat_alt
        length_bt_insert)
qed

lemma semaphore_wf_remove:
  assumes "semaphore_wf st"
  shows "semaphore_wf (st\<lparr>sem_permits := bt_remove k (sem_permits st)\<rparr>)"
proof -
  have "unat (outstanding (st\<lparr>sem_permits := bt_remove k (sem_permits st)\<rparr>)) \<le> unat (outstanding st)"
    using permits_total_remove [of k "sem_permits st"] by (simp add: unat_outstanding)
  moreover have "list_all (\<lambda>q. 0 < pr_qty q) (bt_values (bt_remove k (sem_permits st)))"
    using assms set_bt_values_remove [of k "sem_permits st"] by (auto simp: semaphore_wf_def list_all_iff)
  ultimately show ?thesis
    using assms length_bt_remove [of k "sem_permits st"]
    by (simp add: semaphore_wf_def semaphore_invariant_holds_def word_le_nat_alt)
qed

end
