(* ===== verification/Txn.thy ===== *)
theory Txn
  imports Objects Codec
begin

text \<open>
  Transactions, \<open>crates/kivi-state/src/txn.rs\<close>: typed writes and expectations, the irreversible
  decision machine of the coordinator record, the driver plan (bounds, grouping by participant,
  coordinator selection, write-set digest), escrow transfer planning, and the persisted record with
  its key.  The hash function behind identities and digests is a parameter.
\<close>

section \<open>Types\<close>

type_synonym txn_id = bytes
type_synonym txn_digest = bytes

definition MAX_TXN_PARTICIPANTS :: nat where
  "MAX_TXN_PARTICIPANTS = 32"

definition MAX_TXN_KEYS :: nat where
  "MAX_TXN_KEYS = 256"

definition MAX_TXN_BYTES :: nat where
  "MAX_TXN_BYTES = 2 ^ 20"

definition ascii :: "string \<Rightarrow> bytes" where
  "ascii s = map of_char s"

definition txn_id_derive :: "(bytes \<Rightarrow> bytes) \<Rightarrow> u128 \<Rightarrow> u64 \<Rightarrow> u64 \<Rightarrow> txn_id" where
  "txn_id_derive hash session seq attempt =
    take 16 (hash (ascii ''KIVI-TXN-V1'' @ to_le 16 session @ to_le 8 seq @ to_le 8 attempt))"

datatype txn_expect =
    Any
  | Absent
  | Version object_version

datatype txn_write_kind =
    W_Put bytes
  | W_PutChunked manifest_id u64
  | W_PutFabric u64 u64 u64
  | W_Delete
  | W_CounterAdd i64
  | W_CommutativeAdd i64
  | W_BoundedAdd i64
  | W_EscrowSetShare i64 i64

record txn_write =
  tw_key :: key
  tw_kind :: txn_write_kind
  tw_expect :: txn_expect

definition estimated_bytes :: "txn_write \<Rightarrow> nat" where
  "estimated_bytes w =
    length (tw_key w) +
    (case tw_kind w of
       W_Put value \<Rightarrow> length value
     | W_PutChunked _ _ \<Rightarrow> 40
     | W_PutFabric _ _ _ \<Rightarrow> 24
     | _ \<Rightarrow> 8)"

datatype txn_state = Begun | Committed | Aborted

record txn_record =
  rec_id :: txn_id
  rec_coordinator :: tablet_id
  rec_participants :: "tablet_id list"
  rec_state :: txn_state
  rec_dir_version :: u64
  rec_digest :: txn_digest

datatype txn_decision = Commit | Abort

record txn_intent =
  in_id :: txn_id
  in_coordinator :: tablet_id
  in_key :: key
  in_write :: txn_write
  in_digest :: txn_digest
  in_observed :: "object_version option"
  in_prepared_at :: wall_timestamp

datatype txn_error =
    TE_Conflict
  | TE_UniqueViolation
  | TE_TooLarge
  | TE_CoordinatorUnavailable
  | TE_RoutingChanged
  | TE_Aborted
  | TE_InvalidWrite
  | TE_DecisionConflict
  | TE_UnsupportedRange

section \<open>The decision machine\<close>

fun transition_to :: "txn_state \<Rightarrow> txn_state \<Rightarrow> txn_error + txn_state" where
  "transition_to Begun Begun = Inr Begun"
| "transition_to Committed Committed = Inr Committed"
| "transition_to Aborted Aborted = Inr Aborted"
| "transition_to Begun Committed = Inr Committed"
| "transition_to Begun Aborted = Inr Aborted"
| "transition_to Committed Aborted = Inl TE_DecisionConflict"
| "transition_to Aborted Committed = Inl TE_DecisionConflict"
| "transition_to Committed Begun = Inl TE_DecisionConflict"
| "transition_to Aborted Begun = Inl TE_DecisionConflict"

fun decision_state :: "txn_decision \<Rightarrow> txn_state" where
  "decision_state Commit = Committed"
| "decision_state Abort = Aborted"

definition decide :: "txn_record \<Rightarrow> txn_decision \<Rightarrow> txn_record \<times> (txn_error + unit)" where
  "decide r d =
    (case transition_to (rec_state r) (decision_state d) of
       Inl e \<Rightarrow> (r, Inl e)
     | Inr st \<Rightarrow> (r\<lparr>rec_state := st\<rparr>, Inr ()))"

definition decide_all :: "txn_record \<Rightarrow> txn_decision list \<Rightarrow> txn_record" where
  "decide_all r ds = foldl (\<lambda>r d. fst (decide r d)) r ds"

section \<open>Planning\<close>

definition check_bounds :: "nat \<Rightarrow> txn_write list \<Rightarrow> txn_error + unit" where
  "check_bounds participants writes =
    (if participants > MAX_TXN_PARTICIPANTS \<or> length writes > MAX_TXN_KEYS then Inl TE_TooLarge
     else if sum_list (map estimated_bytes writes) > MAX_TXN_BYTES then Inl TE_TooLarge
     else Inr ())"

text \<open>The effective write set: duplicate keys collapse, the last write wins, keys in order.\<close>

definition collapse :: "txn_write list \<Rightarrow> (key, txn_write) bmap" where
  "collapse writes = foldl (\<lambda>m w. bt_insert (tw_key w) w m) [] writes"

fun digest_kind :: "txn_write_kind \<Rightarrow> bytes" where
  "digest_kind (W_Put value) = 1 # value"
| "digest_kind (W_PutChunked manifest logical_len) = 4 # manifest @ to_le 8 logical_len"
| "digest_kind (W_PutFabric fabric_id logical_len version) =
    8 # to_le 8 fabric_id @ to_le 8 logical_len @ to_le 8 version"
| "digest_kind W_Delete = [2]"
| "digest_kind (W_CounterAdd delta) = 3 # to_le 8 delta"
| "digest_kind (W_CommutativeAdd delta) = 5 # to_le 8 delta"
| "digest_kind (W_BoundedAdd delta) = 6 # to_le 8 delta"
| "digest_kind (W_EscrowSetShare mn mx) = 7 # to_le 8 mn @ to_le 8 mx"

definition write_set_digest :: "(bytes \<Rightarrow> bytes) \<Rightarrow> txn_write list \<Rightarrow> namespace_id \<Rightarrow> txn_digest" where
  "write_set_digest hash writes namespace =
    hash (ascii ''KIVI-TXN-SET-V1'' @ to_le 8 namespace @
      concat (map (\<lambda>w. tw_key w @ digest_kind (tw_kind w)) (bt_values (collapse writes))))"

definition share_width :: "i64 \<times> i64 \<Rightarrow> int" where
  "share_width share = sint (snd share) - sint (fst share)"

definition verify_escrow_widths ::
    "i64 \<times> i64 \<Rightarrow> i64 \<times> i64 \<Rightarrow> i64 \<times> i64 \<Rightarrow> i64 \<times> i64 \<Rightarrow> txn_error + unit" where
  "verify_escrow_widths donor_before donor_after recipient_before recipient_after =
    (if share_width donor_before + share_width recipient_before
        = share_width donor_after + share_width recipient_after
     then Inr () else Inl TE_InvalidWrite)"

definition plan_escrow_transfer ::
    "i64 \<times> i64 \<Rightarrow> i64 \<Rightarrow> i64 \<times> i64 \<Rightarrow> u64 \<Rightarrow> u64 \<Rightarrow> txn_error + ((i64 \<times> i64) \<times> (i64 \<times> i64))" where
  "plan_escrow_transfer donor_share donor_value recipient_share recipient_capacity amount_raw =
    (let donor_min = fst donor_share; donor_max = snd donor_share;
         recipient_min = fst recipient_share; recipient_max = snd recipient_share in
     and_then (ok_or TE_InvalidWrite (i64_try_from amount_raw)) (\<lambda>amount.
     if sint amount \<le> 0 then Inl TE_InvalidWrite else
     and_then (ok_or TE_InvalidWrite (checked_ssub donor_max amount)) (\<lambda>donor_new_max.
     if sint donor_new_max < sint donor_min \<or> sint donor_value > sint donor_new_max
     then Inl TE_Conflict else
     and_then (ok_or TE_InvalidWrite (checked_sadd recipient_max amount)) (\<lambda>recipient_new_max.
     and_then (ok_or TE_InvalidWrite (i64_try_from recipient_capacity)) (\<lambda>capacity.
     if sint recipient_new_max > sint capacity then Inl TE_InvalidWrite
     else Inr ((donor_min, donor_new_max), (recipient_min, recipient_new_max)))))))"

fun group_from ::
    "(bytes \<Rightarrow> tablet_id option) \<Rightarrow> nat \<Rightarrow> txn_write list \<Rightarrow> (tablet_id, nat list) bmap
      \<Rightarrow> txn_error + (tablet_id, nat list) bmap" where
  "group_from route index [] groups = Inr groups"
| "group_from route index (w # ws) groups =
    (case route (tw_key w) of
       None \<Rightarrow> Inl TE_RoutingChanged
     | Some tablet \<Rightarrow>
         group_from route (Suc index) ws
           (bt_insert tablet
             ((case bt_get groups tablet of None \<Rightarrow> [] | Some is \<Rightarrow> is) @ [index]) groups))"

definition group_by_tablet ::
    "txn_write list \<Rightarrow> (bytes \<Rightarrow> tablet_id option) \<Rightarrow> txn_error + (tablet_id, nat list) bmap" where
  "group_by_tablet writes route = group_from route 0 writes []"

definition select_coordinator ::
    "txn_write list \<Rightarrow> (bytes \<Rightarrow> tablet_id option) \<Rightarrow> tablet_id option" where
  "select_coordinator writes route =
    (case List.map_filter (\<lambda>w. route (tw_key w)) writes of
       [] \<Rightarrow> None
     | t # ts \<Rightarrow> Some (foldl min t ts))"

record txn_driver_plan =
  plan_txn :: txn_id
  plan_writes :: "txn_write list"
  plan_groups :: "(tablet_id, nat list) bmap"
  plan_coordinator :: tablet_id
  plan_record :: txn_record

definition plan_transaction ::
    "(bytes \<Rightarrow> bytes) \<Rightarrow> txn_id \<Rightarrow> txn_write list \<Rightarrow> (bytes \<Rightarrow> tablet_id option) \<Rightarrow> u64 \<Rightarrow> namespace_id
      \<Rightarrow> txn_error + txn_driver_plan" where
  "plan_transaction hash txn writes route dir_version namespace =
    (if writes = [] then Inl TE_TooLarge
     else
       and_then (group_by_tablet writes route) (\<lambda>groups.
       and_then (ok_or TE_RoutingChanged (select_coordinator writes route)) (\<lambda>coordinator.
       and_then (check_bounds (length groups) writes) (\<lambda>_.
         Inr \<lparr> plan_txn = txn, plan_writes = writes, plan_groups = groups,
               plan_coordinator = coordinator,
               plan_record =
                 \<lparr> rec_id = txn, rec_coordinator = coordinator, rec_participants = bt_keys groups,
                   rec_state = Begun, rec_dir_version = dir_version,
                   rec_digest = write_set_digest hash writes namespace \<rparr> \<rparr>))))"

section \<open>The wire form of a write\<close>

definition write_kind_from_wire :: "u8 \<Rightarrow> bytes \<Rightarrow> i64 \<Rightarrow> txn_error + txn_write_kind" where
  "write_kind_from_wire kind value delta =
    (if kind = 1 then Inr (W_Put value)
     else if kind = 2 then Inr W_Delete
     else if kind = 3 then Inr (W_CounterAdd delta)
     else if kind = 4 then
       (if length value \<noteq> 40 then Inl TE_InvalidWrite
        else Inr (W_PutChunked (take 32 value) (from_le (drop 32 value))))
     else if kind = 5 then Inr (W_CommutativeAdd delta)
     else if kind = 6 then Inr (W_BoundedAdd delta)
     else if kind = 7 then
       (if length value \<noteq> 16 then Inl TE_InvalidWrite
        else Inr (W_EscrowSetShare (from_le (take 8 value)) (from_le (drop 8 value))))
     else Inl TE_InvalidWrite)"

definition expect_from_wire :: "u8 \<Rightarrow> u64 \<Rightarrow> txn_error + txn_expect" where
  "expect_from_wire expect expect_version =
    (if expect = 0 then Inr Any
     else if expect = 1 then Inr Absent
     else if expect = 2 then Inr (Version expect_version)
     else Inl TE_InvalidWrite)"

definition txn_write_from_wire ::
    "bytes \<Rightarrow> u8 \<Rightarrow> bytes \<Rightarrow> i64 \<Rightarrow> u8 \<Rightarrow> u64 \<Rightarrow> txn_error + txn_write" where
  "txn_write_from_wire k kind value delta expect expect_version =
    and_then (write_kind_from_wire kind value delta) (\<lambda>kind'.
    and_then (expect_from_wire expect expect_version) (\<lambda>expect'.
      Inr \<lparr> tw_key = k, tw_kind = kind', tw_expect = expect' \<rparr>))"

section \<open>The persisted record\<close>

definition TXN_RECORD_VERSION :: u16 where
  "TXN_RECORD_VERSION = 1"

definition TXN_RECORD_KEY_LEN :: nat where
  "TXN_RECORD_KEY_LEN = 34"

definition TXN_RECORD_PREFIX :: bytes where
  "TXN_RECORD_PREFIX = ascii ''kivi/txn/''"

definition txn_record_key :: "tablet_id \<Rightarrow> txn_id \<Rightarrow> key" where
  "txn_record_key coordinator txn =
    SYSTEM_PREFIX # TXN_RECORD_PREFIX @ rev (to_le 8 coordinator) @ txn"

definition parse_txn_record_key :: "bytes \<Rightarrow> (tablet_id \<times> txn_id) option" where
  "parse_txn_record_key k =
    (if length k \<noteq> TXN_RECORD_KEY_LEN then None
     else if k ! 0 \<noteq> SYSTEM_PREFIX \<or> take 9 (drop 1 k) \<noteq> TXN_RECORD_PREFIX then None
     else Some (from_le (rev (take 8 (drop 10 k))), take 16 (drop 18 k)))"

datatype txn_decode_error = TD_Truncated | TD_BadVersion | TD_BadState | TD_Oversized

definition state_byte :: "txn_state \<Rightarrow> u8" where
  "state_byte st = (case st of Begun \<Rightarrow> 0 | Committed \<Rightarrow> 1 | Aborted \<Rightarrow> 2)"

definition u32_of_len :: "nat \<Rightarrow> u32" where
  "u32_of_len n = (if n < 2 ^ 32 then of_nat n else - 1)"

definition record_encode :: "txn_record \<Rightarrow> bytes" where
  "record_encode r =
    to_le 2 TXN_RECORD_VERSION @ rec_id r @ to_le 8 (rec_coordinator r) @
    [state_byte (rec_state r)] @ to_le 8 (rec_dir_version r) @
    to_le 4 (u32_of_len (length (rec_participants r))) @
    concat (map (to_le 8) (rec_participants r)) @ rec_digest r"

definition record_decode :: "bytes \<Rightarrow> txn_decode_error + txn_record" where
  "record_decode input =
    (if length input < 2 + 16 + 8 + 1 + 8 + 4 + 32 then Inl TD_Truncated
     else if (from_le (take 2 input) :: u16) \<noteq> TXN_RECORD_VERSION then Inl TD_BadVersion
     else
       and_then
         (if input ! 26 = 0 then Inr Begun
          else if input ! 26 = 1 then Inr Committed
          else if input ! 26 = 2 then Inr Aborted
          else Inl TD_BadState) (\<lambda>state.
       let count = unat (from_le (take 4 (drop 35 input)) :: u32) in
       if count > MAX_TXN_PARTICIPANTS + 1 then Inl TD_Oversized
       else if length input \<noteq> 39 + count * 8 + 32 then Inl TD_Truncated
       else Inr \<lparr> rec_id = take 16 (drop 2 input),
                  rec_coordinator = from_le (take 8 (drop 18 input)),
                  rec_participants =
                    map (\<lambda>index. from_le (take 8 (drop (39 + index * 8) input))) [0..<count],
                  rec_state = state,
                  rec_dir_version = from_le (take 8 (drop 27 input)),
                  rec_digest = drop (39 + count * 8) input \<rparr>))"

section \<open>Lemmas: decisions\<close>

lemma transition_to_ok_iff: "transition_to s t = Inr u \<longleftrightarrow> u = t \<and> (s = t \<or> s = Begun)"
  by (cases s; cases t) auto

lemma decide_ok_iff:
  "decide r d = (r', Inr ()) \<longleftrightarrow>
    (rec_state r = Begun \<or> rec_state r = decision_state d) \<and> r' = r\<lparr>rec_state := decision_state d\<rparr>"
  by (cases d; cases "rec_state r") (auto simp: decide_def)

lemma decide_decided:
  "rec_state r = decision_state d \<Longrightarrow>
    decide r d' = (r, if d' = d then Inr () else Inl TE_DecisionConflict)"
  by (cases d; cases d') (auto simp: decide_def)

section \<open>Lemmas: the effective write set\<close>

lemma collapse_snoc: "collapse (ws @ [w]) = bt_insert (tw_key w) w (collapse ws)"
  by (simp add: collapse_def)

lemma bt_wf_collapse: "bt_wf (collapse ws)"
  by (induction ws rule: rev_induct) (simp_all add: collapse_snoc, simp add: collapse_def)

lemma bt_get_collapse: "bt_get (collapse ws) k = find (\<lambda>w. tw_key w = k) (rev ws)"
  by (induction ws rule: rev_induct) (simp_all add: collapse_snoc, simp add: collapse_def)

lemma collapse_eqI:
  "(\<And>k. find (\<lambda>w. tw_key w = k) (rev ws) = find (\<lambda>w. tw_key w = k) (rev vs)) \<Longrightarrow> collapse ws = collapse vs"
  by (rule bt_wf_ext) (simp_all add: bt_wf_collapse bt_get_collapse)

lemma find_unique:
  assumes "distinct (map f xs)"
  shows "find (\<lambda>x. f x = k) xs = Some x \<longleftrightarrow> x \<in> set xs \<and> f x = k"
  using assms by (induction xs) auto

lemma collapse_set:
  assumes "set ws = set vs" "distinct (map tw_key ws)" "distinct (map tw_key vs)"
  shows "collapse ws = collapse vs"
proof (rule collapse_eqI)
  fix k
  have d: "distinct (map tw_key (rev ws))" "distinct (map tw_key (rev vs))"
    using assms by (simp_all add: rev_map [symmetric])
  show "find (\<lambda>w. tw_key w = k) (rev ws) = find (\<lambda>w. tw_key w = k) (rev vs)"
    using find_unique [OF d(1), of k] find_unique [OF d(2), of k] assms(1)
    by (metis option.exhaust set_rev)
qed

lemma find_append:
  "find P (xs @ ys) = (case find P xs of None \<Rightarrow> find P ys | Some x \<Rightarrow> Some x)"
  by (induction xs) auto

lemma collapse_last_wins:
  "collapse (us @ ws) = collapse (filter (\<lambda>u. tw_key u \<notin> tw_key ` set ws) us @ ws)"
proof (rule collapse_eqI)
  fix k
  show "find (\<lambda>w. tw_key w = k) (rev (us @ ws))
      = find (\<lambda>w. tw_key w = k) (rev (filter (\<lambda>u. tw_key u \<notin> tw_key ` set ws) us @ ws))"
  proof (cases "find (\<lambda>w. tw_key w = k) (rev ws)")
    case None
    then have "k \<notin> tw_key ` set ws" by (auto simp: find_None_iff)
    then have "find (\<lambda>w. tw_key w = k) (rev us)
        = find (\<lambda>w. tw_key w = k) (rev (filter (\<lambda>u. tw_key u \<notin> tw_key ` set ws) us))"
      by (induction us rule: rev_induct) auto
    then show ?thesis using None by (simp add: find_append)
  qed (simp add: find_append)
qed

section \<open>Lemmas: grouping\<close>

fun routed_from :: "(bytes \<Rightarrow> tablet_id option) \<Rightarrow> tablet_id \<Rightarrow> nat \<Rightarrow> txn_write list \<Rightarrow> nat list" where
  "routed_from route t n [] = []"
| "routed_from route t n (w # ws) =
    (if route (tw_key w) = Some t then n # routed_from route t (Suc n) ws
     else routed_from route t (Suc n) ws)"

lemma routed_from_filter:
  "routed_from route t n ws = filter (\<lambda>i. route (tw_key (ws ! (i - n))) = Some t) [n..<n + length ws]"
proof (induction ws arbitrary: n)
  case (Cons w ws)
  have "filter (\<lambda>i. route (tw_key (ws ! (i - Suc n))) = Some t) [Suc n..<Suc n + length ws]
      = filter (\<lambda>i. route (tw_key ((w # ws) ! (i - n))) = Some t) [Suc n..<Suc n + length ws]"
    by (rule filter_cong) (auto simp: nth_Cons' Suc_diff_le)
  then show ?case by (simp add: Cons.IH upt_conv_Cons del: upt_Suc)
qed simp

lemma group_from_ok_iff:
  "(\<exists>g. group_from route n ws groups = Inr g) \<longleftrightarrow> (\<forall>w \<in> set ws. route (tw_key w) \<noteq> None)"
  by (induction ws arbitrary: n groups) (auto split: option.splits)

lemma group_from_error: "group_from route n ws groups = Inl e \<Longrightarrow> e = TE_RoutingChanged"
  by (induction ws arbitrary: n groups) (auto split: option.splits)

lemma group_from_get:
  "group_from route n ws groups = Inr g \<Longrightarrow>
    bt_get g t = (case (bt_get groups t, routed_from route t n ws) of
        (None, []) \<Rightarrow> None | (None, is) \<Rightarrow> Some is | (Some js, is) \<Rightarrow> Some (js @ is))"
  by (induction ws arbitrary: n groups)
    (auto split: option.splits list.splits if_splits)

lemma group_from_wf: "group_from route n ws groups = Inr g \<Longrightarrow> bt_wf groups \<Longrightarrow> bt_wf g"
  by (induction ws arbitrary: n groups) (auto split: option.splits)

lemma group_by_tablet_get:
  assumes "group_by_tablet ws route = Inr g"
  shows "bt_get g t = (case filter (\<lambda>i. route (tw_key (ws ! i)) = Some t) [0..<length ws] of
      [] \<Rightarrow> None | is \<Rightarrow> Some is)"
  using group_from_get [OF assms [unfolded group_by_tablet_def], of t]
  by (simp add: routed_from_filter split: list.splits)

lemma group_by_tablet_keys:
  assumes "group_by_tablet ws route = Inr g"
  shows "set (bt_keys g) = {t. \<exists>w \<in> set ws. route (tw_key w) = Some t}"
proof -
  have "t \<in> set (bt_keys g) \<longleftrightarrow> (\<exists>w \<in> set ws. route (tw_key w) = Some t)" for t
  proof -
    have "t \<in> set (bt_keys g) \<longleftrightarrow> bt_get g t \<noteq> None"
      by (simp add: bt_keys_def bt_get_None_iff)
    also have "\<dots> \<longleftrightarrow> filter (\<lambda>i. route (tw_key (ws ! i)) = Some t) [0..<length ws] \<noteq> []"
      by (simp add: group_by_tablet_get [OF assms] split: list.splits)
    also have "\<dots> \<longleftrightarrow> (\<exists>w \<in> set ws. route (tw_key w) = Some t)"
      by (auto simp: filter_empty_conv) (metis in_set_conv_nth atLeastLessThan_iff le0)+
    finally show ?thesis .
  qed
  then show ?thesis by blast
qed

lemma foldl_min: "foldl min t ts = Min (set (t # ts))" for t :: "'a::linorder"
  unfolding Min.set_eq_fold foldl_conv_fold by (simp add: min.commute)

lemma set_map_filter': "set (List.map_filter f xs) = {y. \<exists>x \<in> set xs. f x = Some y}"
  by (induction xs) (auto simp: List.map_filter_simps split: option.splits)

lemma select_coordinator_eq:
  "select_coordinator ws route =
    (if {t. \<exists>w \<in> set ws. route (tw_key w) = Some t} = {} then None
     else Some (Min {t. \<exists>w \<in> set ws. route (tw_key w) = Some t}))"
  unfolding select_coordinator_def set_map_filter' [symmetric]
  by (auto simp: foldl_min split: list.splits)

lemma hd_sorted_Min:
  "sorted_wrt (<) xs \<Longrightarrow> xs \<noteq> [] \<Longrightarrow> hd xs = Min (set xs)" for xs :: "'a::linorder list"
  by (cases xs) (auto intro!: Min_eqI [symmetric] simp: less_imp_le)

lemma decide_all_decided: "rec_state r = decision_state d \<Longrightarrow> decide_all r ds = r"
  by (induction ds) (simp_all add: decide_all_def decide_decided)

section \<open>Lemmas: escrow and records\<close>

lemma i64_range: "- (2 ^ 63) \<le> sint (x :: i64) \<and> sint x < 2 ^ 63"
  using sint_greater_eq [of x] sint_less [of x] by simp

lemma plan_escrow_transfer_ok_iff:
  assumes "bounded_invariant_holds d" "bounded_invariant_holds r"
  shows "plan_escrow_transfer (es_min (bc_share d), es_max (bc_share d)) (bc_value d)
      (es_min (bc_share r), es_max (bc_share r)) (bc_capacity r) amount = Inr plan \<longleftrightarrow>
    0 < unat amount
    \<and> sint (bc_value d) + int (unat amount) \<le> sint (es_max (bc_share d))
    \<and> sint (es_max (bc_share r)) + int (unat amount) \<le> int (unat (bc_capacity r))
    \<and> plan = ((es_min (bc_share d), es_max (bc_share d) - amount),
              (es_min (bc_share r), es_max (bc_share r) + amount))"
proof (cases "unat amount < 2 ^ 63")
  case False
  then have "int (2 ^ 63) \<le> int (unat amount)" by (intro of_nat_mono) simp
  then have "2 ^ 63 \<le> int (unat amount)" by (simp only: of_nat_power of_nat_numeral)
  moreover have "0 \<le> sint (bc_value d)"
    using assms(1) by (auto simp: bounded_invariant_holds_def split: option.splits)
  ultimately have "\<not> sint (bc_value d) + int (unat amount) \<le> sint (es_max (bc_share d))"
    using i64_range [of "es_max (bc_share d)"] by linarith
  then show ?thesis using False by (simp add: plan_escrow_transfer_def i64_try_from_def Let_def)
next
  case True
  define a where "a = int (unat amount)"
  define dmin dmax dval rmin rmax
    where "dmin = es_min (bc_share d)" and "dmax = es_max (bc_share d)" and "dval = bc_value d"
      and "rmin = es_min (bc_share r)" and "rmax = es_max (bc_share r)"
  have amount: "sint amount = a" "i64_try_from amount = Some amount" "0 \<le> a"
    using True by (simp_all add: sint_of_small i64_try_from_def a_def)
  have cap: "i64_try_from (bc_capacity r) = Some (bc_capacity r)"
    "sint (bc_capacity r) = int (unat (bc_capacity r))"
    using assms(2) by (auto simp: bounded_invariant_holds_def i64_try_from_def sint_of_small
        split: option.splits if_splits)
  have bounds: "0 \<le> sint dmin" "sint dmin \<le> sint dval" "sint dval \<le> sint dmax"
      "sint rmax \<le> int (unat (bc_capacity r))" "int (unat (bc_capacity r)) < 2 ^ 63"
    using assms cap i64_range [of "bc_capacity r"]
    by (auto simp: bounded_invariant_holds_def dmin_def dmax_def dval_def rmax_def split: option.splits)
  have "checked_ssub dmax amount = Some (dmax - amount)"
    using bounds amount i64_range [of dmax] i64_range [of amount]
    by (simp add: checked_ssub_def sint_in_range_def)
  then have sub: "checked_ssub dmax amount = Some (dmax - amount)" "sint (dmax - amount) = sint dmax - a"
    by (auto dest: sint_checked_ssub simp: amount)
  have add: "checked_sadd rmax amount = (if sint rmax + a < 2 ^ 63 then Some (rmax + amount) else None)"
    using bounds amount i64_range [of rmax] by (simp add: checked_sadd_def sint_in_range_def)
  have sum: "sint (rmax + amount) = sint rmax + a" if "sint rmax + a < 2 ^ 63"
    using sint_checked_sadd [of rmax amount "rmax + amount"] that by (simp add: add amount(1))
  have pos: "0 < unat amount \<longleftrightarrow> 0 < a" unfolding a_def by linarith
  show ?thesis
    unfolding pos plan_escrow_transfer_def dmin_def [symmetric] dmax_def [symmetric] dval_def [symmetric]
      rmin_def [symmetric] rmax_def [symmetric] a_def [symmetric]
    using bounds amount(3) sum by (auto simp: amount cap sub add Let_def)
qed

lemma escrow_shares:
  assumes "bounded_invariant_holds d" "bounded_invariant_holds r"
    and "sint (bc_value d) + int (unat amount) \<le> sint (es_max (bc_share d))"
    and "sint (es_max (bc_share r)) + int (unat amount) \<le> int (unat (bc_capacity r))"
  shows "sint (es_max (bc_share d) - amount) = sint (es_max (bc_share d)) - int (unat amount)"
    "sint (es_max (bc_share r) + amount) = sint (es_max (bc_share r)) + int (unat amount)"
proof -
  have bounds: "0 \<le> sint (bc_value d)" "0 \<le> sint (es_max (bc_share r))"
      "int (unat (bc_capacity r)) < 2 ^ 63"
    using assms(1,2) i64_range [of "bc_capacity r"]
    by (auto simp: bounded_invariant_holds_def i64_try_from_def sint_of_small
        simp del: of_nat_unat split: option.splits if_splits)
  have "int (unat amount) < int (2 ^ 63)"
    using bounds assms(3) i64_range [of "es_max (bc_share d)"] by simp
  then have small: "unat amount < 2 ^ 63" by (simp only: of_nat_less_iff)
  note amount = sint_of_small [OF small]
  have "checked_ssub (es_max (bc_share d)) amount = Some (es_max (bc_share d) - amount)"
    unfolding checked_ssub_def sint_in_range_def amount
    using bounds assms(3) i64_range [of "es_max (bc_share d)"] by (simp del: of_nat_unat)
  then show "sint (es_max (bc_share d) - amount) = sint (es_max (bc_share d)) - int (unat amount)"
    using sint_checked_ssub amount by fastforce
  have "checked_sadd (es_max (bc_share r)) amount = Some (es_max (bc_share r) + amount)"
    unfolding checked_sadd_def sint_in_range_def amount
    using bounds assms(4) by (simp del: of_nat_unat)
  then show "sint (es_max (bc_share r) + amount) = sint (es_max (bc_share r)) + int (unat amount)"
    using sint_checked_sadd amount by fastforce
qed

lemma take_drop_concat:
  "i < length ps \<Longrightarrow> take 8 (drop (i * 8) (concat (map (to_le 8) ps) @ rest)) = to_le 8 (ps ! i)"
proof (induction ps arbitrary: i)
  case (Cons p ps)
  show ?case
  proof (cases i)
    case (Suc j)
    then have "drop (i * 8) (concat (map (to_le 8) (p # ps)) @ rest) = drop (j * 8) (concat (map (to_le 8) ps) @ rest)"
      by simp
    then show ?thesis using Suc Cons by simp
  qed simp
qed simp

lemma length_concat_le: "length (concat (map (to_le n) ps)) = length ps * n"
  by (induction ps) simp_all

lemma from_le_take_self [simp]:
  "from_le (to_le 8 (x :: u64)) = x" "from_le (to_le 4 (y :: u32)) = y" "from_le (to_le 2 (z :: u16)) = z"
  by (simp_all add: from_le_to_le take_bit_word_eq_self)

lemma record_round_trip:
  assumes "length (rec_id r) = 16" "length (rec_digest r) = 32"
    and "length (rec_participants r) \<le> MAX_TXN_PARTICIPANTS + 1"
  shows "record_decode (record_encode r) = Inr r"
proof -
  let ?e = "record_encode r"
  have n: "u32_of_len (length (rec_participants r)) = of_nat (length (rec_participants r))"
    "unat (of_nat (length (rec_participants r)) :: u32) = length (rec_participants r)"
    using assms(3) by (simp_all add: u32_of_len_def MAX_TXN_PARTICIPANTS_def unat_of_nat)
  have len: "length ?e = 39 + length (rec_participants r) * 8 + 32"
    using assms by (simp add: record_encode_def length_concat_le)
  have tail: "drop 39 ?e = concat (map (to_le 8) (rec_participants r)) @ rec_digest r"
    using assms(1) by (simp add: record_encode_def)
  have parts: "take 8 (drop (39 + i * 8) ?e) = to_le 8 (rec_participants r ! i)"
    if "i < length (rec_participants r)" for i
  proof -
    have "drop (39 + i * 8) ?e
        = drop (i * 8) (concat (map (to_le 8) (rec_participants r)) @ rec_digest r)"
      unfolding tail [symmetric] by (simp add: add.commute)
    then show ?thesis by (simp only: take_drop_concat [OF that])
  qed
  have participants: "map (\<lambda>i. from_le (take 8 (drop (39 + i * 8) ?e))) [0..<length (rec_participants r)]
      = rec_participants r"
    by (rule nth_equalityI) (simp_all add: parts)
  have fields: "take 2 ?e = to_le 2 TXN_RECORD_VERSION" "take 16 (drop 2 ?e) = rec_id r"
    "take 8 (drop 18 ?e) = to_le 8 (rec_coordinator r)" "?e ! 26 = state_byte (rec_state r)"
    "take 8 (drop 27 ?e) = to_le 8 (rec_dir_version r)"
    "take 4 (drop 35 ?e) = to_le 4 (of_nat (length (rec_participants r)) :: u32)"
    using assms(1) by (simp_all add: record_encode_def n length_concat_le nth_append)
  have digest: "drop (39 + length (rec_participants r) * 8) ?e = rec_digest r"
  proof -
    have "drop (39 + length (rec_participants r) * 8) ?e
        = drop (length (rec_participants r) * 8) (drop 39 ?e)" by (simp add: add.commute)
    then show ?thesis by (simp add: tail length_concat_le)
  qed
  show ?thesis
    using assms(3) len participants
    by (cases "rec_state r") (simp_all add: record_decode_def fields digest n Let_def state_byte_def)
qed

lemma record_key_round_trip:
  "length txn = 16 \<Longrightarrow> parse_txn_record_key (txn_record_key c txn) = Some (c, txn)"
  by (simp add: parse_txn_record_key_def txn_record_key_def TXN_RECORD_KEY_LEN_def
      TXN_RECORD_PREFIX_def ascii_def)

lemma group_by_tablet_error:
  assumes "group_by_tablet ws route = Inl e"
  shows "e = TE_RoutingChanged \<and> (\<exists>w \<in> set ws. route (tw_key w) = None)"
  using assms group_from_error [of route 0 ws "[]" e] group_from_ok_iff [of route 0 ws "[]"]
  by (auto simp: group_by_tablet_def)

lemma group_by_tablet_facts:
  assumes "group_by_tablet ws route = Inr g" "ws \<noteq> []"
  defines "ts \<equiv> {t. \<exists>w \<in> set ws. route (tw_key w) = Some t}"
  shows "\<forall>w \<in> set ws. route (tw_key w) \<noteq> None" "sorted_wrt (<) (bt_keys g)" "set (bt_keys g) = ts"
    "card ts = length g" "select_coordinator ws route = Some (Min ts)"
proof -
  have wf: "bt_wf g" using assms(1) by (auto simp: group_by_tablet_def intro: group_from_wf)
  show keys: "set (bt_keys g) = ts" unfolding ts_def by (rule group_by_tablet_keys [OF assms(1)])
  show "sorted_wrt (<) (bt_keys g)" using wf by (simp add: bt_wf_def bt_keys_def)
  show "card ts = length g"
    using distinct_card [OF bt_wf_distinct [OF wf]] keys by (simp add: bt_keys_def)
  show routed: "\<forall>w \<in> set ws. route (tw_key w) \<noteq> None"
    using assms(1) group_from_ok_iff [of route 0 ws "[]"] by (auto simp: group_by_tablet_def)
  have "ts \<noteq> {}" using routed assms(2) unfolding ts_def by (cases ws) auto
  then show "select_coordinator ws route = Some (Min ts)"
    by (simp add: select_coordinator_eq ts_def)
qed

lemma check_bounds_ok_iff:
  "check_bounds n ws = Inr u \<longleftrightarrow> n \<le> MAX_TXN_PARTICIPANTS \<and> length ws \<le> MAX_TXN_KEYS
    \<and> sum_list (map estimated_bytes ws) \<le> MAX_TXN_BYTES"
  by (auto simp: check_bounds_def)

lemma check_bounds_error:
  "check_bounds n ws = Inl e \<Longrightarrow> e = TE_TooLarge \<and> (n > MAX_TXN_PARTICIPANTS \<or> length ws > MAX_TXN_KEYS
    \<or> sum_list (map estimated_bytes ws) > MAX_TXN_BYTES)"
  by (auto simp: check_bounds_def split: if_splits)

section \<open>Properties\<close>

text \<open>
  C15: A coordinator decision is irreversible.  Once a record accepted a decision, whatever further
  decisions are thrown at it leave it exactly as it is; repeating the decision succeeds and
  contradicting it is reported as a conflict.
\<close>

theorem txn_decision_final:
  assumes "decide r d = (r1, Inr ())"
  shows "decide_all r1 ds = r1
    \<and> decide (decide_all r1 ds) e = (r1, if e = d then Inr () else Inl TE_DecisionConflict)"
proof -
  have "rec_state r1 = decision_state d" using assms by (auto simp: decide_ok_iff)
  then show ?thesis by (simp add: decide_all_decided decide_decided)
qed

definition sample_record :: txn_record where
  "sample_record = \<lparr> rec_id = replicate 16 7, rec_coordinator = 1, rec_participants = [1, 4],
     rec_state = Begun, rec_dir_version = 7, rec_digest = replicate 32 0xAB \<rparr>"

theorem txn_decision_final_witness:
  "decide (decide_all (fst (decide sample_record Commit)) [Abort, Commit]) Abort
    = (sample_record\<lparr>rec_state := Committed\<rparr>, Inl TE_DecisionConflict)"
  using txn_decision_final [of sample_record Commit "fst (decide sample_record Commit)" "[Abort, Commit]" Abort]
  by (simp add: decide_def sample_record_def)

text \<open>
  C16: The two-phase-commit plan.  A plan is produced exactly when the write set is not empty, every
  key routes and the bounds hold, and each failure has its own error.  In a plan every write index
  appears in the group of the tablet its key routes to, in request order, and nowhere else; the
  participants are the routed tablets in ascending order; and the coordinator, the same in the plan
  and in the record to be persisted, is the lowest of them, so it does not depend on the order of
  the writes.
\<close>

theorem plan_transaction_correct:
  "case plan_transaction hash txn writes route dir_version namespace of
     Inl e \<Rightarrow>
       writes = [] \<and> e = TE_TooLarge
       \<or> (\<exists>w \<in> set writes. route (tw_key w) = None) \<and> e = TE_RoutingChanged
       \<or> (card {t. \<exists>w \<in> set writes. route (tw_key w) = Some t} > MAX_TXN_PARTICIPANTS
           \<or> length writes > MAX_TXN_KEYS \<or> sum_list (map estimated_bytes writes) > MAX_TXN_BYTES)
         \<and> e = TE_TooLarge
   | Inr p \<Rightarrow>
       (\<forall>t. bt_get (plan_groups p) t =
         (case filter (\<lambda>i. route (tw_key (writes ! i)) = Some t) [0..<length writes] of
            [] \<Rightarrow> None | is \<Rightarrow> Some is))
       \<and> (\<forall>w \<in> set writes. route (tw_key w) \<noteq> None)
       \<and> sorted_wrt (<) (rec_participants (plan_record p))
       \<and> set (rec_participants (plan_record p)) = {t. \<exists>w \<in> set writes. route (tw_key w) = Some t}
       \<and> rec_coordinator (plan_record p) = plan_coordinator p
       \<and> plan_coordinator p = Min (set (rec_participants (plan_record p)))
       \<and> length (rec_participants (plan_record p)) \<le> MAX_TXN_PARTICIPANTS
       \<and> length writes \<le> MAX_TXN_KEYS \<and> sum_list (map estimated_bytes writes) \<le> MAX_TXN_BYTES"
proof (cases "writes = []")
  case False
  show ?thesis
  proof (cases "group_by_tablet writes route")
    case (Inl e)
    then show ?thesis using False group_by_tablet_error [OF Inl] by (auto simp: plan_transaction_def)
  next
    case (Inr g)
    note g = group_by_tablet_facts [OF Inr False] group_by_tablet_get [OF Inr]
    show ?thesis
    proof (cases "check_bounds (length g) writes")
      case (Inl e)
      then show ?thesis using Inr False g check_bounds_error [OF Inl] by (auto simp: plan_transaction_def)
    next
      case (Inr u)
      then show ?thesis
        using \<open>group_by_tablet writes route = Inr g\<close> False g check_bounds_ok_iff [of "length g" writes u]
        by (simp add: plan_transaction_def) (simp add: bt_keys_def)
    qed
  qed
qed (simp add: plan_transaction_def)

definition sample_write :: "u8 \<Rightarrow> txn_write" where
  "sample_write b = \<lparr> tw_key = [b], tw_kind = W_Put [1, 2], tw_expect = Any \<rparr>"

definition sample_route :: "bytes \<Rightarrow> tablet_id option" where
  "sample_route k = (if k < [5] then Some 1 else Some 2)"

theorem plan_transaction_correct_witness:
  "\<exists>p. plan_transaction id (replicate 16 7) [sample_write 9, sample_write 3, sample_write 8] sample_route 7 3
      = Inr p
    \<and> rec_participants (plan_record p) = [1, 2] \<and> plan_coordinator p = 1
    \<and> bt_get (plan_groups p) 2 = Some [0, 2]"
  using plan_transaction_correct [where hash = id and txn = "replicate 16 7"
      and writes = "[sample_write 9, sample_write 3, sample_write 8]" and route = sample_route
      and dir_version = 7 and namespace = 3]
  by (simp add: plan_transaction_def group_by_tablet_def sample_write_def sample_route_def
      select_coordinator_def List.map_filter_simps check_bounds_def estimated_bytes_def
      MAX_TXN_PARTICIPANTS_def MAX_TXN_KEYS_def MAX_TXN_BYTES_def bt_keys_def bt_get_def)

text \<open>
  The write-set digest is a function of the effective set, whatever the hash function.  Two
  presentations of the same writes under distinct keys, in any order, have the same digest; and a
  write that a later one to the same key overrides does not influence it.
\<close>

theorem write_set_digest_effective:
  assumes "set ws = set vs" "distinct (map tw_key ws)" "distinct (map tw_key vs)"
  shows "write_set_digest hash ws namespace = write_set_digest hash vs namespace
    \<and> write_set_digest hash (us @ ws) namespace
      = write_set_digest hash (filter (\<lambda>u. tw_key u \<notin> tw_key ` set ws) us @ vs) namespace"
proof -
  have "collapse (us @ ws) = collapse (filter (\<lambda>u. tw_key u \<notin> tw_key ` set ws) us @ vs)"
  proof (rule collapse_eqI)
    fix k
    have "collapse ws = collapse vs" by (rule collapse_set [OF assms])
    then have "find (\<lambda>w. tw_key w = k) (rev ws) = find (\<lambda>w. tw_key w = k) (rev vs)"
      by (metis bt_get_collapse)
    moreover have "find (\<lambda>w. tw_key w = k) (rev (us @ ws))
        = find (\<lambda>w. tw_key w = k) (rev (filter (\<lambda>u. tw_key u \<notin> tw_key ` set ws) us @ ws))"
      using collapse_last_wins [of us ws] by (metis bt_get_collapse)
    ultimately show "find (\<lambda>w. tw_key w = k) (rev (us @ ws))
        = find (\<lambda>w. tw_key w = k) (rev (filter (\<lambda>u. tw_key u \<notin> tw_key ` set ws) us @ vs))"
      by (simp add: find_append)
  qed
  then show ?thesis using collapse_set [OF assms] by (simp add: write_set_digest_def)
qed

theorem write_set_digest_effective_witness:
  "write_set_digest id [sample_write 3, sample_write 9] 5 = write_set_digest id [sample_write 9, sample_write 3] 5"
  using write_set_digest_effective [where hash = id and ws = "[sample_write 3, sample_write 9]"
      and vs = "[sample_write 9, sample_write 3]" and us = "[]" and namespace = 5]
  by (simp add: sample_write_def insert_commute)

text \<open>
  The digest does not separate different effective sets: keys and values enter the hash with no
  length in front of them.  Putting one value and deleting a second key has, under every hash
  function and in every namespace, the digest of a single put whose value swallows the second key
  and its delete tag.
\<close>

theorem write_set_digest_ambiguous:
  "write_set_digest hash
      [\<lparr> tw_key = [97], tw_kind = W_Put [98], tw_expect = Any \<rparr>,
       \<lparr> tw_key = [99], tw_kind = W_Delete, tw_expect = Any \<rparr>] namespace
    = write_set_digest hash
      [\<lparr> tw_key = [97], tw_kind = W_Put [98, 99, 2], tw_expect = Any \<rparr>] namespace
   \<and> bt_keys (collapse
      [\<lparr> tw_key = [97], tw_kind = W_Put [98], tw_expect = Any \<rparr>,
       \<lparr> tw_key = [99], tw_kind = W_Delete, tw_expect = Any \<rparr>]) = [[97], [99]]
   \<and> bt_keys (collapse
      [\<lparr> tw_key = [97], tw_kind = W_Put [98, 99, 2], tw_expect = Any \<rparr>]) = [[97]]"
  by (simp add: write_set_digest_def collapse_def bt_values_def bt_keys_def)

text \<open>
  Planning an escrow transfer between two well-formed counters.  A plan exists exactly when the
  amount is positive, the donor's headroom above its live value covers it and the recipient's
  capacity takes it; the plan conserves the total width (so the conservation check accepts it), and
  both counters satisfy their invariant under the shares it assigns.
\<close>

theorem plan_escrow_transfer_correct:
  assumes "bounded_invariant_holds d" "bounded_invariant_holds r"
  shows "case plan_escrow_transfer (es_min (bc_share d), es_max (bc_share d)) (bc_value d)
      (es_min (bc_share r), es_max (bc_share r)) (bc_capacity r) amount of
     Inl e \<Rightarrow>
       unat amount = 0
       \<or> sint (bc_value d) + int (unat amount) > sint (es_max (bc_share d))
       \<or> sint (es_max (bc_share r)) + int (unat amount) > int (unat (bc_capacity r))
   | Inr (d', r') \<Rightarrow>
       0 < unat amount
       \<and> sint (bc_value d) + int (unat amount) \<le> sint (es_max (bc_share d))
       \<and> sint (es_max (bc_share r)) + int (unat amount) \<le> int (unat (bc_capacity r))
       \<and> verify_escrow_widths (es_min (bc_share d), es_max (bc_share d)) d'
         (es_min (bc_share r), es_max (bc_share r)) r' = Inr ()
       \<and> share_width r' = share_width (es_min (bc_share r), es_max (bc_share r)) + int (unat amount)
       \<and> bounded_invariant_holds (d\<lparr>bc_share := (bc_share d)\<lparr>es_min := fst d', es_max := snd d'\<rparr>\<rparr>)
       \<and> bounded_invariant_holds (r\<lparr>bc_share := (bc_share r)\<lparr>es_min := fst r', es_max := snd r'\<rparr>\<rparr>)"
proof (cases "plan_escrow_transfer (es_min (bc_share d), es_max (bc_share d)) (bc_value d)
      (es_min (bc_share r), es_max (bc_share r)) (bc_capacity r) amount")
  case (Inl e)
  then show ?thesis
    using plan_escrow_transfer_ok_iff [OF assms, of amount
        "((es_min (bc_share d), es_max (bc_share d) - amount),
          (es_min (bc_share r), es_max (bc_share r) + amount))"]
    by (auto simp del: of_nat_unat)
next
  case (Inr plan)
  note ok = plan_escrow_transfer_ok_iff [OF assms, of amount plan, THEN iffD1, OF Inr]
  note shares = escrow_shares [OF assms ok [THEN conjunct2, THEN conjunct1]
      ok [THEN conjunct2, THEN conjunct2, THEN conjunct1]]
  show ?thesis
    using assms ok shares Inr i64_try_from_eq_Some_iff [of "bc_capacity r"]
    by (auto simp: verify_escrow_widths_def share_width_def bounded_invariant_holds_def sint_of_small
        simp del: of_nat_unat split: option.splits)
qed

definition sample_counter :: "i64 \<Rightarrow> i64 \<Rightarrow> i64 \<Rightarrow> bounded_counter_state" where
  "sample_counter value mn mx = \<lparr> bc_value = value, bc_capacity = 100,
     bc_share = \<lparr> es_holder = 1, es_min = mn, es_max = mx \<rparr> \<rparr>"

theorem plan_escrow_transfer_correct_witness:
  "plan_escrow_transfer (0, 50) 10 (0, 20) 100 30 = Inr ((0, 20), (0, 50))
    \<and> verify_escrow_widths (0, 50) (0, 20) (0, 20) (0, 50) = Inr ()"
  using plan_escrow_transfer_correct [of "sample_counter 10 0 50" "sample_counter 5 0 20" 30]
  by (simp add: sample_counter_def bounded_invariant_holds_def plan_escrow_transfer_def
      i64_try_from_def checked_ssub_def checked_sadd_def sint_in_range_def)

text \<open>
  C17: The persisted coordinator record and its key are read back exactly, for every record whose
  identifiers have their fixed sizes and whose participant count is within the bound the decoder
  enforces.
\<close>

theorem txn_record_round_trip:
  assumes "length (rec_id r) = 16" "length (rec_digest r) = 32"
    and "length (rec_participants r) \<le> MAX_TXN_PARTICIPANTS + 1"
  shows "record_decode (record_encode r) = Inr r
    \<and> parse_txn_record_key (txn_record_key (rec_coordinator r) (rec_id r))
      = Some (rec_coordinator r, rec_id r)"
  using record_round_trip [OF assms] record_key_round_trip [OF assms(1)] by simp

theorem txn_record_round_trip_witness:
  "record_decode (record_encode sample_record) = Inr sample_record"
  using txn_record_round_trip [of sample_record]
  by (simp add: sample_record_def MAX_TXN_PARTICIPANTS_def)

end
