(* ===== verification/Ops.thy ===== *)
theory Ops
  imports Txn
begin

text \<open>
  The vocabulary of the state machine: the operations clients submit (\<open>ops.rs\<close>), the resolved
  mutations that are replicated (\<open>mutation.rs\<close>), what applying a mutation yields, and the mapping from
  an applied mutation back to the client's result (\<open>outcome_for\<close>).  Constructors carry a prefix for
  the enum they belong to, because the enums share names: \<open>O_\<close> operations, \<open>M_\<close> mutations, \<open>R_\<close>
  results, \<open>A_\<close> apply outcomes, \<open>E_\<close> operation errors, \<open>AE_\<close> apply errors.
\<close>

section \<open>Operations\<close>

datatype set_condition = Always | IfAbsent | IfPresent

datatype expiry_policy = Clear | Keep | ExpireAt wall_timestamp

datatype (plugins only: code size) operation =
    O_Get key
  | O_Set key bytes
  | O_SetChunked key manifest_id u64
  | O_SetFabric key u64 u64 u64
  | O_SetRange key u64 bytes
  | O_Delete key
  | O_Exists key
  | O_CounterGet key
  | O_CounterAdd key i64
  | O_ExpireAt key wall_timestamp
  | O_PersistExpiry key
  | O_GetExpiry key
  | O_GetRange key u64 u64
  | O_BytesLength key
  | O_GetVersion key
  | O_SetConditional key bytes set_condition expiry_policy
  | O_SetConditionalChunked key manifest_id u64 set_condition expiry_policy
  | O_SetConditionalFabric key u64 u64 u64 set_condition expiry_policy
  | O_TxnPrepare txn_id tablet_id txn_write txn_digest
  | O_TxnFinalize txn_id key bool txn_write txn_digest
  | O_TxnCommitLocal txn_id "txn_write list"
  | O_CommutativeAdd key i64
  | O_CommutativeGet key
  | O_BoundedCounterCreate key u64 tablet_id
  | O_BoundedCounterAdd key i64
  | O_BoundedCounterGet key
  | O_EscrowTransfer key i64 i64
  | O_SemaphoreCreate key u64
  | O_SemaphoreAcquire key permit_id u64 u64
  | O_SemaphoreRelease key permit_id
  | O_SemaphoreInspect key
  | O_LeaseAcquire key u64 u64
  | O_LeaseRenew key u64 fencing_token u64
  | O_LeaseRelease key u64 fencing_token
  | O_LeaseInspect key
  | O_StreamCreate key bytes u32
  | O_StreamAppend key bytes bytes
  | O_StreamRead key u64 u32
  | O_StreamTrim key u64

text \<open>\<open>Operation::key\<close>; \<^term>\<open>None\<close> is the panic on an empty local commit.\<close>

fun operation_key :: "operation \<Rightarrow> key option" where
  "operation_key (O_Get k) = Some k"
| "operation_key (O_Set k _) = Some k"
| "operation_key (O_SetChunked k _ _) = Some k"
| "operation_key (O_SetFabric k _ _ _) = Some k"
| "operation_key (O_SetRange k _ _) = Some k"
| "operation_key (O_Delete k) = Some k"
| "operation_key (O_Exists k) = Some k"
| "operation_key (O_CounterGet k) = Some k"
| "operation_key (O_CounterAdd k _) = Some k"
| "operation_key (O_ExpireAt k _) = Some k"
| "operation_key (O_PersistExpiry k) = Some k"
| "operation_key (O_GetExpiry k) = Some k"
| "operation_key (O_GetRange k _ _) = Some k"
| "operation_key (O_BytesLength k) = Some k"
| "operation_key (O_GetVersion k) = Some k"
| "operation_key (O_SetConditional k _ _ _) = Some k"
| "operation_key (O_SetConditionalChunked k _ _ _ _) = Some k"
| "operation_key (O_SetConditionalFabric k _ _ _ _ _) = Some k"
| "operation_key (O_TxnFinalize _ k _ _ _) = Some k"
| "operation_key (O_CommutativeAdd k _) = Some k"
| "operation_key (O_CommutativeGet k) = Some k"
| "operation_key (O_BoundedCounterCreate k _ _) = Some k"
| "operation_key (O_BoundedCounterAdd k _) = Some k"
| "operation_key (O_BoundedCounterGet k) = Some k"
| "operation_key (O_EscrowTransfer k _ _) = Some k"
| "operation_key (O_SemaphoreCreate k _) = Some k"
| "operation_key (O_SemaphoreAcquire k _ _ _) = Some k"
| "operation_key (O_SemaphoreRelease k _) = Some k"
| "operation_key (O_SemaphoreInspect k) = Some k"
| "operation_key (O_LeaseAcquire k _ _) = Some k"
| "operation_key (O_LeaseRenew k _ _ _) = Some k"
| "operation_key (O_LeaseRelease k _ _) = Some k"
| "operation_key (O_LeaseInspect k) = Some k"
| "operation_key (O_StreamCreate k _ _) = Some k"
| "operation_key (O_StreamAppend k _ _) = Some k"
| "operation_key (O_StreamRead k _ _) = Some k"
| "operation_key (O_StreamTrim k _) = Some k"
| "operation_key (O_TxnPrepare _ _ w _) = Some (tw_key w)"
| "operation_key (O_TxnCommitLocal _ ws) = (case ws of [] \<Rightarrow> None | w # _ \<Rightarrow> Some (tw_key w))"

definition is_mutating :: "operation \<Rightarrow> bool" where
  "is_mutating op =
    (case op of
       O_Get _ \<Rightarrow> False
     | O_Exists _ \<Rightarrow> False
     | O_CounterGet _ \<Rightarrow> False
     | O_GetExpiry _ \<Rightarrow> False
     | O_GetRange _ _ _ \<Rightarrow> False
     | O_GetVersion _ \<Rightarrow> False
     | O_BytesLength _ \<Rightarrow> False
     | O_CommutativeGet _ \<Rightarrow> False
     | O_BoundedCounterGet _ \<Rightarrow> False
     | O_LeaseInspect _ \<Rightarrow> False
     | O_SemaphoreInspect _ \<Rightarrow> False
     | O_StreamRead _ _ _ \<Rightarrow> False
     | _ \<Rightarrow> True)"

section \<open>Results and errors\<close>

datatype (plugins only: code size) operation_result =
    R_Value "bytes option"
  | R_ChunkedValue manifest_id u64
  | R_FabricValue u64 u64 u64
  | R_Stored object_version
  | R_Deleted bool
  | R_Exists bool
  | R_Counter "i64 option"
  | R_CounterUpdated i64 object_version
  | R_ExpirySet bool
  | R_ExpiryPersisted bool
  | R_Expiry "expiry option"
  | R_Length "u64 option"
  | R_Version "object_version option"
  | R_ConditionalSet bool "object_version option"
  | R_TxnPrepared
  | R_TxnConflict
  | R_TxnFinalized bool "object_version option"
  | R_TxnLocalCommitted "object_version option list"
  | R_CommutativeApplied
  | R_CommutativeValue "i64 option"
  | R_BoundedUpdated i64 object_version
  | R_BoundedValue "i64 option" "u64 option" "(i64 \<times> i64) option"
  | R_SemaphoreAcquired
  | R_SemaphoreReleased bool
  | R_SemaphoreLoad u64 u64
  | R_LeaseAcquired fencing_token wall_timestamp
  | R_LeaseRenewed fencing_token wall_timestamp
  | R_LeaseReleased bool
  | R_LeaseInfo "lease_holder option" fencing_token
  | R_StreamCreated
  | R_StreamAppended u64
  | R_StreamEntries "stream_entry list" u64
  | R_StreamTrimmed u64

datatype (plugins only: code size) op_error =
    E_WrongType object_type object_type
  | E_CounterOverflow
  | E_StaleRangeBase
  | E_TxnConflict
  | E_BoundedExceeded
  | E_SemaphoreExhausted
  | E_LeaseConflict
  | E_StaleFencing
  | E_StreamFull
  | E_NotFound

datatype durable_outcome =
    D_Completed operation_result
  | D_Rejected op_error
  | D_VersionExhausted

section \<open>Mutations\<close>

datatype (plugins only: code size) mutation =
    M_PutBytes key bytes
  | M_Delete key
  | M_CounterAdd key i64
  | M_SetExpiry key expiry
  | M_ReplaceChunkedRoot key manifest_id u64
  | M_ReplaceFabricRoot key u64 u64 u64
  | M_SpliceBytes key u64 bytes
  | M_PutBytesWithExpiry key bytes expiry
  | M_ReplaceChunkedRootWithExpiry key manifest_id u64 expiry
  | M_ReplaceFabricRootWithExpiry key u64 u64 u64 expiry
  | M_TxnPrepare txn_id u64 key txn_expect txn_write_kind txn_digest
  | M_TxnFinalize txn_id key bool txn_write txn_digest
  | M_TxnCommitLocal txn_id "txn_write list"
  | M_CommutativeAdd key i64
  | M_BoundedCreate key u64 u64
  | M_BoundedAdd key i64
  | M_EscrowSetShare key i64 i64
  | M_SemaphoreCreate key u64
  | M_SemaphoreAcquire key permit_id u64 u64
  | M_SemaphoreRelease key permit_id
  | M_LeaseAcquire key u64 fencing_token wall_timestamp
  | M_LeaseRenew key u64 fencing_token wall_timestamp
  | M_LeaseRelease key u64 fencing_token
  | M_StreamCreate key bytes u32
  | M_StreamAppend key bytes bytes
  | M_StreamTrim key u64

text \<open>\<open>Mutation::key\<close>; \<^term>\<open>None\<close> is the panic on an empty local commit.\<close>

fun mutation_key :: "mutation \<Rightarrow> key option" where
  "mutation_key (M_PutBytes k _) = Some k"
| "mutation_key (M_Delete k) = Some k"
| "mutation_key (M_CounterAdd k _) = Some k"
| "mutation_key (M_SetExpiry k _) = Some k"
| "mutation_key (M_ReplaceChunkedRoot k _ _) = Some k"
| "mutation_key (M_ReplaceFabricRoot k _ _ _) = Some k"
| "mutation_key (M_SpliceBytes k _ _) = Some k"
| "mutation_key (M_PutBytesWithExpiry k _ _) = Some k"
| "mutation_key (M_ReplaceChunkedRootWithExpiry k _ _ _) = Some k"
| "mutation_key (M_ReplaceFabricRootWithExpiry k _ _ _ _) = Some k"
| "mutation_key (M_TxnPrepare _ _ k _ _ _) = Some k"
| "mutation_key (M_TxnFinalize _ k _ _ _) = Some k"
| "mutation_key (M_CommutativeAdd k _) = Some k"
| "mutation_key (M_BoundedCreate k _ _) = Some k"
| "mutation_key (M_BoundedAdd k _) = Some k"
| "mutation_key (M_EscrowSetShare k _ _) = Some k"
| "mutation_key (M_SemaphoreCreate k _) = Some k"
| "mutation_key (M_SemaphoreAcquire k _ _ _) = Some k"
| "mutation_key (M_SemaphoreRelease k _) = Some k"
| "mutation_key (M_LeaseAcquire k _ _ _) = Some k"
| "mutation_key (M_LeaseRenew k _ _ _) = Some k"
| "mutation_key (M_LeaseRelease k _ _) = Some k"
| "mutation_key (M_StreamCreate k _ _) = Some k"
| "mutation_key (M_StreamAppend k _ _) = Some k"
| "mutation_key (M_StreamTrim k _) = Some k"
| "mutation_key (M_TxnCommitLocal _ ws) = (case ws of [] \<Rightarrow> None | w # _ \<Rightarrow> Some (tw_key w))"

text \<open>\<open>Mutation::keys\<close>: each key of a local commit once, in first-seen order.\<close>

fun first_seen :: "key list \<Rightarrow> txn_write list \<Rightarrow> key list" where
  "first_seen seen [] = []"
| "first_seen seen (w # ws) =
    (if tw_key w \<in> set seen then first_seen seen ws
     else tw_key w # first_seen (tw_key w # seen) ws)"

definition mutation_keys :: "mutation \<Rightarrow> key list" where
  "mutation_keys m =
    (case m of
       M_TxnCommitLocal _ ws \<Rightarrow> first_seen [] ws
     | _ \<Rightarrow> (case mutation_key m of None \<Rightarrow> [] | Some k \<Rightarrow> [k]))"

datatype (plugins only: code size) apply_outcome =
    A_Put object_version
  | A_Deleted bool
  | A_Counter object_version i64
  | A_Expiry bool "object_version option"
  | A_TxnPrepared
  | A_TxnConflict
  | A_TxnFinalized bool "object_version option"
  | A_Commutative object_version i64
  | A_Bounded object_version i64
  | A_SemaphoreAcquired
  | A_SemaphoreReleased bool
  | A_LeaseGranted fencing_token wall_timestamp
  | A_LeaseReleased bool
  | A_StreamAppended u64
  | A_StreamTrimmed u64
  | A_TxnLocalCommitted "object_version option list"

text \<open>\<open>AE_Panic\<close> is not an error of the code: it marks its panics (\<open>unreachable!\<close>, \<open>expect\<close>).\<close>

datatype (plugins only: code size) apply_error =
    AE_VersionExhausted
  | AE_CounterOverflow
  | AE_TypeMismatch object_type object_type
  | AE_UnresolvableSplice
  | AE_TxnDiverged
  | AE_BoundedExceeded
  | AE_SemaphoreExhausted
  | AE_LeaseConflict
  | AE_StreamFull
  | AE_Panic

section \<open>From outcomes to results\<close>

definition outcome_for_semantic :: "mutation \<Rightarrow> apply_outcome \<Rightarrow> operation_result option" where
  "outcome_for_semantic m out =
    (case m of
       M_CommutativeAdd _ _ \<Rightarrow>
         (case out of A_Commutative _ _ \<Rightarrow> Some R_CommutativeApplied | _ \<Rightarrow> None)
     | M_BoundedCreate _ _ _ \<Rightarrow> (case out of A_Put version \<Rightarrow> Some (R_Stored version) | _ \<Rightarrow> None)
     | M_EscrowSetShare _ _ _ \<Rightarrow> (case out of A_Put version \<Rightarrow> Some (R_Stored version) | _ \<Rightarrow> None)
     | M_SemaphoreCreate _ _ \<Rightarrow> (case out of A_Put version \<Rightarrow> Some (R_Stored version) | _ \<Rightarrow> None)
     | M_BoundedAdd _ _ \<Rightarrow>
         (case out of A_Bounded version value \<Rightarrow> Some (R_BoundedUpdated value version) | _ \<Rightarrow> None)
     | M_SemaphoreAcquire _ _ _ _ \<Rightarrow>
         (case out of A_SemaphoreAcquired \<Rightarrow> Some R_SemaphoreAcquired | _ \<Rightarrow> None)
     | M_SemaphoreRelease _ _ \<Rightarrow>
         (case out of A_SemaphoreReleased released \<Rightarrow> Some (R_SemaphoreReleased released) | _ \<Rightarrow> None)
     | M_LeaseAcquire _ _ _ _ \<Rightarrow>
         (case out of A_LeaseGranted fencing expires_at \<Rightarrow> Some (R_LeaseAcquired fencing expires_at)
          | _ \<Rightarrow> None)
     | M_LeaseRenew _ _ _ _ \<Rightarrow>
         (case out of A_LeaseGranted fencing expires_at \<Rightarrow> Some (R_LeaseRenewed fencing expires_at)
          | _ \<Rightarrow> None)
     | M_LeaseRelease _ _ _ \<Rightarrow>
         (case out of A_LeaseReleased released \<Rightarrow> Some (R_LeaseReleased released) | _ \<Rightarrow> None)
     | M_StreamCreate _ _ _ \<Rightarrow> (case out of A_Put _ \<Rightarrow> Some R_StreamCreated | _ \<Rightarrow> None)
     | M_StreamAppend _ _ _ \<Rightarrow>
         (case out of A_StreamAppended offset \<Rightarrow> Some (R_StreamAppended offset) | _ \<Rightarrow> None)
     | M_StreamTrim _ _ \<Rightarrow>
         (case out of A_StreamTrimmed removed \<Rightarrow> Some (R_StreamTrimmed removed) | _ \<Rightarrow> None)
     | M_TxnCommitLocal _ _ \<Rightarrow>
         (case out of A_TxnLocalCommitted versions \<Rightarrow> Some (R_TxnLocalCommitted versions) | _ \<Rightarrow> None)
     | _ \<Rightarrow> None)"

definition outcome_stored :: "apply_outcome \<Rightarrow> operation_result option" where
  "outcome_stored out = (case out of A_Put version \<Rightarrow> Some (R_Stored version) | _ \<Rightarrow> None)"

definition outcome_conditional :: "apply_outcome \<Rightarrow> operation_result option" where
  "outcome_conditional out =
    (case out of A_Put version \<Rightarrow> Some (R_ConditionalSet True (Some version)) | _ \<Rightarrow> None)"

text \<open>\<open>outcome_for\<close>; \<^term>\<open>None\<close> is its panic on a pair outside the contract.\<close>

definition outcome_for :: "mutation \<Rightarrow> apply_outcome \<Rightarrow> bool \<Rightarrow> operation_result option" where
  "outcome_for m out is_persist_expiry =
    (case outcome_for_semantic m out of
       Some r \<Rightarrow> Some r
     | None \<Rightarrow>
         (case m of
            M_PutBytes _ _ \<Rightarrow> outcome_stored out
          | M_ReplaceChunkedRoot _ _ _ \<Rightarrow> outcome_stored out
          | M_ReplaceFabricRoot _ _ _ _ \<Rightarrow> outcome_stored out
          | M_SpliceBytes _ _ _ \<Rightarrow> outcome_stored out
          | M_PutBytesWithExpiry _ _ _ \<Rightarrow> outcome_conditional out
          | M_ReplaceChunkedRootWithExpiry _ _ _ _ \<Rightarrow> outcome_conditional out
          | M_ReplaceFabricRootWithExpiry _ _ _ _ _ \<Rightarrow> outcome_conditional out
          | M_Delete _ \<Rightarrow> (case out of A_Deleted existed \<Rightarrow> Some (R_Deleted existed) | _ \<Rightarrow> None)
          | M_CounterAdd _ _ \<Rightarrow>
              (case out of A_Counter version value \<Rightarrow> Some (R_CounterUpdated value version) | _ \<Rightarrow> None)
          | M_SetExpiry _ _ \<Rightarrow>
              (case out of
                 A_Expiry applied _ \<Rightarrow>
                   Some (if is_persist_expiry then R_ExpiryPersisted applied else R_ExpirySet applied)
               | _ \<Rightarrow> None)
          | M_TxnPrepare _ _ _ _ _ _ \<Rightarrow>
              (case out of A_TxnPrepared \<Rightarrow> Some R_TxnPrepared | A_TxnConflict \<Rightarrow> Some R_TxnConflict
               | _ \<Rightarrow> None)
          | M_TxnFinalize _ _ _ _ _ \<Rightarrow>
              (case out of
                 A_TxnFinalized applied version \<Rightarrow> Some (R_TxnFinalized applied version)
               | A_Put version \<Rightarrow> Some (R_TxnFinalized True (Some version))
               | A_Counter version _ \<Rightarrow> Some (R_TxnFinalized True (Some version))
               | A_Deleted _ \<Rightarrow> Some (R_TxnFinalized True None)
               | _ \<Rightarrow> None)
          | _ \<Rightarrow> None))"

end
