(* ===== verification/Store.thy ===== *)
theory Store
  imports Ops
begin

text \<open>
  The tablet-local object store, \<open>crates/kivi-state/src/store.rs\<close>, on its write path: the state, the
  ordered-key index, \<open>apply\<close> with one definition for each arm of \<open>apply_inner\<close>, the transaction arms,
  the atomic local commit and the paired escrow transfer.

  The store is passed explicitly.  A function with a \<open>&mut self\<close> receiver returns the store it leaves
  behind together with its result, also when the result is an error, so a partial update before an
  error is visible in the model.
\<close>

section \<open>State\<close>

record object_store =
  objects :: "(key, stored_object) bmap"
  ordered :: "key list option"
  intents :: "(key, txn_intent) bmap"

definition store_new :: object_store where
  "store_new = \<lparr> objects = [], ordered = None, intents = [] \<rparr>"

definition store_get :: "object_store \<Rightarrow> key \<Rightarrow> wall_timestamp \<Rightarrow> stored_object option" where
  "store_get s k now =
    (case bt_get (objects s) k of
       None \<Rightarrow> None
     | Some obj \<Rightarrow> if so_is_expired obj now then None else Some obj)"

definition live :: "object_store \<Rightarrow> key \<Rightarrow> wall_timestamp \<Rightarrow> stored_object option" where
  "live s k now = store_get s k now"

definition get_stored :: "object_store \<Rightarrow> key \<Rightarrow> stored_object option" where
  "get_stored s k = bt_get (objects s) k"

definition version_of :: "object_store \<Rightarrow> key \<Rightarrow> object_version" where
  "version_of s k = (case bt_get (objects s) k of None \<Rightarrow> version_FIRST | Some obj \<Rightarrow> so_version obj)"

definition expiry_of :: "object_store \<Rightarrow> key \<Rightarrow> expiry" where
  "expiry_of s k = (case bt_get (objects s) k of None \<Rightarrow> expiry_NEVER | Some obj \<Rightarrow> so_expiry obj)"

definition next_version ::
    "object_store \<Rightarrow> key \<Rightarrow> wall_timestamp \<Rightarrow> version_exhausted + object_version" where
  "next_version s k now =
    (case live s k now of
       None \<Rightarrow> Inr version_FIRST
     | Some obj \<Rightarrow> object_version_next (so_version obj))"

definition insert_object :: "object_store \<Rightarrow> key \<Rightarrow> stored_object \<Rightarrow> object_store" where
  "insert_object s k obj = s\<lparr>objects := bt_insert k obj (objects s)\<rparr>"

definition note_stored :: "object_store \<Rightarrow> key \<Rightarrow> object_store" where
  "note_stored s k = s\<lparr>ordered := map_option (bts_insert k) (ordered s)\<rparr>"

definition note_removed :: "object_store \<Rightarrow> key \<Rightarrow> object_store" where
  "note_removed s k = s\<lparr>ordered := map_option (bts_remove k) (ordered s)\<rparr>"

definition put_stored :: "object_store \<Rightarrow> key \<Rightarrow> stored_object \<Rightarrow> object_store" where
  "put_stored s k obj = insert_object (note_stored s k) k obj"

definition remove_stored :: "object_store \<Rightarrow> key \<Rightarrow> object_store" where
  "remove_stored s k = note_removed (s\<lparr>objects := bt_remove k (objects s)\<rparr>) k"

definition restore_intent :: "object_store \<Rightarrow> txn_intent \<Rightarrow> object_store" where
  "restore_intent s i = s\<lparr>intents := bt_insert (in_key i) i (intents s)\<rparr>"

definition rebuild_ordered_index :: "object_store \<Rightarrow> object_store" where
  "rebuild_ordered_index s = s\<lparr>ordered := Some (foldr bts_insert (bt_keys (objects s)) [])\<rparr>"

definition set_ordered_indexing :: "object_store \<Rightarrow> bool \<Rightarrow> object_store" where
  "set_ordered_indexing s enabled =
    (if enabled then rebuild_ordered_index s else s\<lparr>ordered := None\<rparr>)"

definition verify_ordered_index :: "object_store \<Rightarrow> bool" where
  "verify_ordered_index s =
    (case ordered s of
       None \<Rightarrow> True
     | Some index \<Rightarrow>
         length index = length (objects s) \<and> list_all (\<lambda>k. bt_get (objects s) k \<noteq> None) index)"

definition collect_expired :: "object_store \<Rightarrow> wall_timestamp \<Rightarrow> nat \<Rightarrow> key list" where
  "collect_expired s now limit =
    take limit (sort (map fst (filter (\<lambda>e. so_is_expired (snd e) now) (objects s))))"

definition snapshot_sorted :: "object_store \<Rightarrow> (key \<times> stored_object) list" where
  "snapshot_sorted s = sort_key fst (objects s)"

section \<open>Byte ranges\<close>

text \<open>
  A \<open>u64\<close> offset fits \<open>usize\<close> on the 64-bit targets; a slice is shorter than the address space.
\<close>

definition splice_inline :: "bytes \<Rightarrow> u64 \<Rightarrow> bytes \<Rightarrow> bytes option" where
  "splice_inline base offset patch =
    (let off = unat offset; stop = off + length patch in
     if stop < 2 ^ 64 then
       Some (take off base @ replicate (off - length base) 0 @ patch @
             (if length base > stop then drop stop base else []))
     else None)"

definition slice_range :: "bytes \<Rightarrow> u64 \<Rightarrow> u64 \<Rightarrow> bytes" where
  "slice_range base offset len =
    (let start = min (unat offset) (length base);
         available = length base - start;
         n = min (unat len) available in
     take n (drop start base))"

section \<open>Validation helpers\<close>

definition check_txn_expectation :: "txn_expect \<Rightarrow> stored_object option \<Rightarrow> op_error + unit" where
  "check_txn_expectation expect cur =
    (let holds = (case expect of
        Any \<Rightarrow> True
      | Absent \<Rightarrow> cur = None
      | Version version \<Rightarrow> map_option so_version cur = Some version) in
     if holds then Inr () else Inl E_TxnConflict)"

definition bounded_add_preview :: "bounded_counter_state \<Rightarrow> i64 \<Rightarrow> op_error + i64" where
  "bounded_add_preview st delta =
    and_then (ok_or E_CounterOverflow (checked_sadd (bc_value st) delta)) (\<lambda>next.
    case i64_try_from (bc_capacity st) of
      None \<Rightarrow> Inl E_BoundedExceeded
    | Some capacity \<Rightarrow>
        if sint next < 0 \<or> sint next > sint capacity then Inl E_BoundedExceeded
        else if sint next < sint (es_min (bc_share st)) \<or> sint next > sint (es_max (bc_share st))
        then Inl E_BoundedExceeded
        else Inr next)"

definition escrow_share_valid :: "i64 \<Rightarrow> u64 \<Rightarrow> i64 \<Rightarrow> i64 \<Rightarrow> bool" where
  "escrow_share_valid value capacity mn mx =
    (case i64_try_from capacity of
       None \<Rightarrow> False
     | Some cap \<Rightarrow>
         0 \<le> sint mn \<and> sint mn \<le> sint mx \<and> sint mx \<le> sint cap
         \<and> sint mn \<le> sint value \<and> sint value \<le> sint mx)"

definition check_txn_writable :: "txn_write_kind \<Rightarrow> stored_object option \<Rightarrow> op_error + unit" where
  "check_txn_writable kind cur =
    (case kind of
       W_CounterAdd delta \<Rightarrow>
         (case map_option so_value cur of
            None \<Rightarrow> Inr ()
          | Some (V_StrictCounter value) \<Rightarrow>
              map_ok (\<lambda>_. ()) (ok_or E_CounterOverflow (checked_sadd value delta))
          | Some value \<Rightarrow> Inl (E_WrongType T_StrictCounter (object_type_of value)))
     | W_CommutativeAdd delta \<Rightarrow>
         (case map_option so_value cur of
            None \<Rightarrow> Inr ()
          | Some (V_CommutativeCounter value) \<Rightarrow>
              map_ok (\<lambda>_. ()) (ok_or E_CounterOverflow (checked_sadd value delta))
          | Some value \<Rightarrow> Inl (E_WrongType T_CommutativeCounter (object_type_of value)))
     | W_BoundedAdd delta \<Rightarrow>
         (case map_option so_value cur of
            None \<Rightarrow> Inl E_BoundedExceeded
          | Some (V_BoundedCounter st) \<Rightarrow> map_ok (\<lambda>_. ()) (bounded_add_preview st delta)
          | Some value \<Rightarrow> Inl (E_WrongType T_BoundedCounter (object_type_of value)))
     | W_EscrowSetShare mn mx \<Rightarrow>
         (case map_option so_value cur of
            None \<Rightarrow> Inl E_BoundedExceeded
          | Some (V_BoundedCounter st) \<Rightarrow>
              if escrow_share_valid (bc_value st) (bc_capacity st) mn mx then Inr ()
              else Inl E_BoundedExceeded
          | Some value \<Rightarrow> Inl (E_WrongType T_BoundedCounter (object_type_of value)))
     | _ \<Rightarrow> Inr ())"

definition preview_counter_add ::
    "stored_object option \<Rightarrow> i64 \<Rightarrow> object_type \<Rightarrow> apply_error + unit" where
  "preview_counter_add cur delta expected =
    (case cur of
       None \<Rightarrow> Inr ()
     | Some obj \<Rightarrow>
         and_then
           (case (expected, so_value obj) of
              (T_StrictCounter, V_StrictCounter value) \<Rightarrow> Inr value
            | (T_CommutativeCounter, V_CommutativeCounter value) \<Rightarrow> Inr value
            | (_, found) \<Rightarrow> Inl (AE_TypeMismatch expected (object_type_of found)))
           (\<lambda>value. map_ok (\<lambda>_. ()) (ok_or AE_CounterOverflow (checked_sadd value delta))))"

definition MAX_LEASE_TTL_MICROS :: nat where
  "MAX_LEASE_TTL_MICROS = 100 * 365 * 24 * 3600 * 1000000"

definition saturating_sadd :: "i64 \<Rightarrow> i64 \<Rightarrow> i64" where
  "saturating_sadd a b =
    (case checked_sadd a b of
       Some c \<Rightarrow> c
     | None \<Rightarrow> if sint b < 0 then of_int (- (2 ^ 63)) else of_int (2 ^ 63 - 1))"

definition lease_expires_at :: "wall_timestamp \<Rightarrow> u64 \<Rightarrow> wall_timestamp" where
  "lease_expires_at now ttl_micros =
    (if ttl_micros = 0 then of_int (2 ^ 63 - 1)
     else saturating_sadd now (of_nat (min (unat ttl_micros) MAX_LEASE_TTL_MICROS)))"

definition lease_live :: "lease_state \<Rightarrow> wall_timestamp \<Rightarrow> lease_holder option" where
  "lease_live st now =
    (case ls_holder st of
       None \<Rightarrow> None
     | Some h \<Rightarrow> if sint now < sint (lh_expires_at h) then Some h else None)"

section \<open>Applying ordinary mutations\<close>

type_synonym applied = "object_store \<times> (apply_error + apply_outcome)"

text \<open>
  Two update patterns recur in the arms: replacing the value at its next version (a fresh key starts
  at the first version), and updating a live value in place, keeping its expiry.
\<close>

definition replace_value ::
    "object_store \<Rightarrow> key \<Rightarrow> (object_version \<Rightarrow> logical_value) \<Rightarrow> expiry \<Rightarrow> wall_timestamp \<Rightarrow> applied" where
  "replace_value s k value expiry now =
    (case next_version s k now of
       Inl _ \<Rightarrow> (s, Inl AE_VersionExhausted)
     | Inr version \<Rightarrow> (insert_object s k (stored_new (value version) version expiry), Inr (A_Put version)))"

definition update_value ::
    "object_store \<Rightarrow> key \<Rightarrow> logical_value \<Rightarrow> (object_version \<Rightarrow> apply_outcome) \<Rightarrow> applied" where
  "update_value s k value out =
    (case object_version_next (version_of s k) of
       Inl _ \<Rightarrow> (s, Inl AE_VersionExhausted)
     | Inr version \<Rightarrow> (insert_object s k (stored_new value version (expiry_of s k)), Inr (out version)))"

definition mismatch :: "object_store \<Rightarrow> object_type \<Rightarrow> stored_object \<Rightarrow> applied" where
  "mismatch s expected obj = (s, Inl (AE_TypeMismatch expected (so_object_type obj)))"

definition apply_put_bytes :: "object_store \<Rightarrow> key \<Rightarrow> bytes \<Rightarrow> wall_timestamp \<Rightarrow> applied" where
  "apply_put_bytes s k value now = replace_value s k (\<lambda>_. V_Bytes value) expiry_NEVER now"

definition apply_put_bytes_with_expiry ::
    "object_store \<Rightarrow> key \<Rightarrow> bytes \<Rightarrow> expiry \<Rightarrow> wall_timestamp \<Rightarrow> applied" where
  "apply_put_bytes_with_expiry s k value expiry now = replace_value s k (\<lambda>_. V_Bytes value) expiry now"

definition apply_replace_chunked ::
    "object_store \<Rightarrow> key \<Rightarrow> manifest_id \<Rightarrow> u64 \<Rightarrow> expiry \<Rightarrow> wall_timestamp \<Rightarrow> applied" where
  "apply_replace_chunked s k manifest logical_len expiry now =
    replace_value s k (\<lambda>_. V_Chunked \<lparr> cr_manifest = manifest, cr_logical_len = logical_len \<rparr>) expiry now"

definition apply_replace_fabric ::
    "object_store \<Rightarrow> key \<Rightarrow> u64 \<Rightarrow> u64 \<Rightarrow> expiry \<Rightarrow> wall_timestamp \<Rightarrow> applied" where
  "apply_replace_fabric s k fabric_id logical_len expiry now =
    replace_value s k
      (\<lambda>version. V_Fabric \<lparr> fr_id = fabric_id, fr_logical_len = logical_len, fr_version = version \<rparr>)
      expiry now"

definition apply_splice_bytes ::
    "object_store \<Rightarrow> key \<Rightarrow> u64 \<Rightarrow> bytes \<Rightarrow> wall_timestamp \<Rightarrow> applied" where
  "apply_splice_bytes s k offset patch now =
    (let base =
       (case live s k now of
          None \<Rightarrow> Inr ([], expiry_NEVER)
        | Some current \<Rightarrow>
            (case so_value current of
               V_Bytes value \<Rightarrow> Inr (value, so_expiry current)
             | V_Chunked _ \<Rightarrow> Inl AE_UnresolvableSplice
             | V_Fabric _ \<Rightarrow> Inl AE_UnresolvableSplice
             | _ \<Rightarrow> Inl (AE_TypeMismatch T_Bytes (so_object_type current)))) in
     case base of
       Inl e \<Rightarrow> (s, Inl e)
     | Inr (bytes, expiry) \<Rightarrow>
         (case splice_inline bytes offset patch of
            None \<Rightarrow> (s, Inl AE_UnresolvableSplice)
          | Some spliced \<Rightarrow> replace_value s k (\<lambda>_. V_Bytes spliced) expiry now))"

definition apply_delete :: "object_store \<Rightarrow> key \<Rightarrow> wall_timestamp \<Rightarrow> applied" where
  "apply_delete s k now =
    (s\<lparr>objects := bt_remove k (objects s)\<rparr>, Inr (A_Deleted (live s k now \<noteq> None)))"

definition apply_counter_add :: "object_store \<Rightarrow> key \<Rightarrow> i64 \<Rightarrow> wall_timestamp \<Rightarrow> applied" where
  "apply_counter_add s k delta now =
    (case live s k now of
       None \<Rightarrow>
         (insert_object s k (stored_new (V_StrictCounter delta) version_FIRST expiry_NEVER),
          Inr (A_Counter version_FIRST delta))
     | Some current \<Rightarrow>
         (case so_value current of
            V_StrictCounter value \<Rightarrow>
              (case checked_sadd value delta of
                 None \<Rightarrow> (s, Inl AE_CounterOverflow)
               | Some next \<Rightarrow>
                   update_value s k (V_StrictCounter next) (\<lambda>version. A_Counter version next))
          | _ \<Rightarrow> mismatch s T_StrictCounter current))"

definition apply_set_expiry :: "object_store \<Rightarrow> key \<Rightarrow> expiry \<Rightarrow> wall_timestamp \<Rightarrow> applied" where
  "apply_set_expiry s k expiry now =
    (case live s k now of
       None \<Rightarrow> (s, Inr (A_Expiry False None))
     | Some current \<Rightarrow>
         (case object_version_next (version_of s k) of
            Inl _ \<Rightarrow> (s, Inl AE_VersionExhausted)
          | Inr version \<Rightarrow>
              (let value = (case so_value current of
                     V_Fabric reference \<Rightarrow> V_Fabric (reference\<lparr>fr_version := version\<rparr>)
                   | value \<Rightarrow> value) in
               (insert_object s k (stored_new value version expiry),
                Inr (A_Expiry True (Some version))))))"

definition apply_commutative_add :: "object_store \<Rightarrow> key \<Rightarrow> i64 \<Rightarrow> wall_timestamp \<Rightarrow> applied" where
  "apply_commutative_add s k delta now =
    (case live s k now of
       None \<Rightarrow>
         (insert_object s k (stored_new (V_CommutativeCounter delta) version_FIRST expiry_NEVER),
          Inr (A_Commutative version_FIRST delta))
     | Some current \<Rightarrow>
         (case so_value current of
            V_CommutativeCounter value \<Rightarrow>
              (case checked_sadd value delta of
                 None \<Rightarrow> (s, Inl AE_CounterOverflow)
               | Some next \<Rightarrow>
                   update_value s k (V_CommutativeCounter next) (\<lambda>version. A_Commutative version next))
          | _ \<Rightarrow> mismatch s T_CommutativeCounter current))"

definition apply_bounded_create ::
    "object_store \<Rightarrow> key \<Rightarrow> u64 \<Rightarrow> u64 \<Rightarrow> wall_timestamp \<Rightarrow> applied" where
  "apply_bounded_create s k capacity holder now =
    (if live s k now \<noteq> None then (s, Inl AE_TxnDiverged)
     else
       (case i64_try_from capacity of
          None \<Rightarrow> (s, Inl AE_BoundedExceeded)
        | Some cap \<Rightarrow>
            (insert_object s k
               (stored_new
                 (V_BoundedCounter \<lparr> bc_value = 0, bc_capacity = capacity,
                    bc_share = \<lparr> es_holder = holder, es_min = 0, es_max = cap \<rparr> \<rparr>)
                 version_FIRST expiry_NEVER),
             Inr (A_Put version_FIRST))))"

definition apply_bounded_add :: "object_store \<Rightarrow> key \<Rightarrow> i64 \<Rightarrow> wall_timestamp \<Rightarrow> applied" where
  "apply_bounded_add s k delta now =
    (case live s k now of
       None \<Rightarrow> (s, Inl AE_BoundedExceeded)
     | Some current \<Rightarrow>
         (case so_value current of
            V_BoundedCounter st \<Rightarrow>
              (case bounded_add_preview st delta of
                 Inl _ \<Rightarrow> (s, Inl AE_BoundedExceeded)
               | Inr next \<Rightarrow>
                   update_value s k (V_BoundedCounter (st\<lparr>bc_value := next\<rparr>))
                     (\<lambda>version. A_Bounded version next))
          | _ \<Rightarrow> mismatch s T_BoundedCounter current))"

definition apply_escrow_set_share ::
    "object_store \<Rightarrow> key \<Rightarrow> i64 \<Rightarrow> i64 \<Rightarrow> wall_timestamp \<Rightarrow> applied" where
  "apply_escrow_set_share s k mn mx now =
    (case live s k now of
       None \<Rightarrow> (s, Inl AE_BoundedExceeded)
     | Some current \<Rightarrow>
         (case so_value current of
            V_BoundedCounter st \<Rightarrow>
              if \<not> escrow_share_valid (bc_value st) (bc_capacity st) mn mx
              then (s, Inl AE_BoundedExceeded)
              else update_value s k
                (V_BoundedCounter (st\<lparr>bc_share := (bc_share st)\<lparr>es_min := mn, es_max := mx\<rparr>\<rparr>)) A_Put
          | _ \<Rightarrow> mismatch s T_BoundedCounter current))"

definition apply_semaphore_create ::
    "object_store \<Rightarrow> key \<Rightarrow> u64 \<Rightarrow> wall_timestamp \<Rightarrow> applied" where
  "apply_semaphore_create s k capacity now =
    (if live s k now \<noteq> None then (s, Inl AE_TxnDiverged)
     else
       (insert_object s k
          (stored_new (V_Semaphore \<lparr> sem_capacity = capacity, sem_permits = [] \<rparr>)
            version_FIRST expiry_NEVER),
        Inr (A_Put version_FIRST)))"

text \<open>The permit bookkeeping of one acquire, before the version is taken.\<close>

definition semaphore_admit ::
    "semaphore_state \<Rightarrow> permit_id \<Rightarrow> u64 \<Rightarrow> u64 \<Rightarrow> apply_error + semaphore_state" where
  "semaphore_admit st permit owner qty =
    (case bt_get (sem_permits st) permit of
       Some held \<Rightarrow>
         if pr_owner held = owner \<and> pr_qty held = qty then Inr st else Inl AE_SemaphoreExhausted
     | None \<Rightarrow>
         if qty > 0 then
           (if length (sem_permits st) \<ge> MAX_SEMAPHORE_PERMITS then Inl AE_SemaphoreExhausted
            else if saturating_add (outstanding st) qty > sem_capacity st
            then Inl AE_SemaphoreExhausted
            else Inr (st\<lparr>sem_permits :=
                   bt_insert permit \<lparr> pr_owner = owner, pr_qty = qty \<rparr> (sem_permits st)\<rparr>))
         else Inr st)"

definition apply_semaphore_acquire ::
    "object_store \<Rightarrow> key \<Rightarrow> permit_id \<Rightarrow> u64 \<Rightarrow> u64 \<Rightarrow> wall_timestamp \<Rightarrow> applied" where
  "apply_semaphore_acquire s k permit owner qty now =
    (case live s k now of
       None \<Rightarrow> (s, Inl AE_TxnDiverged)
     | Some current \<Rightarrow>
         (case so_value current of
            V_Semaphore st \<Rightarrow>
              (case semaphore_admit st permit owner qty of
                 Inl e \<Rightarrow> (s, Inl e)
               | Inr st' \<Rightarrow> update_value s k (V_Semaphore st') (\<lambda>_. A_SemaphoreAcquired))
          | _ \<Rightarrow> mismatch s T_Semaphore current))"

definition apply_semaphore_release ::
    "object_store \<Rightarrow> key \<Rightarrow> permit_id \<Rightarrow> wall_timestamp \<Rightarrow> applied" where
  "apply_semaphore_release s k permit now =
    (case live s k now of
       None \<Rightarrow> (s, Inl AE_TxnDiverged)
     | Some current \<Rightarrow>
         (case so_value current of
            V_Semaphore st \<Rightarrow>
              update_value s k
                (V_Semaphore (st\<lparr>sem_permits := bt_remove permit (sem_permits st)\<rparr>))
                (\<lambda>_. A_SemaphoreReleased (bt_get (sem_permits st) permit \<noteq> None))
          | _ \<Rightarrow> mismatch s T_Semaphore current))"

definition apply_lease_acquire ::
    "object_store \<Rightarrow> key \<Rightarrow> u64 \<Rightarrow> fencing_token \<Rightarrow> wall_timestamp \<Rightarrow> wall_timestamp \<Rightarrow> applied" where
  "apply_lease_acquire s k owner fencing expires_at now =
    (let found =
       (case live s k now of
          None \<Rightarrow> Inr (1, None)
        | Some current \<Rightarrow>
            (case so_value current of
               V_Lease st \<Rightarrow> Inr (ls_next_fencing st, lease_live st now)
             | _ \<Rightarrow> Inl (AE_TypeMismatch T_Lease (so_object_type current)))) in
     case found of
       Inl e \<Rightarrow> (s, Inl e)
     | Inr (next_fencing, holder) \<Rightarrow>
         if holder \<noteq> None \<or> fencing \<noteq> next_fencing then (s, Inl AE_LeaseConflict)
         else
           (case fencing_next fencing of
              Inl _ \<Rightarrow> (s, Inl AE_StreamFull)
            | Inr advanced \<Rightarrow>
                (case next_version s k now of
                   Inl _ \<Rightarrow> (s, Inl AE_VersionExhausted)
                 | Inr version \<Rightarrow>
                     (insert_object s k
                        (stored_new
                          (V_Lease \<lparr> ls_holder =
                             Some \<lparr> lh_owner = owner, lh_fencing = fencing, lh_expires_at = expires_at \<rparr>,
                             ls_next_fencing = advanced \<rparr>)
                          version expiry_NEVER),
                      Inr (A_LeaseGranted fencing expires_at)))))"

definition apply_lease_renew ::
    "object_store \<Rightarrow> key \<Rightarrow> u64 \<Rightarrow> fencing_token \<Rightarrow> wall_timestamp \<Rightarrow> wall_timestamp \<Rightarrow> applied" where
  "apply_lease_renew s k owner fencing expires_at now =
    (case live s k now of
       None \<Rightarrow> (s, Inl AE_LeaseConflict)
     | Some current \<Rightarrow>
         (case so_value current of
            V_Lease st \<Rightarrow>
              (case lease_live st now of
                 None \<Rightarrow> (s, Inl AE_LeaseConflict)
               | Some holder \<Rightarrow>
                   if lh_owner holder = owner \<and> lh_fencing holder = fencing
                   then update_value s k
                     (V_Lease (st\<lparr>ls_holder :=
                        Some \<lparr> lh_owner = owner, lh_fencing = fencing, lh_expires_at = expires_at \<rparr>\<rparr>))
                     (\<lambda>_. A_LeaseGranted fencing expires_at)
                   else (s, Inl AE_LeaseConflict))
          | _ \<Rightarrow> mismatch s T_Lease current))"

definition apply_lease_release ::
    "object_store \<Rightarrow> key \<Rightarrow> u64 \<Rightarrow> fencing_token \<Rightarrow> wall_timestamp \<Rightarrow> applied" where
  "apply_lease_release s k owner fencing now =
    (case live s k now of
       None \<Rightarrow> (s, Inl AE_TxnDiverged)
     | Some current \<Rightarrow>
         (case so_value current of
            V_Lease st \<Rightarrow>
              (case ls_holder st of
                 None \<Rightarrow> (s, Inr (A_LeaseReleased False))
               | Some holder \<Rightarrow>
                   if lh_owner holder = owner \<and> lh_fencing holder = fencing
                   then update_value s k (V_Lease (st\<lparr>ls_holder := None\<rparr>)) (\<lambda>_. A_LeaseReleased True)
                   else (s, Inl AE_LeaseConflict))
          | _ \<Rightarrow> mismatch s T_Lease current))"

definition apply_stream_create ::
    "object_store \<Rightarrow> key \<Rightarrow> bytes \<Rightarrow> u32 \<Rightarrow> wall_timestamp \<Rightarrow> applied" where
  "apply_stream_create s k stream shard now =
    (if live s k now \<noteq> None then (s, Inl AE_TxnDiverged)
     else
       (insert_object s k
          (stored_new
            (V_StreamShard \<lparr> ss_stream = stream, ss_shard = shard, ss_next_offset = 0, ss_entries = [] \<rparr>)
            version_FIRST expiry_NEVER),
        Inr (A_Put version_FIRST)))"

definition apply_stream_append ::
    "object_store \<Rightarrow> key \<Rightarrow> bytes \<Rightarrow> bytes \<Rightarrow> wall_timestamp \<Rightarrow> applied" where
  "apply_stream_append s k part payload now =
    (case live s k now of
       None \<Rightarrow> (s, Inl AE_TxnDiverged)
     | Some current \<Rightarrow>
         (case so_value current of
            V_StreamShard shard \<Rightarrow>
              if length payload > MAX_STREAM_ENTRY_BYTES
                 \<or> length part > MAX_STREAM_ENTRY_BYTES
                 \<or> length (ss_entries shard) \<ge> MAX_STREAM_SHARD_ENTRIES
              then (s, Inl AE_StreamFull)
              else
                (let offset = ss_next_offset shard in
                 update_value s k
                   (V_StreamShard (shard\<lparr>ss_next_offset := saturating_add offset 1,
                      ss_entries := ss_entries shard @
                        [\<lparr> se_offset = offset, se_partition = part, se_payload = payload \<rparr>]\<rparr>))
                   (\<lambda>_. A_StreamAppended offset))
          | _ \<Rightarrow> mismatch s T_StreamShard current))"

definition apply_stream_trim :: "object_store \<Rightarrow> key \<Rightarrow> u64 \<Rightarrow> wall_timestamp \<Rightarrow> applied" where
  "apply_stream_trim s k through now =
    (case live s k now of
       None \<Rightarrow> (s, Inl AE_TxnDiverged)
     | Some current \<Rightarrow>
         (case so_value current of
            V_StreamShard shard \<Rightarrow>
              (let kept = dropWhile (\<lambda>entry. se_offset entry \<le> through) (ss_entries shard);
                   removed = of_nat (length (ss_entries shard)) - of_nat (length kept) in
               update_value s k (V_StreamShard (shard\<lparr>ss_entries := kept\<rparr>))
                 (\<lambda>_. A_StreamTrimmed removed))
          | _ \<Rightarrow> mismatch s T_StreamShard current))"

definition apply_inner :: "object_store \<Rightarrow> mutation \<Rightarrow> wall_timestamp \<Rightarrow> applied" where
  "apply_inner s m now =
    (case m of
       M_PutBytes k value \<Rightarrow> apply_put_bytes s k value now
     | M_PutBytesWithExpiry k value expiry \<Rightarrow> apply_put_bytes_with_expiry s k value expiry now
     | M_ReplaceChunkedRootWithExpiry k manifest logical_len expiry \<Rightarrow>
         apply_replace_chunked s k manifest logical_len expiry now
     | M_ReplaceChunkedRoot k manifest logical_len \<Rightarrow>
         apply_replace_chunked s k manifest logical_len expiry_NEVER now
     | M_ReplaceFabricRoot k fabric_id logical_len _ \<Rightarrow>
         apply_replace_fabric s k fabric_id logical_len expiry_NEVER now
     | M_ReplaceFabricRootWithExpiry k fabric_id logical_len _ expiry \<Rightarrow>
         apply_replace_fabric s k fabric_id logical_len expiry now
     | M_SpliceBytes k offset patch \<Rightarrow> apply_splice_bytes s k offset patch now
     | M_Delete k \<Rightarrow> apply_delete s k now
     | M_CounterAdd k delta \<Rightarrow> apply_counter_add s k delta now
     | M_SetExpiry k expiry \<Rightarrow> apply_set_expiry s k expiry now
     | M_CommutativeAdd k delta \<Rightarrow> apply_commutative_add s k delta now
     | M_BoundedCreate k capacity holder \<Rightarrow> apply_bounded_create s k capacity holder now
     | M_BoundedAdd k delta \<Rightarrow> apply_bounded_add s k delta now
     | M_EscrowSetShare k mn mx \<Rightarrow> apply_escrow_set_share s k mn mx now
     | M_SemaphoreCreate k capacity \<Rightarrow> apply_semaphore_create s k capacity now
     | M_SemaphoreAcquire k permit owner qty \<Rightarrow> apply_semaphore_acquire s k permit owner qty now
     | M_SemaphoreRelease k permit \<Rightarrow> apply_semaphore_release s k permit now
     | M_LeaseAcquire k owner fencing expires_at \<Rightarrow> apply_lease_acquire s k owner fencing expires_at now
     | M_LeaseRenew k owner fencing expires_at \<Rightarrow> apply_lease_renew s k owner fencing expires_at now
     | M_LeaseRelease k owner fencing \<Rightarrow> apply_lease_release s k owner fencing now
     | M_StreamCreate k stream shard \<Rightarrow> apply_stream_create s k stream shard now
     | M_StreamAppend k part payload \<Rightarrow> apply_stream_append s k part payload now
     | M_StreamTrim k through \<Rightarrow> apply_stream_trim s k through now
     | M_TxnPrepare _ _ _ _ _ _ \<Rightarrow> (s, Inl AE_Panic)
     | M_TxnFinalize _ _ _ _ _ \<Rightarrow> (s, Inl AE_Panic)
     | M_TxnCommitLocal _ _ \<Rightarrow> (s, Inl AE_Panic))"

text \<open>
  The part of \<open>apply\<close> behind the dispatch of the transaction mutations: the reservation guard, the
  arm, and the upkeep of the ordered index.
\<close>

definition note_outcome :: "object_store \<Rightarrow> key \<Rightarrow> mutation \<Rightarrow> apply_outcome \<Rightarrow> object_store" where
  "note_outcome s k m out =
    (case out of
       A_Put _ \<Rightarrow> note_stored s k
     | A_Counter _ _ \<Rightarrow> note_stored s k
     | A_Commutative _ _ \<Rightarrow> note_stored s k
     | A_Bounded _ _ \<Rightarrow> note_stored s k
     | A_Expiry applied _ \<Rightarrow> if applied then note_stored s k else s
     | A_LeaseGranted _ _ \<Rightarrow> note_stored s k
     | A_LeaseReleased _ \<Rightarrow> note_stored s k
     | A_SemaphoreAcquired \<Rightarrow> note_stored s k
     | A_SemaphoreReleased _ \<Rightarrow> note_stored s k
     | A_StreamAppended _ \<Rightarrow> note_stored s k
     | A_StreamTrimmed _ \<Rightarrow> note_stored s k
     | A_Deleted _ \<Rightarrow> (case m of M_Delete _ \<Rightarrow> note_removed s k | _ \<Rightarrow> s)
     | _ \<Rightarrow> s)"

definition apply_ordinary :: "object_store \<Rightarrow> mutation \<Rightarrow> wall_timestamp \<Rightarrow> applied" where
  "apply_ordinary s m now =
    (case mutation_key m of
       None \<Rightarrow> (s, Inl AE_Panic)
     | Some k \<Rightarrow>
         if bt_get (intents s) k \<noteq> None then (s, Inl AE_TxnDiverged)
         else
           (case apply_inner s m now of
              (s', Inl e) \<Rightarrow> (s', Inl e)
            | (s', Inr out) \<Rightarrow> (note_outcome s' k m out, Inr out)))"

section \<open>Transactions on the store\<close>

definition txn_mutation :: "key \<Rightarrow> txn_write_kind \<Rightarrow> mutation" where
  "txn_mutation k kind =
    (case kind of
       W_Put value \<Rightarrow> M_PutBytes k value
     | W_PutChunked manifest logical_len \<Rightarrow> M_ReplaceChunkedRoot k manifest logical_len
     | W_PutFabric fabric_id logical_len version \<Rightarrow> M_ReplaceFabricRoot k fabric_id logical_len version
     | W_Delete \<Rightarrow> M_Delete k
     | W_CounterAdd delta \<Rightarrow> M_CounterAdd k delta
     | W_CommutativeAdd delta \<Rightarrow> M_CommutativeAdd k delta
     | W_BoundedAdd delta \<Rightarrow> M_BoundedAdd k delta
     | W_EscrowSetShare mn mx \<Rightarrow> M_EscrowSetShare k mn mx)"

definition local_commit_mutation :: "key \<Rightarrow> txn_write_kind \<Rightarrow> mutation" where
  "local_commit_mutation k kind = txn_mutation k kind"

text \<open>The checks of \<open>apply_txn_prepare\<close> on the write kind.\<close>

definition txn_prepare_check :: "txn_write_kind \<Rightarrow> stored_object option \<Rightarrow> apply_error + unit" where
  "txn_prepare_check kind cur =
    (case kind of
       W_CounterAdd delta \<Rightarrow> preview_counter_add cur delta T_StrictCounter
     | W_CommutativeAdd delta \<Rightarrow> preview_counter_add cur delta T_CommutativeCounter
     | W_BoundedAdd delta \<Rightarrow>
         (case map_option so_value cur of
            None \<Rightarrow> Inl AE_BoundedExceeded
          | Some (V_BoundedCounter st) \<Rightarrow>
              map_err (\<lambda>_. AE_BoundedExceeded) (map_ok (\<lambda>_. ()) (bounded_add_preview st delta))
          | Some value \<Rightarrow> Inl (AE_TypeMismatch T_BoundedCounter (object_type_of value)))
     | W_EscrowSetShare mn mx \<Rightarrow>
         (case map_option so_value cur of
            None \<Rightarrow> Inl AE_BoundedExceeded
          | Some (V_BoundedCounter st) \<Rightarrow>
              if \<not> escrow_share_valid (bc_value st) (bc_capacity st) mn mx then Inl AE_BoundedExceeded
              else Inr ()
          | Some value \<Rightarrow> Inl (AE_TypeMismatch T_BoundedCounter (object_type_of value)))
     | _ \<Rightarrow> Inr ())"

definition foreign_intent :: "object_store \<Rightarrow> key \<Rightarrow> txn_id \<Rightarrow> txn_digest \<Rightarrow> bool" where
  "foreign_intent s k txn digest =
    (case bt_get (intents s) k of
       None \<Rightarrow> False
     | Some intent \<Rightarrow> in_id intent \<noteq> txn \<or> in_digest intent \<noteq> digest)"

definition apply_txn_prepare ::
    "object_store \<Rightarrow> txn_id \<Rightarrow> u64 \<Rightarrow> txn_write \<Rightarrow> txn_digest \<Rightarrow> wall_timestamp \<Rightarrow> applied" where
  "apply_txn_prepare s txn coordinator write digest now =
    (let k = tw_key write; cur = store_get s k now in
     if foreign_intent s k txn digest then (s, Inr A_TxnConflict)
     else if \<not> is_ok (check_txn_expectation (tw_expect write) cur) then (s, Inr A_TxnConflict)
     else
       (case txn_prepare_check (tw_kind write) cur of
          Inl e \<Rightarrow> (s, Inl e)
        | Inr _ \<Rightarrow>
            (s\<lparr>intents := bt_insert k
                \<lparr> in_id = txn, in_coordinator = coordinator, in_key = k, in_write = write,
                  in_digest = digest, in_observed = map_option so_version cur,
                  in_prepared_at = now \<rparr> (intents s)\<rparr>,
             Inr A_TxnPrepared)))"

definition finalized :: "apply_outcome \<Rightarrow> apply_error + apply_outcome" where
  "finalized out =
    (case out of
       A_Put version \<Rightarrow> Inr (A_TxnFinalized True (Some version))
     | A_Counter version _ \<Rightarrow> Inr (A_TxnFinalized True (Some version))
     | A_Commutative version _ \<Rightarrow> Inr (A_TxnFinalized True (Some version))
     | A_Bounded version _ \<Rightarrow> Inr (A_TxnFinalized True (Some version))
     | A_Deleted _ \<Rightarrow> Inr (A_TxnFinalized True None)
     | _ \<Rightarrow> Inl AE_TxnDiverged)"

text \<open>
  The reservation is taken out of the map before anything else is looked at, so it is gone on every
  path.  The recursive \<open>self.apply\<close> is called on an ordinary mutation only.
\<close>

definition apply_txn_finalize ::
    "object_store \<Rightarrow> txn_id \<Rightarrow> key \<Rightarrow> bool \<Rightarrow> txn_write \<Rightarrow> txn_digest \<Rightarrow> wall_timestamp \<Rightarrow> applied" where
  "apply_txn_finalize s txn k commit write digest now =
    (let s1 = s\<lparr>intents := bt_remove k (intents s)\<rparr> in
     if foreign_intent s k txn digest then (s1, Inl AE_TxnDiverged)
     else if \<not> commit then (s1, Inr (A_TxnFinalized False None))
     else
       (case apply_ordinary s1 (txn_mutation k (tw_kind write)) now of
          (s2, Inl e) \<Rightarrow> (s2, Inl e)
        | (s2, Inr out) \<Rightarrow> (s2, finalized out)))"

section \<open>The local commit\<close>

text \<open>\<open>LC_Panic\<close> marks the panics of the code (\<open>expect\<close>, \<open>panic!\<close>).\<close>

datatype local_commit_error =
    LC_Validation op_error
  | LC_Exhausted
  | LC_Diverged apply_error
  | LC_Panic

definition local_result_for :: "mutation \<Rightarrow> apply_outcome \<Rightarrow> operation_result option" where
  "local_result_for m out =
    (case m of
       M_PutBytes _ _ \<Rightarrow> outcome_stored out
     | M_ReplaceChunkedRoot _ _ _ \<Rightarrow> outcome_stored out
     | M_ReplaceFabricRoot _ _ _ _ \<Rightarrow> outcome_stored out
     | M_Delete _ \<Rightarrow> (case out of A_Deleted existed \<Rightarrow> Some (R_Deleted existed) | _ \<Rightarrow> None)
     | M_CounterAdd _ _ \<Rightarrow>
         (case out of A_Counter version value \<Rightarrow> Some (R_CounterUpdated value version) | _ \<Rightarrow> None)
     | M_CommutativeAdd _ _ \<Rightarrow>
         (case out of A_Commutative _ _ \<Rightarrow> Some R_CommutativeApplied | _ \<Rightarrow> None)
     | M_BoundedAdd _ _ \<Rightarrow>
         (case out of A_Bounded version value \<Rightarrow> Some (R_BoundedUpdated value version) | _ \<Rightarrow> None)
     | M_EscrowSetShare _ _ _ \<Rightarrow> outcome_stored out
     | _ \<Rightarrow> None)"

definition local_versions ::
    "object_store \<Rightarrow> txn_write list \<Rightarrow> wall_timestamp \<Rightarrow> object_version option list" where
  "local_versions s writes now =
    map (\<lambda>w. case tw_kind w of
               W_Delete \<Rightarrow> None
             | _ \<Rightarrow> map_option so_version (store_get s (tw_key w) now)) writes"

text \<open>Validation of the collapsed writes, in key order.\<close>

fun plan_writes_local ::
    "object_store \<Rightarrow> wall_timestamp \<Rightarrow> (key \<times> txn_write) list
      \<Rightarrow> local_commit_error + (key \<times> mutation) list" where
  "plan_writes_local s now [] = Inr []"
| "plan_writes_local s now ((k, w) # rest) =
    and_then (map_err LC_Validation (check_txn_expectation (tw_expect w) (store_get s k now))) (\<lambda>_.
    and_then (map_err LC_Validation (check_txn_writable (tw_kind w) (store_get s k now))) (\<lambda>_.
    map_ok (\<lambda>planned. (k, local_commit_mutation k (tw_kind w)) # planned)
      (plan_writes_local s now rest)))"

definition is_escrow :: "mutation \<Rightarrow> bool" where
  "is_escrow m = (case m of M_EscrowSetShare _ _ _ \<Rightarrow> True | _ \<Rightarrow> False)"

definition is_delete :: "mutation \<Rightarrow> bool" where
  "is_delete m = (case m of M_Delete _ \<Rightarrow> True | _ \<Rightarrow> False)"

text \<open>The live widths of the shares about to move, summed (\<open>i128\<close> in the code).\<close>

fun share_before :: "object_store \<Rightarrow> wall_timestamp \<Rightarrow> key list \<Rightarrow> local_commit_error + int" where
  "share_before s now [] = Inr 0"
| "share_before s now (k # ks) =
    (case store_get s k now of
       None \<Rightarrow> Inl LC_Panic
     | Some current \<Rightarrow>
         (case so_value current of
            V_BoundedCounter st \<Rightarrow>
              map_ok (\<lambda>w. (sint (es_max (bc_share st)) - sint (es_min (bc_share st))) + w)
                (share_before s now ks)
          | _ \<Rightarrow> Inl (LC_Validation (E_WrongType T_BoundedCounter (so_object_type current)))))"

definition share_after :: "(key \<times> mutation) list \<Rightarrow> int" where
  "share_after planned =
    sum_list (map (\<lambda>p. case snd p of M_EscrowSetShare _ mn mx \<Rightarrow> sint mx - sint mn | _ \<Rightarrow> 0) planned)"

definition check_share_widths ::
    "object_store \<Rightarrow> wall_timestamp \<Rightarrow> (key \<times> mutation) list \<Rightarrow> local_commit_error + unit" where
  "check_share_widths s now planned =
    (let share_keys = map fst (filter (\<lambda>p. is_escrow (snd p)) planned) in
     if share_keys = [] then Inr ()
     else
       and_then (share_before s now share_keys) (\<lambda>before.
         if before \<noteq> share_after planned then Inl (LC_Validation E_BoundedExceeded) else Inr ()))"

definition versions_available ::
    "object_store \<Rightarrow> wall_timestamp \<Rightarrow> (key \<times> mutation) list \<Rightarrow> bool" where
  "versions_available s now planned =
    list_all (\<lambda>(k, m). is_delete m \<or> is_ok (next_version s k now)) planned"

fun apply_planned ::
    "object_store \<Rightarrow> wall_timestamp \<Rightarrow> (key \<times> mutation) list \<Rightarrow> (key, operation_result) bmap
      \<Rightarrow> object_store \<times> (local_commit_error + (key, operation_result) bmap)" where
  "apply_planned s now [] by_key = (s, Inr by_key)"
| "apply_planned s now ((k, m) # rest) by_key =
    (case apply_ordinary s m now of
       (s', Inl e) \<Rightarrow> (s', Inl (LC_Diverged e))
     | (s', Inr out) \<Rightarrow>
         (case local_result_for m out of
            None \<Rightarrow> (s', Inl LC_Panic)
          | Some r \<Rightarrow> apply_planned s' now rest (bt_insert k r by_key)))"

fun collect_results ::
    "(key, operation_result) bmap \<Rightarrow> txn_write list \<Rightarrow> local_commit_error + operation_result list" where
  "collect_results by_key [] = Inr []"
| "collect_results by_key (w # ws) =
    (case bt_get by_key (tw_key w) of
       None \<Rightarrow> Inl LC_Panic
     | Some r \<Rightarrow> map_ok ((#) r) (collect_results by_key ws))"

definition commit_local ::
    "object_store \<Rightarrow> txn_write list \<Rightarrow> wall_timestamp
      \<Rightarrow> object_store \<times> (local_commit_error + operation_result list)" where
  "commit_local s writes now =
    (let collapsed = collapse writes in
     if list_ex (\<lambda>k. bt_get (intents s) k \<noteq> None) (bt_keys collapsed)
     then (s, Inl (LC_Validation E_TxnConflict))
     else
       (case plan_writes_local s now collapsed of
          Inl e \<Rightarrow> (s, Inl e)
        | Inr planned \<Rightarrow>
            (case check_share_widths s now planned of
               Inl e \<Rightarrow> (s, Inl e)
             | Inr _ \<Rightarrow>
                 if \<not> versions_available s now planned then (s, Inl LC_Exhausted)
                 else
                   (case apply_planned s now planned [] of
                      (s', Inl e) \<Rightarrow> (s', Inl e)
                    | (s', Inr by_key) \<Rightarrow> (s', collect_results by_key writes)))))"

definition apply_local_commit ::
    "object_store \<Rightarrow> txn_write list \<Rightarrow> wall_timestamp \<Rightarrow> applied" where
  "apply_local_commit s writes now =
    (case commit_local s writes now of
       (s', Inr _) \<Rightarrow> (s', Inr (A_TxnLocalCommitted (local_versions s' writes now)))
     | (s', Inl (LC_Validation _)) \<Rightarrow> (s', Inl AE_TxnDiverged)
     | (s', Inl LC_Exhausted) \<Rightarrow> (s', Inl AE_VersionExhausted)
     | (s', Inl (LC_Diverged e)) \<Rightarrow> (s', Inl e)
     | (s', Inl LC_Panic) \<Rightarrow> (s', Inl AE_Panic))"

section \<open>Apply\<close>

definition apply_mutation :: "object_store \<Rightarrow> mutation \<Rightarrow> wall_timestamp \<Rightarrow> applied" where
  "apply_mutation s m now =
    (case m of
       M_TxnPrepare txn coordinator k expect write digest \<Rightarrow>
         apply_txn_prepare s txn coordinator
           \<lparr> tw_key = k, tw_kind = write, tw_expect = expect \<rparr> digest now
     | M_TxnFinalize txn k commit write digest \<Rightarrow> apply_txn_finalize s txn k commit write digest now
     | M_TxnCommitLocal _ writes \<Rightarrow> apply_local_commit s writes now
     | _ \<Rightarrow> apply_ordinary s m now)"

section \<open>Paired escrow transfer\<close>

definition load_bounded ::
    "object_store \<Rightarrow> key \<Rightarrow> wall_timestamp \<Rightarrow> op_error + (bounded_counter_state \<times> object_version)" where
  "load_bounded s k now =
    (case store_get s k now of
       None \<Rightarrow> Inl E_BoundedExceeded
     | Some obj \<Rightarrow>
         (case so_value obj of
            V_BoundedCounter st \<Rightarrow> Inr (st, so_version obj)
          | _ \<Rightarrow> Inl (E_WrongType T_BoundedCounter (so_object_type obj))))"

definition version_now :: "object_store \<Rightarrow> key \<Rightarrow> wall_timestamp \<Rightarrow> object_version \<Rightarrow> object_version" where
  "version_now s k now fallback = (case store_get s k now of None \<Rightarrow> fallback | Some obj \<Rightarrow> so_version obj)"

definition transfer_escrow ::
    "object_store \<Rightarrow> key \<Rightarrow> key \<Rightarrow> u64 \<Rightarrow> wall_timestamp
      \<Rightarrow> object_store \<times> (op_error + (object_version \<times> object_version))" where
  "transfer_escrow s donor recipient amount now =
    (if bt_get (intents s) donor \<noteq> None \<or> bt_get (intents s) recipient \<noteq> None
     then (s, Inl E_TxnConflict)
     else
       (case and_then (load_bounded s donor now) (\<lambda>d.
               map_ok (\<lambda>r. (d, r)) (load_bounded s recipient now)) of
          Inl e \<Rightarrow> (s, Inl e)
        | Inr ((d, dv), (r, rv)) \<Rightarrow>
            (case plan_escrow_transfer (es_min (bc_share d), es_max (bc_share d)) (bc_value d)
                    (es_min (bc_share r), es_max (bc_share r)) (bc_capacity r) amount of
               Inl _ \<Rightarrow> (s, Inl E_BoundedExceeded)
             | Inr (d', r') \<Rightarrow>
                 if donor = recipient then (s, Inr (dv, rv))
                 else if \<not> is_ok (verify_escrow_widths (es_min (bc_share d), es_max (bc_share d)) d'
                           (es_min (bc_share r), es_max (bc_share r)) r')
                 then (s, Inl E_BoundedExceeded)
                 else
                   (case apply_mutation s (M_EscrowSetShare donor (fst d') (snd d')) now of
                      (s1, Inl _) \<Rightarrow> (s1, Inl E_BoundedExceeded)
                    | (s1, Inr _) \<Rightarrow>
                        (case apply_mutation s1 (M_EscrowSetShare recipient (fst r') (snd r')) now of
                           (s2, Inl _) \<Rightarrow> (s2, Inl E_BoundedExceeded)
                         | (s2, Inr _) \<Rightarrow>
                             (s2, Inr (version_now s2 donor now dv, version_now s2 recipient now rv)))))))"

end
