(* ===== verification/Store_Invariant.thy ===== *)
theory Store_Invariant
  imports Store
begin

text \<open>
  The store's invariant and the facts every later theory rests on.  An arm of \<open>apply_inner\<close> touches
  one key: it keeps, overwrites or removes the object there, and what it does depends on that object
  alone.  \<open>arm_ok\<close> states this for a pair of stores that agree at the key, so locality, framing, the
  upkeep of the ordered index and the equivalence of a scratch copy with the real store all follow
  from one lemma, \<open>apply_inner_arm\<close>.
\<close>

section \<open>The invariant\<close>

definition index_ok :: "object_store \<Rightarrow> bool" where
  "index_ok s = (case ordered s of None \<Rightarrow> True | Some index \<Rightarrow> index = bt_keys (objects s))"

definition store_inv :: "object_store \<Rightarrow> bool" where
  "store_inv s \<longleftrightarrow>
    bt_wf (objects s) \<and> bt_wf (intents s)
    \<and> list_all (\<lambda>(k, i). in_key i = k) (intents s)
    \<and> list_all (\<lambda>(k, obj). object_wf obj) (objects s)
    \<and> index_ok s"

section \<open>Effects\<close>

datatype effect = Keep_obj | Write_obj stored_object | Remove_obj

definition perform :: "effect \<Rightarrow> key \<Rightarrow> object_store \<Rightarrow> object_store" where
  "perform eff k s =
    (case eff of
       Keep_obj \<Rightarrow> s
     | Write_obj obj \<Rightarrow> insert_object s k obj
     | Remove_obj \<Rightarrow> s\<lparr>objects := bt_remove k (objects s)\<rparr>)"

definition notes_stored :: "apply_outcome \<Rightarrow> bool" where
  "notes_stored out =
    (case out of
       A_Put _ \<Rightarrow> True | A_Counter _ _ \<Rightarrow> True | A_Commutative _ _ \<Rightarrow> True | A_Bounded _ _ \<Rightarrow> True
     | A_Expiry applied _ \<Rightarrow> applied | A_LeaseGranted _ _ \<Rightarrow> True | A_LeaseReleased _ \<Rightarrow> True
     | A_SemaphoreAcquired \<Rightarrow> True | A_SemaphoreReleased _ \<Rightarrow> True | A_StreamAppended _ \<Rightarrow> True
     | A_StreamTrimmed _ \<Rightarrow> True | _ \<Rightarrow> False)"

definition legal_effect :: "stored_object option \<Rightarrow> mutation \<Rightarrow> effect \<Rightarrow> apply_error + apply_outcome \<Rightarrow> bool" where
  "legal_effect cur m eff r =
    (case r of
       Inl e \<Rightarrow> eff = Keep_obj \<and> e \<noteq> AE_Panic
     | Inr out \<Rightarrow>
         (case eff of
            Write_obj _ \<Rightarrow> notes_stored out
          | Remove_obj \<Rightarrow> is_delete m \<and> (\<exists>existed. out = A_Deleted existed)
          | Keep_obj \<Rightarrow> out = A_Expiry False None \<or> out = A_LeaseReleased False \<and> cur \<noteq> None))"

definition arm_ok :: "mutation \<Rightarrow> key \<Rightarrow> object_store \<Rightarrow> object_store \<Rightarrow> applied \<Rightarrow> applied \<Rightarrow> bool" where
  "arm_ok m k s t a b \<longleftrightarrow>
    (\<exists>eff r. a = (perform eff k s, r) \<and> b = (perform eff k t, r)
      \<and> legal_effect (bt_get (objects s) k) m eff r)"

definition agree :: "key \<Rightarrow> object_store \<Rightarrow> object_store \<Rightarrow> bool" where
  "agree k s t \<longleftrightarrow> bt_get (objects s) k = bt_get (objects t) k"

lemma agree_refl: "agree k s s"
  by (simp add: agree_def)

lemma agree_reads:
  assumes "agree k s t"
  shows "live t k now = live s k now" "store_get t k now = store_get s k now"
    "version_of t k = version_of s k" "expiry_of t k = expiry_of s k"
    "next_version t k now = next_version s k now"
  using assms by (simp_all add: agree_def live_def store_get_def version_of_def expiry_of_def next_version_def)

lemma arm_error: "e \<noteq> AE_Panic \<Longrightarrow> arm_ok m k s t (s, Inl e) (t, Inl e)"
  unfolding arm_ok_def by (rule exI [of _ Keep_obj]) (simp add: perform_def legal_effect_def)

lemma arm_write:
  "notes_stored out \<Longrightarrow> arm_ok m k s t (insert_object s k obj, Inr out) (insert_object t k obj, Inr out)"
  unfolding arm_ok_def by (rule exI [of _ "Write_obj obj"]) (simp add: perform_def legal_effect_def)

lemma arm_remove:
  "is_delete m \<Longrightarrow> arm_ok m k s t (s\<lparr>objects := bt_remove k (objects s)\<rparr>, Inr (A_Deleted b))
    (t\<lparr>objects := bt_remove k (objects t)\<rparr>, Inr (A_Deleted b))"
  unfolding arm_ok_def by (rule exI [of _ Remove_obj]) (simp add: perform_def legal_effect_def)

lemma arm_expiry: "arm_ok m k s t (s, Inr (A_Expiry False None)) (t, Inr (A_Expiry False None))"
  unfolding arm_ok_def by (rule exI [of _ Keep_obj]) (simp add: perform_def legal_effect_def)

lemma arm_lease:
  "live s k now \<noteq> None \<Longrightarrow> arm_ok m k s t (s, Inr (A_LeaseReleased False)) (t, Inr (A_LeaseReleased False))"
  unfolding arm_ok_def
  by (rule exI [of _ Keep_obj])
    (auto simp: perform_def legal_effect_def live_def store_get_def split: option.splits)

lemma arm_replace:
  "agree k s t \<Longrightarrow> arm_ok m k s t (replace_value s k v e now) (replace_value t k v e now)"
  by (auto simp: replace_value_def agree_reads notes_stored_def intro!: arm_error arm_write split: sum.splits)

lemma arm_update:
  "agree k s t \<Longrightarrow> (\<And>version. notes_stored (out version)) \<Longrightarrow>
    arm_ok m k s t (update_value s k v out) (update_value t k v out)"
  by (auto simp: update_value_def agree_reads intro!: arm_error arm_write split: sum.splits)

lemmas arm_intros = arm_error arm_write arm_remove arm_expiry arm_lease arm_replace arm_update

definition is_txn :: "mutation \<Rightarrow> bool" where
  "is_txn m =
    (case m of
       M_TxnPrepare _ _ _ _ _ _ \<Rightarrow> True | M_TxnFinalize _ _ _ _ _ \<Rightarrow> True | M_TxnCommitLocal _ _ \<Rightarrow> True
     | _ \<Rightarrow> False)"

lemmas arm_simps = agree_reads mismatch_def notes_stored_def is_delete_def Let_def

lemma arm_values:
  assumes "agree k s t"
  shows "arm_ok m k s t (apply_put_bytes s k v now) (apply_put_bytes t k v now)"
    "arm_ok m k s t (apply_put_bytes_with_expiry s k v e now) (apply_put_bytes_with_expiry t k v e now)"
    "arm_ok m k s t (apply_replace_chunked s k mf n e now) (apply_replace_chunked t k mf n e now)"
    "arm_ok m k s t (apply_replace_fabric s k i n e now) (apply_replace_fabric t k i n e now)"
    "arm_ok m k s t (apply_splice_bytes s k off patch now) (apply_splice_bytes t k off patch now)"
    "is_delete m \<Longrightarrow> arm_ok m k s t (apply_delete s k now) (apply_delete t k now)"
    "arm_ok m k s t (apply_set_expiry s k e now) (apply_set_expiry t k e now)"
  using assms
  by (auto simp: apply_put_bytes_def apply_put_bytes_with_expiry_def apply_replace_chunked_def
      apply_replace_fabric_def apply_splice_bytes_def apply_delete_def apply_set_expiry_def arm_simps
      intro!: arm_intros split: option.split logical_value.split sum.split)

lemma arm_counters:
  assumes "agree k s t"
  shows "arm_ok m k s t (apply_counter_add s k d now) (apply_counter_add t k d now)"
    "arm_ok m k s t (apply_commutative_add s k d now) (apply_commutative_add t k d now)"
    "arm_ok m k s t (apply_bounded_create s k c h now) (apply_bounded_create t k c h now)"
    "arm_ok m k s t (apply_bounded_add s k d now) (apply_bounded_add t k d now)"
    "arm_ok m k s t (apply_escrow_set_share s k mn mx now) (apply_escrow_set_share t k mn mx now)"
  using assms
  by (auto simp: apply_counter_add_def apply_commutative_add_def apply_bounded_create_def
      apply_bounded_add_def apply_escrow_set_share_def arm_simps
      intro!: arm_intros split: option.split logical_value.split sum.split)

lemma semaphore_admit_error: "semaphore_admit st permit owner qty = Inl e \<Longrightarrow> e = AE_SemaphoreExhausted"
  by (auto simp: semaphore_admit_def split: option.splits if_splits)

lemma arm_semaphores:
  assumes "agree k s t"
  shows "arm_ok m k s t (apply_semaphore_create s k c now) (apply_semaphore_create t k c now)"
    "arm_ok m k s t (apply_semaphore_acquire s k p ow q now) (apply_semaphore_acquire t k p ow q now)"
    "arm_ok m k s t (apply_semaphore_release s k p now) (apply_semaphore_release t k p now)"
  using assms
  by (auto simp: apply_semaphore_create_def apply_semaphore_acquire_def apply_semaphore_release_def
      arm_simps dest: semaphore_admit_error intro!: arm_intros
      split: option.split logical_value.split sum.split)

lemma arm_leases:
  assumes "agree k s t"
  shows "arm_ok m k s t (apply_lease_acquire s k ow f x now) (apply_lease_acquire t k ow f x now)"
    "arm_ok m k s t (apply_lease_renew s k ow f x now) (apply_lease_renew t k ow f x now)"
    "arm_ok m k s t (apply_lease_release s k ow f now) (apply_lease_release t k ow f now)"
  using assms
  by (auto simp: apply_lease_acquire_def apply_lease_renew_def apply_lease_release_def arm_simps
      intro!: arm_error arm_write arm_expiry arm_replace arm_update intro: arm_lease [of _ _ now]
      split: option.split logical_value.split sum.split)

lemma arm_streams:
  assumes "agree k s t"
  shows "arm_ok m k s t (apply_stream_create s k st sh now) (apply_stream_create t k st sh now)"
    "arm_ok m k s t (apply_stream_append s k pa pl now) (apply_stream_append t k pa pl now)"
    "arm_ok m k s t (apply_stream_trim s k th now) (apply_stream_trim t k th now)"
  using assms
  by (auto simp: apply_stream_create_def apply_stream_append_def apply_stream_trim_def arm_simps
      intro!: arm_intros split: option.split logical_value.split sum.split)

lemma apply_inner_arm:
  assumes "agree k s t" "mutation_key m = Some k" "\<not> is_txn m"
  shows "arm_ok m k s t (apply_inner s m now) (apply_inner t m now)"
  using assms
  by (cases m)
    (simp_all add: apply_inner_def is_txn_def is_delete_def arm_values arm_counters arm_semaphores
      arm_leases arm_streams)

section \<open>Values stay well-formed\<close>

definition cur_wf :: "object_store \<Rightarrow> key \<Rightarrow> bool" where
  "cur_wf s k = (case bt_get (objects s) k of None \<Rightarrow> True | Some obj \<Rightarrow> object_wf obj)"

lemma cur_wf_insert [simp]: "cur_wf (insert_object s k obj) k = object_wf obj"
  by (simp add: cur_wf_def insert_object_def)

lemma cur_wf_remove [simp]: "cur_wf (s\<lparr>objects := bt_remove k (objects s)\<rparr>) k"
  by (simp add: cur_wf_def)

lemma live_stored: "live s k now = Some obj \<Longrightarrow> bt_get (objects s) k = Some obj \<and> \<not> so_is_expired obj now"
  by (auto simp: live_def store_get_def split: option.splits if_splits)

lemma object_wf_plain [simp]:
  "object_wf (stored_new (V_Bytes b) v e)" "object_wf (stored_new (V_Chunked c) v e)"
  "object_wf (stored_new (V_Fabric f) v e)" "object_wf (stored_new (V_StrictCounter i) v e)"
  "object_wf (stored_new (V_CommutativeCounter i) v e)"
  "object_wf (stored_new (V_BoundedCounter bc) v e) = bounded_invariant_holds bc"
  "object_wf (stored_new (V_Semaphore sm) v e) = semaphore_wf sm"
  "object_wf (stored_new (V_Lease l) v e) = lease_wf l"
  "object_wf (stored_new (V_StreamShard ss) v e) = (stream_wf ss \<and> ss_next_offset ss < v)"
  by (simp_all add: object_wf_def)

lemma live_wf:
  assumes "cur_wf s k" "live s k now = Some obj"
  shows "so_value obj = V_BoundedCounter bc \<Longrightarrow> bounded_invariant_holds bc"
    "so_value obj = V_Semaphore sm \<Longrightarrow> semaphore_wf sm"
    "so_value obj = V_Lease l \<Longrightarrow> lease_wf l"
    "so_value obj = V_StreamShard ss \<Longrightarrow> stream_wf ss \<and> ss_next_offset ss < version_of s k"
  using assms live_stored [OF assms(2)] by (auto simp: cur_wf_def object_wf_def version_of_def)

lemma replace_value_wf:
  "cur_wf s k \<Longrightarrow> (\<And>version. object_wf (stored_new (v version) version e)) \<Longrightarrow>
    cur_wf (fst (replace_value s k v e now)) k"
  by (auto simp: replace_value_def split: sum.splits)

lemma update_value_wf:
  "cur_wf s k \<Longrightarrow>
    (\<And>version. object_version_next (version_of s k) = Inr version \<Longrightarrow>
      object_wf (stored_new v version (expiry_of s k))) \<Longrightarrow>
    cur_wf (fst (update_value s k v out)) k"
  by (auto simp: update_value_def split: sum.splits)

lemma bounded_add_preview_ok:
  "bounded_add_preview st delta = Inr next \<Longrightarrow> bounded_invariant_holds st \<Longrightarrow>
    bounded_invariant_holds (st\<lparr>bc_value := next\<rparr>) \<and> sint next = sint (bc_value st) + sint delta"
  by (auto simp: bounded_add_preview_def bounded_invariant_holds_def result_simps
      dest: sint_checked_sadd split: option.splits if_splits)

lemma escrow_share_valid_iff:
  "escrow_share_valid (bc_value st) (bc_capacity st) mn mx \<longleftrightarrow>
    bounded_invariant_holds (st\<lparr>bc_share := (bc_share st)\<lparr>es_min := mn, es_max := mx\<rparr>\<rparr>)"
  by (auto simp: escrow_share_valid_def bounded_invariant_holds_def split: option.splits)

lemma semaphore_admit_wf:
  "semaphore_wf st \<Longrightarrow> semaphore_admit st permit owner qty = Inr st' \<Longrightarrow> semaphore_wf st'"
  by (auto simp: semaphore_admit_def intro!: semaphore_wf_insert split: option.splits if_splits)

lemma version_next_less: "object_version_next v = Inr v' \<Longrightarrow> unat v' = Suc (unat v)"
  by (rule object_version.step_unat)

lemma stream_append_wf:
  assumes "stream_wf st" "ss_next_offset st < v" "object_version_next v = Inr v'"
    and "length (ss_entries st) < MAX_STREAM_SHARD_ENTRIES" "length payload \<le> MAX_STREAM_ENTRY_BYTES"
  shows "stream_wf (st\<lparr>ss_next_offset := saturating_add (ss_next_offset st) 1,
      ss_entries := ss_entries st @ [\<lparr> se_offset = ss_next_offset st, se_partition = pa, se_payload = payload \<rparr>]\<rparr>)
    \<and> saturating_add (ss_next_offset st) 1 < v'"
proof -
  have v': "unat v' = Suc (unat v)" by (rule version_next_less [OF assms(3)])
  have "unat v' < 2 ^ LENGTH(64)" by (rule unsigned_less)
  then have nxt: "unat (saturating_add (ss_next_offset st) 1) = Suc (unat (ss_next_offset st))"
    using assms(2) v' by (simp add: unat_saturating_add word_less_nat_alt)
  have "se_offset e < saturating_add (ss_next_offset st) 1" if "e \<in> set (ss_entries st)" for e
    using that assms(1) nxt by (auto simp: stream_wf_def list_all_iff word_less_nat_alt)
  then show ?thesis
    using assms nxt v'
    by (auto simp: stream_wf_def list_all_iff sorted_wrt_append word_less_nat_alt)
qed

lemma sorted_wrt_map_dropWhile: "sorted_wrt r (map f xs) \<Longrightarrow> sorted_wrt r (map f (dropWhile P xs))"
  by (induction xs) auto

lemma stream_trim_wf:
  "stream_wf st \<Longrightarrow> stream_wf (st\<lparr>ss_entries := dropWhile P (ss_entries st)\<rparr>)"
  using length_dropWhile_le [of P "ss_entries st"]
  by (auto simp: stream_wf_def list_all_iff sorted_wrt_map_dropWhile dest!: set_dropWhileD)

lemma version_next_gt: "x < v \<Longrightarrow> object_version_next v = Inr v' \<Longrightarrow> x < v'"
  using version_next_less [of v v'] by (simp add: word_less_nat_alt)

lemma values_wf:
  assumes "cur_wf s k"
  shows "cur_wf (fst (apply_put_bytes s k v now)) k"
    "cur_wf (fst (apply_put_bytes_with_expiry s k v e now)) k"
    "cur_wf (fst (apply_replace_chunked s k mf n e now)) k"
    "cur_wf (fst (apply_replace_fabric s k i n e now)) k"
    "cur_wf (fst (apply_splice_bytes s k off patch now)) k"
    "cur_wf (fst (apply_delete s k now)) k"
  using assms
  by (auto simp: apply_put_bytes_def apply_put_bytes_with_expiry_def apply_replace_chunked_def
      apply_replace_fabric_def apply_splice_bytes_def apply_delete_def Let_def
      intro!: replace_value_wf split: option.split logical_value.split sum.split)

lemma set_expiry_wf: "cur_wf s k \<Longrightarrow> cur_wf (fst (apply_set_expiry s k e now)) k"
  by (auto simp: apply_set_expiry_def Let_def dest: live_wf intro: version_next_gt
      split: option.split logical_value.split sum.split)

lemma bounded_create_wf:
  "i64_try_from c = Some cap \<Longrightarrow>
    bounded_invariant_holds \<lparr> bc_value = 0, bc_capacity = c, bc_share = \<lparr> es_holder = h, es_min = 0, es_max = cap \<rparr> \<rparr>"
  by (auto simp: bounded_invariant_holds_def i64_try_from_eq_Some_iff sint_of_small split: option.splits)

lemma counters_wf:
  assumes "cur_wf s k"
  shows "cur_wf (fst (apply_counter_add s k d now)) k"
    "cur_wf (fst (apply_commutative_add s k d now)) k"
    "cur_wf (fst (apply_bounded_create s k c h now)) k"
    "cur_wf (fst (apply_bounded_add s k d now)) k"
    "cur_wf (fst (apply_escrow_set_share s k mn mx now)) k"
  using assms
  by (auto simp: apply_counter_add_def apply_commutative_add_def apply_bounded_create_def
      apply_bounded_add_def apply_escrow_set_share_def mismatch_def escrow_share_valid_iff
      intro!: update_value_wf bounded_create_wf dest: live_wf bounded_add_preview_ok
      split: option.split logical_value.split sum.split)

lemma semaphore_wf_empty: "semaphore_wf \<lparr> sem_capacity = c, sem_permits = [] \<rparr>"
  by (simp add: semaphore_wf_def semaphore_invariant_holds_def outstanding_def bt_values_def)

lemma semaphores_wf:
  assumes "cur_wf s k"
  shows "cur_wf (fst (apply_semaphore_create s k c now)) k"
    "cur_wf (fst (apply_semaphore_acquire s k p ow q now)) k"
    "cur_wf (fst (apply_semaphore_release s k p now)) k"
  using assms
  by (auto simp: apply_semaphore_create_def apply_semaphore_acquire_def apply_semaphore_release_def
      mismatch_def semaphore_wf_empty
      intro!: update_value_wf semaphore_wf_remove intro: semaphore_admit_wf [OF live_wf(2)] live_wf(2)
      split: option.split logical_value.split sum.split)

lemma lease_granted_wf:
  "fencing_next f = Inr g \<Longrightarrow>
    lease_wf \<lparr> ls_holder = Some \<lparr> lh_owner = ow, lh_fencing = f, lh_expires_at = x \<rparr>, ls_next_fencing = g \<rparr>"
  using fencing.step_supersedes [of f g] by (simp add: lease_wf_def supersedes_def)

lemma leases_wf:
  assumes "cur_wf s k"
  shows "cur_wf (fst (apply_lease_acquire s k ow f x now)) k"
    "cur_wf (fst (apply_lease_renew s k ow f x now)) k"
    "cur_wf (fst (apply_lease_release s k ow f now)) k"
proof -
  show "cur_wf (fst (apply_lease_acquire s k ow f x now)) k"
    using assms by (auto simp: apply_lease_acquire_def intro: lease_granted_wf
        split: option.split logical_value.split sum.split)
  have renewed: "lease_wf (st\<lparr>ls_holder := Some \<lparr> lh_owner = lh_owner h, lh_fencing = lh_fencing h, lh_expires_at = x \<rparr>\<rparr>)"
    if "lease_wf st" "lease_live st now = Some h" for st h
    using that by (auto simp: lease_wf_def lease_live_def split: option.splits if_splits)
  show "cur_wf (fst (apply_lease_renew s k ow f x now)) k"
    using assms by (auto simp: apply_lease_renew_def mismatch_def intro!: update_value_wf
        intro: renewed [OF live_wf(3)] split: option.split logical_value.split)
  show "cur_wf (fst (apply_lease_release s k ow f now)) k"
    using assms by (auto simp: apply_lease_release_def mismatch_def lease_wf_def intro!: update_value_wf
        split: option.split logical_value.split)
qed

lemma streams_wf:
  assumes "cur_wf s k"
  shows "cur_wf (fst (apply_stream_create s k st sh now)) k"
    "cur_wf (fst (apply_stream_append s k pa pl now)) k"
    "cur_wf (fst (apply_stream_trim s k th now)) k"
proof -
  show "cur_wf (fst (apply_stream_create s k st sh now)) k"
    using assms by (simp add: apply_stream_create_def stream_wf_def version_FIRST_def)
  have appended: "stream_wf (ss\<lparr>ss_next_offset := saturating_add (ss_next_offset ss) 1, ss_entries := ss_entries ss @
        [\<lparr> se_offset = ss_next_offset ss, se_partition = pa, se_payload = pl \<rparr>]\<rparr>)"
      "saturating_add (ss_next_offset ss) 1 < v'"
    if "live s k now = Some obj" "so_value obj = V_StreamShard ss"
      "object_version_next (version_of s k) = Inr v'" "length (ss_entries ss) < MAX_STREAM_SHARD_ENTRIES"
      "length pl \<le> MAX_STREAM_ENTRY_BYTES" for ss obj v'
    using stream_append_wf [of ss "version_of s k" v' pl pa] live_wf(4) [OF assms that(1,2)] that(3-5)
    by simp_all
  show "cur_wf (fst (apply_stream_append s k pa pl now)) k"
    using assms
    by (auto simp: apply_stream_append_def mismatch_def Let_def not_le not_less intro!: update_value_wf
        intro: appended split: option.split logical_value.split)
  show "cur_wf (fst (apply_stream_trim s k th now)) k"
    using assms
    by (auto simp: apply_stream_trim_def mismatch_def Let_def intro!: update_value_wf stream_trim_wf
        intro: live_wf(4) [THEN conjunct1] version_next_gt [OF live_wf(4) [THEN conjunct2]]
        split: option.split logical_value.split)
qed

lemma apply_inner_wf:
  assumes "cur_wf s k" "mutation_key m = Some k"
  shows "cur_wf (fst (apply_inner s m now)) k"
  using assms
  by (cases m) (simp_all add: apply_inner_def values_wf set_expiry_wf counters_wf semaphores_wf leases_wf
      streams_wf)

section \<open>One ordinary mutation\<close>

lemma bts_insert_keys: "bts_insert k (bt_keys m) = bt_keys (bt_insert k v m)"
  by (induction m) (auto simp: bt_keys_def)

lemma bts_remove_keys: "bts_remove k (bt_keys m) = bt_keys (bt_remove k m)"
  by (induction m) (auto simp: bt_keys_def bts_remove_def bt_remove_def)

lemma note_stored_commute: "note_stored (insert_object s k obj) k = put_stored s k obj"
  by (simp add: note_stored_def insert_object_def put_stored_def)

lemma note_outcome_stored: "notes_stored out \<Longrightarrow> note_outcome s k m out = note_stored s k"
  by (cases out) (auto simp: notes_stored_def note_outcome_def)

text \<open>
  What an ordinary mutation does to the store, and to any other store that agrees with it at the
  mutated key: nothing on an error; otherwise it leaves the objects alone, stores one object at the
  key, or removes the key, with the index kept in step.
\<close>

lemma apply_ordinary_cases:
  assumes "agree k s t" "bt_get (intents s) k = None \<longleftrightarrow> bt_get (intents t) k = None"
    and "mutation_key m = Some k" "\<not> is_txn m"
  obtains
    (error) e where "apply_ordinary s m now = (s, Inl e)" "apply_ordinary t m now = (t, Inl e)" "e \<noteq> AE_Panic"
  | (keep) "apply_ordinary s m now = (s, Inr (A_Expiry False None))"
      "apply_ordinary t m now = (t, Inr (A_Expiry False None))"
  | (touch) "apply_ordinary s m now = (note_stored s k, Inr (A_LeaseReleased False))"
      "apply_ordinary t m now = (note_stored t k, Inr (A_LeaseReleased False))"
      "bt_get (objects s) k \<noteq> None"
  | (store) obj out where "apply_ordinary s m now = (put_stored s k obj, Inr out)"
      "apply_ordinary t m now = (put_stored t k obj, Inr out)" "notes_stored out"
      "cur_wf s k \<Longrightarrow> object_wf obj"
  | (remove) existed where "apply_ordinary s m now = (remove_stored s k, Inr (A_Deleted existed))"
      "apply_ordinary t m now = (remove_stored t k, Inr (A_Deleted existed))" "m = M_Delete k"
proof (cases "bt_get (intents s) k = None")
  case False
  then show ?thesis using assms by (intro error [of AE_TxnDiverged]) (simp_all add: apply_ordinary_def)
next
  case True
  obtain eff r where inner: "apply_inner s m now = (perform eff k s, r)"
      "apply_inner t m now = (perform eff k t, r)" "legal_effect (bt_get (objects s) k) m eff r"
    using apply_inner_arm [OF assms(1,3,4), of now] unfolding arm_ok_def by blast
  have ord: "apply_ordinary u m now =
      (case apply_inner u m now of (u', Inl e) \<Rightarrow> (u', Inl e) | (u', Inr out) \<Rightarrow> (note_outcome u' k m out, Inr out))"
    if "u \<in> {s, t}" for u
    using that True assms(2,3) by (auto simp: apply_ordinary_def)
  show ?thesis
  proof (cases r)
    case (Inl e)
    then show ?thesis using inner ord by (intro error) (auto simp: legal_effect_def perform_def)
  next
    case (Inr out)
    show ?thesis
    proof (cases eff)
      case Keep_obj
      then have "out = A_Expiry False None \<or> out = A_LeaseReleased False \<and> bt_get (objects s) k \<noteq> None"
        using inner(3) Inr by (simp add: legal_effect_def)
      then show ?thesis
        using keep touch inner ord Inr Keep_obj by (auto simp: perform_def note_outcome_def)
    next
      case (Write_obj obj)
      moreover have "cur_wf s k \<Longrightarrow> object_wf obj"
        using apply_inner_wf [OF _ assms(3), of s now] inner Write_obj by (simp add: perform_def)
      ultimately show ?thesis
        using inner ord Inr
        by (intro store [of obj out])
          (auto simp: legal_effect_def perform_def note_outcome_stored note_stored_commute)
    next
      case Remove_obj
      then obtain existed where "is_delete m" "out = A_Deleted existed"
        using inner(3) Inr by (auto simp: legal_effect_def)
      moreover have "m = M_Delete k" using \<open>is_delete m\<close> assms(3) by (cases m) (auto simp: is_delete_def)
      ultimately show ?thesis
        using inner ord Inr Remove_obj
        by (intro remove [of existed]) (auto simp: perform_def note_outcome_def remove_stored_def)
    qed
  qed
qed

section \<open>Preservation\<close>

lemma store_inv_cur_wf: "store_inv s \<Longrightarrow> cur_wf s k"
  by (auto simp: store_inv_def cur_wf_def list_all_iff dest: bt_get_Some_mem split: option.splits)

lemma store_inv_put_stored:
  assumes "store_inv s" "object_wf obj"
  shows "store_inv (put_stored s k obj)"
proof -
  have "list_all (\<lambda>(k, obj). object_wf obj) (bt_insert k obj (objects s))"
    using assms set_bt_insert [of k obj "objects s"] by (auto simp: store_inv_def list_all_iff)
  then show ?thesis
    using assms by (auto simp: store_inv_def index_ok_def put_stored_def note_stored_def
        insert_object_def bts_insert_keys split: option.splits)
qed

lemma list_all_bt_remove: "list_all P m \<Longrightarrow> list_all P (bt_remove k m)"
  by (auto simp: list_all_iff bt_remove_def)

lemma store_inv_remove_stored: "store_inv s \<Longrightarrow> store_inv (remove_stored s k)"
  by (auto simp: store_inv_def index_ok_def remove_stored_def note_removed_def bts_remove_keys
      list_all_bt_remove split: option.splits)

lemma note_stored_present:
  assumes "store_inv s" "bt_get (objects s) k \<noteq> None"
  shows "note_stored s k = s"
proof -
  obtain v where "bt_get (objects s) k = Some v" using assms(2) by auto
  then have "bt_insert k v (objects s) = objects s"
    using assms(1) by (auto simp: store_inv_def intro: bt.insert_same)
  then have "bts_insert k (bt_keys (objects s)) = bt_keys (objects s)" by (simp add: bts_insert_keys [of k _ v])
  then show ?thesis
    using assms(1) by (cases "ordered s") (auto simp: note_stored_def store_inv_def index_ok_def)
qed

lemma store_inv_intents:
  assumes "store_inv s" "bt_wf is" "list_all (\<lambda>(k, i). in_key i = k) is"
  shows "store_inv (s\<lparr>intents := is\<rparr>)"
  using assms by (simp add: store_inv_def index_ok_def split: option.splits)

lemma store_inv_apply_ordinary:
  assumes "store_inv s" "\<not> is_txn m"
  shows "store_inv (fst (apply_ordinary s m now)) \<and> snd (apply_ordinary s m now) \<noteq> Inl AE_Panic"
proof -
  obtain k where k: "mutation_key m = Some k"
    using assms(2) by (cases m) (auto simp: is_txn_def)
  from agree_refl [of k s] HOL.refl [of "bt_get (intents s) k = None"] k assms(2)
  show ?thesis
  proof (cases rule: apply_ordinary_cases [where now = now])
    case touch
    then show ?thesis using assms(1) note_stored_present by simp
  next
    case (store obj out)
    then show ?thesis using assms(1) by (simp add: store_inv_put_stored store_inv_cur_wf)
  qed (simp_all add: assms(1) store_inv_remove_stored)
qed

end
