(* ===== verification/Local_Commit.thy ===== *)
theory Local_Commit
  imports Store_Invariant
begin

text \<open>
  The atomic local commit (\<open>commit_local\<close>) and the paired escrow transfer.  Validation looks at each
  collapsed write against the unchanged store; because the planned mutations touch distinct keys,
  what validation saw is what the later \<open>apply\<close> calls see, so they cannot fail half-way.
\<close>

section \<open>Vocabulary\<close>

definition similar :: "key \<Rightarrow> object_store \<Rightarrow> object_store \<Rightarrow> bool" where
  "similar k s t \<longleftrightarrow> agree k s t \<and> (bt_get (intents s) k = None \<longleftrightarrow> bt_get (intents t) k = None)"

text \<open>The outcome each kind of write has, once its checks passed.\<close>

definition kind_outcome :: "txn_write_kind \<Rightarrow> object_version \<Rightarrow> apply_outcome \<Rightarrow> bool" where
  "kind_outcome kind version out =
    (case kind of
       W_Delete \<Rightarrow> (\<exists>existed. out = A_Deleted existed)
     | W_CounterAdd _ \<Rightarrow> (\<exists>value. out = A_Counter version value)
     | W_CommutativeAdd _ \<Rightarrow> (\<exists>value. out = A_Commutative version value)
     | W_BoundedAdd _ \<Rightarrow> (\<exists>value. out = A_Bounded version value)
     | _ \<Rightarrow> out = A_Put version)"

text \<open>What one write does on its own, and what it reports.\<close>

definition write_alone :: "object_store \<Rightarrow> wall_timestamp \<Rightarrow> key \<Rightarrow> txn_write_kind \<Rightarrow> applied" where
  "write_alone s now k kind = apply_mutation s (txn_mutation k kind) now"

definition write_result :: "object_store \<Rightarrow> wall_timestamp \<Rightarrow> key \<Rightarrow> txn_write_kind \<Rightarrow> operation_result option" where
  "write_result s now k kind =
    (case snd (write_alone s now k kind) of
       Inl _ \<Rightarrow> None
     | Inr out \<Rightarrow> local_result_for (txn_mutation k kind) out)"

definition validated :: "object_store \<Rightarrow> wall_timestamp \<Rightarrow> key \<Rightarrow> txn_write \<Rightarrow> bool" where
  "validated s now k w \<longleftrightarrow>
    bt_get (intents s) k = None
    \<and> check_txn_expectation (tw_expect w) (store_get s k now) = Inr ()
    \<and> check_txn_writable (tw_kind w) (store_get s k now) = Inr ()
    \<and> (tw_kind w = W_Delete \<or> is_ok (next_version s k now))"

definition planned_of :: "(key \<times> txn_write) list \<Rightarrow> (key \<times> mutation) list" where
  "planned_of ps = map (\<lambda>(k, w). (k, txn_mutation k (tw_kind w))) ps"

definition live_width :: "object_store \<Rightarrow> wall_timestamp \<Rightarrow> key \<Rightarrow> int" where
  "live_width s now k =
    (case store_get s k now of
       None \<Rightarrow> 0
     | Some obj \<Rightarrow>
         (case so_value obj of
            V_BoundedCounter st \<Rightarrow> sint (es_max (bc_share st)) - sint (es_min (bc_share st))
          | _ \<Rightarrow> 0))"

definition escrow_keys :: "(key \<times> txn_write) list \<Rightarrow> key list" where
  "escrow_keys ps = map fst (filter (\<lambda>(k, w). is_escrow (txn_mutation k (tw_kind w))) ps)"

definition escrow_width :: "txn_write_kind \<Rightarrow> int" where
  "escrow_width kind = (case kind of W_EscrowSetShare mn mx \<Rightarrow> sint mx - sint mn | _ \<Rightarrow> 0)"

text \<open>Everything the commit checks before it writes, over the collapsed writes.\<close>

definition commit_ok :: "object_store \<Rightarrow> wall_timestamp \<Rightarrow> txn_write list \<Rightarrow> bool" where
  "commit_ok s now ws \<longleftrightarrow>
    list_all (\<lambda>(k, w). validated s now k w) (collapse ws)
    \<and> (escrow_keys (collapse ws) = []
       \<or> sum_list (map (live_width s now) (escrow_keys (collapse ws)))
         = sum_list (map (\<lambda>(k, w). escrow_width (tw_kind w)) (collapse ws)))"

definition effective :: "txn_write list \<Rightarrow> key \<Rightarrow> txn_write option" where
  "effective ws k = bt_get (collapse ws) k"

section \<open>Framing\<close>

lemma objects_updates [simp]:
  "objects (note_stored s k) = objects s" "intents (note_stored s k) = intents s"
  "objects (put_stored s k obj) = bt_insert k obj (objects s)" "intents (put_stored s k obj) = intents s"
  "objects (remove_stored s k) = bt_remove k (objects s)" "intents (remove_stored s k) = intents s"
  by (simp_all add: note_stored_def put_stored_def insert_object_def remove_stored_def note_removed_def)

lemma similar_refl: "similar k s s"
  by (simp add: similar_def agree_def)

lemma similar_reads:
  assumes "similar k s t"
  shows "store_get t k now = store_get s k now" "next_version t k now = next_version s k now"
  using agree_reads [of k s t] assms by (simp_all add: similar_def)

lemma apply_ordinary_similar:
  assumes "similar k s t" "mutation_key m = Some k" "\<not> is_txn m"
  shows "snd (apply_ordinary s m now) = snd (apply_ordinary t m now)"
    "similar k (fst (apply_ordinary s m now)) (fst (apply_ordinary t m now))"
proof -
  have "agree k s t" "(bt_get (intents s) k = None) = (bt_get (intents t) k = None)"
    using assms(1) by (simp_all add: similar_def)
  from this assms(2,3)
  have "snd (apply_ordinary s m now) = snd (apply_ordinary t m now)
    \<and> similar k (fst (apply_ordinary s m now)) (fst (apply_ordinary t m now))"
    by (cases rule: apply_ordinary_cases [where now = now])
      (use assms(1) in \<open>auto simp: similar_def agree_def\<close>)
  then show "snd (apply_ordinary s m now) = snd (apply_ordinary t m now)"
    "similar k (fst (apply_ordinary s m now)) (fst (apply_ordinary t m now))" by simp_all
qed

lemma apply_ordinary_frame:
  assumes "mutation_key m = Some k" "\<not> is_txn m"
  shows "k' \<noteq> k \<Longrightarrow> bt_get (objects (fst (apply_ordinary s m now))) k' = bt_get (objects s) k'"
    "intents (fst (apply_ordinary s m now)) = intents s"
proof -
  from agree_refl [of k s] HOL.refl [of "bt_get (intents s) k = None"] assms
  have "(k' \<noteq> k \<longrightarrow> bt_get (objects (fst (apply_ordinary s m now))) k' = bt_get (objects s) k')
    \<and> intents (fst (apply_ordinary s m now)) = intents s"
    by (cases rule: apply_ordinary_cases [where now = now]) auto
  then show "k' \<noteq> k \<Longrightarrow> bt_get (objects (fst (apply_ordinary s m now))) k' = bt_get (objects s) k'"
    "intents (fst (apply_ordinary s m now)) = intents s" by simp_all
qed

lemma apply_ordinary_error:
  assumes "apply_ordinary s m now = (s', Inl e)" "\<not> is_txn m"
  shows "s' = s"
proof -
  obtain k where k: "mutation_key m = Some k"
    using assms(2) by (cases m) (auto simp: is_txn_def)
  from agree_refl [of k s] HOL.refl [of "bt_get (intents s) k = None"] k assms(2)
  show ?thesis using assms(1) by (cases rule: apply_ordinary_cases [where now = now]) auto
qed

section \<open>The planned mutations\<close>

lemma txn_mutation_key [simp]: "mutation_key (txn_mutation k kind) = Some k"
  by (cases kind) (simp_all add: txn_mutation_def)

lemma txn_mutation_not_txn [simp]: "\<not> is_txn (txn_mutation k kind)"
  by (cases kind) (simp_all add: txn_mutation_def is_txn_def)

lemma apply_mutation_ordinary: "\<not> is_txn m \<Longrightarrow> apply_mutation s m now = apply_ordinary s m now"
  by (cases m) (simp_all add: apply_mutation_def is_txn_def)

lemma is_delete_txn_mutation [simp]: "is_delete (txn_mutation k kind) \<longleftrightarrow> kind = W_Delete"
  by (cases kind) (simp_all add: txn_mutation_def is_delete_def)

lemma is_escrow_txn_mutation [simp]:
  "is_escrow (txn_mutation k kind) \<longleftrightarrow> (\<exists>mn mx. kind = W_EscrowSetShare mn mx)"
  by (cases kind) (simp_all add: txn_mutation_def is_escrow_def)

lemma version_of_live: "live s k now = Some obj \<Longrightarrow> version_of s k = so_version obj"
  using live_stored [of s k now obj] by (simp add: version_of_def)

lemma next_version_live:
  "live s k now = Some obj \<Longrightarrow> next_version s k now = object_version_next (version_of s k)"
  by (simp add: next_version_def version_of_live)

lemma replace_value_ok:
  "next_version s k now = Inr version \<Longrightarrow>
    replace_value s k v e now = (insert_object s k (stored_new (v version) version e), Inr (A_Put version))"
  by (simp add: replace_value_def)

lemma update_value_ok:
  "live s k now = Some obj \<Longrightarrow> next_version s k now = Inr version \<Longrightarrow>
    update_value s k v out = (insert_object s k (stored_new v version (expiry_of s k)), Inr (out version))"
  by (simp add: update_value_def next_version_live)

lemma next_version_fresh: "live s k now = None \<Longrightarrow> next_version s k now = Inr version \<longleftrightarrow> version = version_FIRST"
  by (auto simp: next_version_def)

lemma live_eq_store_get: "store_get s k now = live s k now"
  by (simp add: live_def)

lemma writable_applies_inner:
  assumes "check_txn_writable kind (store_get s k now) = Inr u"
    and "kind = W_Delete \<or> next_version s k now = Inr version"
  shows "\<exists>s' out. apply_inner s (txn_mutation k kind) now = (s', Inr out) \<and> kind_outcome kind version out"
  using assms
  by (cases kind)
    (auto simp: live_eq_store_get txn_mutation_def apply_inner_def kind_outcome_def apply_put_bytes_def
      apply_replace_chunked_def apply_replace_fabric_def apply_delete_def apply_counter_add_def
      apply_commutative_add_def apply_bounded_add_def apply_escrow_set_share_def check_txn_writable_def
      replace_value_ok update_value_ok next_version_fresh result_simps
      split: option.splits logical_value.splits if_splits)

lemma write_alone_ordinary: "write_alone s now k kind = apply_ordinary s (txn_mutation k kind) now"
  by (simp add: write_alone_def apply_mutation_ordinary)

lemma kind_outcome_result: "kind_outcome kind version out \<Longrightarrow> \<exists>r. local_result_for (txn_mutation k kind) out = Some r"
  by (cases kind) (auto simp: kind_outcome_def txn_mutation_def local_result_for_def outcome_stored_def)

lemma writable_applies:
  assumes "bt_get (intents s) k = None" "check_txn_writable kind (store_get s k now) = Inr ()"
    and "kind = W_Delete \<or> next_version s k now = Inr version"
  shows "\<exists>s' out. write_alone s now k kind = (s', Inr out) \<and> kind_outcome kind version out"
  using writable_applies_inner [OF assms(2,3)] assms(1)
  by (auto simp: write_alone_ordinary apply_ordinary_def)

lemma validated_applies:
  assumes "validated s now k w"
  obtains s' out r where "write_alone s now k (tw_kind w) = (s', Inr out)"
    "local_result_for (txn_mutation k (tw_kind w)) out = Some r"
    "write_result s now k (tw_kind w) = Some r"
proof -
  obtain version where "tw_kind w = W_Delete \<or> next_version s k now = Inr version"
    using assms by (auto simp: validated_def result_simps)
  then obtain s' out where "write_alone s now k (tw_kind w) = (s', Inr out)" "kind_outcome (tw_kind w) version out"
    using assms writable_applies [of s k "tw_kind w" now version] by (auto simp: validated_def)
  then show ?thesis using that kind_outcome_result [of "tw_kind w" version out k]
    by (auto simp: write_result_def)
qed

lemma plan_writes_local_Inr_iff:
  "plan_writes_local s now ps = Inr planned \<longleftrightarrow>
    planned = planned_of ps
    \<and> (\<forall>(k, w) \<in> set ps. check_txn_expectation (tw_expect w) (store_get s k now) = Inr ()
        \<and> check_txn_writable (tw_kind w) (store_get s k now) = Inr ())"
  by (induction ps arbitrary: planned)
    (auto simp: planned_of_def result_simps local_commit_mutation_def)

lemma plan_writes_local_Inl: "plan_writes_local s now ps = Inl e \<Longrightarrow> \<exists>op. e = LC_Validation op"
proof (induction ps)
  case (Cons p ps)
  then show ?case
    by (cases p; cases "check_txn_expectation (tw_expect (snd p)) (store_get s (fst p) now)";
        cases "check_txn_writable (tw_kind (snd p)) (store_get s (fst p) now)";
        cases "plan_writes_local s now ps") auto
qed simp

lemma apply_planned_ok:
  assumes "distinct (map fst ps)" "\<forall>(k, w) \<in> set ps. validated s now k w \<and> similar k s t"
  shows "\<exists>t' by'. apply_planned t now (planned_of ps) by = (t', Inr by')
    \<and> intents t' = intents t
    \<and> (\<forall>k. k \<notin> fst ` set ps \<longrightarrow> bt_get (objects t') k = bt_get (objects t) k \<and> bt_get by' k = bt_get by k)
    \<and> (\<forall>(k, w) \<in> set ps. agree k t' (fst (write_alone s now k (tw_kind w)))
        \<and> bt_get by' k = write_result s now k (tw_kind w))"
  using assms
proof (induction ps arbitrary: t "by")
  case Nil
  then show ?case by (simp add: planned_of_def)
next
  case (Cons p ps)
  obtain k w where p: "p = (k, w)" by (cases p)
  let ?m = "txn_mutation k (tw_kind w)"
  obtain s1 out r where alone: "write_alone s now k (tw_kind w) = (s1, Inr out)"
      "local_result_for ?m out = Some r" "write_result s now k (tw_kind w) = Some r"
    using Cons.prems p validated_applies [of s now k w] by auto
  have sim: "similar k s t" using Cons.prems p by simp
  obtain t1 where t1: "apply_ordinary t ?m now = (t1, Inr out)" "similar k s1 t1"
    using apply_ordinary_similar [OF sim, of ?m now] alone(1)
    by (cases "apply_ordinary t ?m now") (auto simp: write_alone_ordinary)
  have frame: "intents t1 = intents t" "\<And>k'. k' \<noteq> k \<Longrightarrow> bt_get (objects t1) k' = bt_get (objects t) k'"
    using apply_ordinary_frame(1) [of ?m k _ t now] apply_ordinary_frame(2) [of ?m k t now] t1(1) by auto
  have rest: "\<forall>(k', w') \<in> set ps. validated s now k' w' \<and> similar k' s t1"
  proof (intro ballI, clarify)
    fix k' w' assume "(k', w') \<in> set ps"
    moreover from this have "k' \<noteq> k" using Cons.prems(1) p by (auto simp: rev_image_eqI)
    ultimately show "validated s now k' w' \<and> similar k' s t1"
      using Cons.prems(2) frame by (auto simp: similar_def agree_def)
  qed
  obtain t' by' where IH: "apply_planned t1 now (planned_of ps) (bt_insert k r by) = (t', Inr by')"
      "intents t' = intents t1"
      "\<forall>k'. k' \<notin> fst ` set ps \<longrightarrow> bt_get (objects t') k' = bt_get (objects t1) k'
        \<and> bt_get by' k' = bt_get (bt_insert k r by) k'"
      "\<forall>(k', w') \<in> set ps. agree k' t' (fst (write_alone s now k' (tw_kind w')))
        \<and> bt_get by' k' = write_result s now k' (tw_kind w')"
    using Cons.IH [OF _ rest, of "bt_insert k r by"] Cons.prems(1) by auto
  have "k \<notin> fst ` set ps" using Cons.prems(1) p by simp
  then have "agree k t' s1" "bt_get by' k = Some r"
    using IH(3) t1(2) by (simp_all add: agree_def similar_def)
  moreover have "apply_planned t now (planned_of (p # ps)) by = (t', Inr by')"
    using IH(1) t1(1) alone(2) p by (simp add: planned_of_def)
  ultimately show ?case
    using IH(2-4) frame alone p by (intro exI [of _ t'] exI [of _ by']) auto
qed

section \<open>The commit\<close>

lemma collapse_mem_iff: "(k, w) \<in> set (collapse ws) \<longleftrightarrow> bt_get (collapse ws) k = Some w"
  by (simp add: bt_get_eq_Some_iff bt_wf_collapse)

lemma collapse_key: "bt_get (collapse ws) k = Some w \<Longrightarrow> tw_key w = k \<and> w \<in> set ws"
  by (auto simp: bt_get_collapse find_Some_iff) (metis length_rev nth_mem set_rev)

lemma collapse_present: "w \<in> set ws \<Longrightarrow> \<exists>w'. bt_get (collapse ws) (tw_key w) = Some w'"
  by (auto simp: bt_get_collapse find_None_iff simp flip: not_None_eq)

lemma share_before_eq:
  "\<forall>k \<in> set ks. \<exists>obj st. store_get s k now = Some obj \<and> so_value obj = V_BoundedCounter st \<Longrightarrow>
    share_before s now ks = Inr (sum_list (map (live_width s now) ks))"
  by (induction ks) (auto simp: live_width_def)

lemma escrow_writable_live:
  "check_txn_writable (W_EscrowSetShare mn mx) (store_get s k now) = Inr () \<Longrightarrow>
    \<exists>obj st. store_get s k now = Some obj \<and> so_value obj = V_BoundedCounter st
      \<and> escrow_share_valid (bc_value st) (bc_capacity st) mn mx"
  by (auto simp: check_txn_writable_def split: option.splits logical_value.splits if_splits)

lemma escrow_keys_planned:
  "map fst (filter (\<lambda>p. is_escrow (snd p)) (planned_of ps)) = escrow_keys ps"
  by (induction ps) (auto simp: planned_of_def escrow_keys_def)

lemma share_after_planned: "share_after (planned_of ps) = sum_list (map (\<lambda>(k, w). escrow_width (tw_kind w)) ps)"
proof (induction ps)
  case (Cons p ps)
  then show ?case
    by (cases p; cases "tw_kind (snd p)")
      (auto simp: share_after_def planned_of_def txn_mutation_def escrow_width_def)
qed (simp add: share_after_def planned_of_def)

lemma check_share_widths_eq:
  assumes "\<forall>(k, w) \<in> set ps. check_txn_writable (tw_kind w) (store_get s k now) = Inr ()"
  shows "check_share_widths s now (planned_of ps) =
    (if escrow_keys ps = [] \<or> sum_list (map (live_width s now) (escrow_keys ps))
         = sum_list (map (\<lambda>(k, w). escrow_width (tw_kind w)) ps)
     then Inr () else Inl (LC_Validation E_BoundedExceeded))"
proof -
  have "\<forall>k \<in> set (escrow_keys ps). \<exists>obj st. store_get s k now = Some obj \<and> so_value obj = V_BoundedCounter st"
    using assms escrow_writable_live by (fastforce simp: escrow_keys_def)
  then show ?thesis
    by (simp add: check_share_widths_def escrow_keys_planned share_before_eq share_after_planned Let_def)
qed

lemma versions_available_planned:
  "versions_available s now (planned_of ps) \<longleftrightarrow>
    (\<forall>(k, w) \<in> set ps. tw_kind w = W_Delete \<or> is_ok (next_version s k now))"
  by (auto simp: versions_available_def planned_of_def list_all_iff)

lemma collect_results_eq:
  "\<forall>w \<in> set ws. bt_get by (tw_key w) \<noteq> None \<Longrightarrow>
    collect_results by ws = Inr (map (\<lambda>w. the (bt_get by (tw_key w))) ws)"
  by (induction ws) auto

lemma commit_local_reject:
  assumes "\<not> commit_ok s now ws"
  shows "\<exists>e. commit_local s ws now = (s, Inl e) \<and> (e = LC_Exhausted \<or> (\<exists>op. e = LC_Validation op))"
proof -
  let ?ps = "collapse ws"
  show ?thesis
  proof (cases "list_ex (\<lambda>k. bt_get (intents s) k \<noteq> None) (bt_keys ?ps)")
    case free: False
    show ?thesis
    proof (cases "plan_writes_local s now ?ps")
      case (Inl e)
      then show ?thesis using free plan_writes_local_Inl [OF Inl] by (auto simp: commit_local_def Let_def)
    next
      case (Inr planned)
      then have planned: "planned = planned_of ?ps"
        and checks: "\<forall>(k, w) \<in> set ?ps. check_txn_expectation (tw_expect w) (store_get s k now) = Inr ()
          \<and> check_txn_writable (tw_kind w) (store_get s k now) = Inr ()"
        by (simp_all add: plan_writes_local_Inr_iff)
      then have widths: "check_share_widths s now planned =
          (if escrow_keys ?ps = [] \<or> sum_list (map (live_width s now) (escrow_keys ?ps))
             = sum_list (map (\<lambda>(k, w). escrow_width (tw_kind w)) ?ps)
           then Inr () else Inl (LC_Validation E_BoundedExceeded))"
        unfolding planned by (intro check_share_widths_eq) auto
      have "\<not> (check_share_widths s now planned = Inr () \<and> versions_available s now planned)"
        using assms free checks widths planned
        by (fastforce simp: commit_ok_def validated_def versions_available_planned list_all_iff
            list_ex_iff bt_keys_def)
      then show ?thesis using free Inr widths by (auto simp: commit_local_def Let_def split: if_splits)
    qed
  qed (auto simp: commit_local_def Let_def)
qed

lemma commit_local_commit:
  assumes "commit_ok s now ws"
  shows "\<exists>s'. commit_local s ws now =
      (s', Inr (map (\<lambda>w. the (write_result s now (tw_key w) (tw_kind (the (effective ws (tw_key w)))))) ws))
    \<and> intents s' = intents s
    \<and> (\<forall>k. case effective ws k of
         None \<Rightarrow> agree k s' s
       | Some w \<Rightarrow> validated s now k w \<and> agree k s' (fst (write_alone s now k (tw_kind w))))"
proof -
  let ?ps = "collapse ws"
  have valid: "\<forall>(k, w) \<in> set ?ps. validated s now k w \<and> similar k s s"
    using assms by (auto simp: commit_ok_def list_all_iff similar_refl)
  then obtain s' by' where applied: "apply_planned s now (planned_of ?ps) [] = (s', Inr by')"
      "intents s' = intents s"
      "\<forall>k. k \<notin> fst ` set ?ps \<longrightarrow> bt_get (objects s') k = bt_get (objects s) k \<and> bt_get by' k = bt_get [] k"
      "\<forall>(k, w) \<in> set ?ps. agree k s' (fst (write_alone s now k (tw_kind w)))
        \<and> bt_get by' k = write_result s now k (tw_kind w)"
    using apply_planned_ok [OF bt_wf_distinct [OF bt_wf_collapse], of ws s now s "[]"] by blast
  have found: "\<exists>w'. effective ws (tw_key w) = Some w' \<and> bt_get by' (tw_key w) = write_result s now (tw_key w) (tw_kind w')
      \<and> write_result s now (tw_key w) (tw_kind w') \<noteq> None" if w: "w \<in> set ws" for w
  proof -
    obtain w' where w': "(tw_key w, w') \<in> set ?ps" "effective ws (tw_key w) = Some w'"
      using collapse_present [OF w] by (auto simp: collapse_mem_iff effective_def)
    then have "validated s now (tw_key w) w'" using valid by auto
    then show ?thesis using w' applied(4) by (auto elim: validated_applies)
  qed
  have results: "collect_results by' ws =
      Inr (map (\<lambda>w. the (write_result s now (tw_key w) (tw_kind (the (effective ws (tw_key w)))))) ws)"
    using found by (subst collect_results_eq) fastforce+
  have "plan_writes_local s now ?ps = Inr (planned_of ?ps)"
    "check_share_widths s now (planned_of ?ps) = Inr ()" "versions_available s now (planned_of ?ps)"
    "\<not> list_ex (\<lambda>k. bt_get (intents s) k \<noteq> None) (bt_keys ?ps)"
    using valid assms check_share_widths_eq [of ?ps s now]
    by (fastforce simp: plan_writes_local_Inr_iff validated_def versions_available_planned commit_ok_def
        list_ex_iff bt_keys_def)+
  then have "commit_local s ws now = (s', collect_results by' ws)"
    using applied(1) by (simp add: commit_local_def Let_def)
  moreover have "case effective ws k of None \<Rightarrow> agree k s' s
      | Some w \<Rightarrow> validated s now k w \<and> agree k s' (fst (write_alone s now k (tw_kind w)))" for k
  proof (cases "effective ws k")
    case None
    then have "k \<notin> fst ` set ?ps" by (simp add: effective_def bt_get_None_iff)
    then show ?thesis using applied(3) None by (simp add: agree_def)
  next
    case (Some w)
    then have "(k, w) \<in> set ?ps" by (simp add: effective_def collapse_mem_iff)
    then show ?thesis using applied(4) valid Some by auto
  qed
  ultimately show ?thesis using results applied(2) by auto
qed

section \<open>Properties\<close>

text \<open>
  C2: \<open>commit_local\<close> is all or nothing and never diverges, for every store and every list of writes.
  A commit that is refused leaves the store untouched, and the only errors are a failed validation and
  an exhausted version: the error of a later \<open>apply\<close> and the panics are unreachable.  A commit that
  succeeds has checked every key; it leaves at each written key what its last write in the list
  produces on its own against the store before the commit, leaves every other key and all
  reservations alone, and reports for each write the result of the effective write of its key.
\<close>

theorem commit_local_atomic:
  "case commit_local s ws now of
     (s', Inl e) \<Rightarrow>
       s' = s \<and> \<not> commit_ok s now ws \<and> (e = LC_Exhausted \<or> (\<exists>op. e = LC_Validation op))
   | (s', Inr results) \<Rightarrow>
       commit_ok s now ws \<and> intents s' = intents s
       \<and> (\<forall>k. case find (\<lambda>w. tw_key w = k) (rev ws) of
            None \<Rightarrow> get_stored s' k = get_stored s k
          | Some w \<Rightarrow> get_stored s' k = get_stored (fst (write_alone s now k (tw_kind w))) k)
       \<and> map Some results =
           map (\<lambda>w. write_result s now (tw_key w) (tw_kind (the (find (\<lambda>v. tw_key v = tw_key w) (rev ws))))) ws"
proof (cases "commit_ok s now ws")
  case False
  then show ?thesis using commit_local_reject [OF False] by auto
next
  case True
  obtain s' where s': "commit_local s ws now =
      (s', Inr (map (\<lambda>w. the (write_result s now (tw_key w) (tw_kind (the (effective ws (tw_key w)))))) ws))"
    "intents s' = intents s"
    "\<forall>k. case effective ws k of None \<Rightarrow> agree k s' s
       | Some w \<Rightarrow> validated s now k w \<and> agree k s' (fst (write_alone s now k (tw_kind w)))"
    using commit_local_commit [OF True] by blast
  have "write_result s now (tw_key w) (tw_kind (the (effective ws (tw_key w)))) \<noteq> None" if "w \<in> set ws" for w
    using s'(3) [THEN spec, of "tw_key w"] collapse_present [OF that]
    by (auto simp: effective_def elim!: validated_applies)
  moreover have "case find (\<lambda>w. tw_key w = k) (rev ws) of None \<Rightarrow> get_stored s' k = get_stored s k
      | Some w \<Rightarrow> get_stored s' k = get_stored (fst (write_alone s now k (tw_kind w))) k" for k
    using s'(3) [THEN spec, of k]
    by (auto simp: effective_def bt_get_collapse agree_def get_stored_def split: option.splits)
  ultimately show ?thesis using True s'(1,2) by (auto simp: effective_def bt_get_collapse)
qed

end
