(* ===== verification/Store_Safety.thy ===== *)
theory Store_Safety
  imports Local_Commit
begin

text \<open>
  Safety of the object store over every sequence of its entry points: the store invariant, the ordered
  index, the reach of one mutation, and the contract of prepare and finalize.
\<close>

section \<open>Runs\<close>

text \<open>
  The states a store can be in: every public entry point that changes it, from the empty store.
  \<open>put_stored\<close> takes an object from a checkpoint or another replica, so it carries the object's own
  invariant.
\<close>

inductive store_run :: "object_store \<Rightarrow> bool" where
  run_new: "store_run store_new"
| run_apply: "store_run s \<Longrightarrow> store_run (fst (apply_mutation s m now))"
| run_commit: "store_run s \<Longrightarrow> store_run (fst (commit_local s ws now))"
| run_transfer: "store_run s \<Longrightarrow> store_run (fst (transfer_escrow s donor recipient amount now))"
| run_put: "store_run s \<Longrightarrow> object_wf obj \<Longrightarrow> store_run (put_stored s k obj)"
| run_remove: "store_run s \<Longrightarrow> store_run (remove_stored s k)"
| run_restore: "store_run s \<Longrightarrow> store_run (restore_intent s i)"
| run_indexing: "store_run s \<Longrightarrow> store_run (set_ordered_indexing s enabled)"

text \<open>The objects a well-behaved mutation may change.\<close>

definition untouched :: "key list \<Rightarrow> object_store \<Rightarrow> object_store \<Rightarrow> bool" where
  "untouched ks s s' \<longleftrightarrow>
    (\<forall>k. k \<in> set ks \<or> get_stored s' k = get_stored s k \<and> bt_get (intents s') k = bt_get (intents s) k)"

section \<open>The invariant\<close>

lemma store_inv_apply_planned:
  "store_inv s \<Longrightarrow> store_inv (fst (apply_planned s now (planned_of ps) by))"
proof (induction ps arbitrary: s "by")
  case (Cons p ps)
  obtain k w where p: "p = (k, w)" by force
  obtain s1 r where step: "apply_ordinary s (txn_mutation k (tw_kind w)) now = (s1, r)" by force
  have "store_inv s1" using store_inv_apply_ordinary [OF Cons.prems, of "txn_mutation k (tw_kind w)" now] step by simp
  then show ?case
    using Cons.IH [of s1] step p by (auto simp: planned_of_def split: sum.split option.split)
qed (simp add: planned_of_def)

lemma store_inv_commit_local:
  assumes "store_inv s"
  shows "store_inv (fst (commit_local s ws now))"
proof (cases "plan_writes_local s now (collapse ws)")
  case (Inr planned)
  then have planned: "planned = planned_of (collapse ws)" by (simp add: plan_writes_local_Inr_iff)
  obtain s' r where ap: "apply_planned s now planned [] = (s', r)" by force
  have "store_inv s'" using store_inv_apply_planned [OF assms, of now "collapse ws" "[]"] planned ap by simp
  then show ?thesis
    using assms Inr ap by (auto simp: commit_local_def Let_def split: sum.splits)
qed (auto simp: commit_local_def Let_def assms)

lemma commit_local_no_panic: "snd (commit_local s ws now) \<noteq> Inl LC_Panic" "snd (commit_local s ws now) \<noteq> Inl (LC_Diverged e)"
  using commit_local_reject [of s now ws] commit_local_commit [of s now ws]
  by (cases "commit_ok s now ws"; auto)+

lemma store_inv_prepare:
  assumes "store_inv s"
  shows "store_inv (fst (apply_txn_prepare s txn coordinator write digest now))"
proof -
  have "list_all (\<lambda>(k, i). in_key i = k) (bt_insert (tw_key write) i (intents s))"
    if "in_key i = tw_key write" for i
    using assms that set_bt_insert [of "tw_key write" i "intents s"]
    by (fastforce simp: store_inv_def list_all_iff)
  then show ?thesis
    using assms
    by (auto simp: apply_txn_prepare_def Let_def store_inv_def index_ok_def split: sum.split option.split)
qed

lemma store_inv_finalize:
  assumes "store_inv s"
  shows "store_inv (fst (apply_txn_finalize s txn k c write digest now))"
proof -
  have dropped: "store_inv (s\<lparr>intents := bt_remove k (intents s)\<rparr>)" (is "store_inv ?s")
    using assms by (intro store_inv_intents) (auto simp: store_inv_def list_all_bt_remove)
  moreover have "store_inv (fst (apply_ordinary ?s (txn_mutation k (tw_kind write)) now))"
    using store_inv_apply_ordinary [OF dropped] by simp
  ultimately show ?thesis
    by (auto simp: apply_txn_finalize_def Let_def split: prod.split sum.split)
qed

lemma fst_apply_local_commit: "fst (apply_local_commit s ws now) = fst (commit_local s ws now)"
  by (auto simp: apply_local_commit_def split: prod.split sum.split local_commit_error.split)

lemma store_inv_apply_mutation:
  assumes "store_inv s"
  shows "store_inv (fst (apply_mutation s m now))"
proof (cases "is_txn m")
  case True
  then show ?thesis
    using store_inv_prepare [OF assms] store_inv_finalize [OF assms] store_inv_commit_local [OF assms]
    by (cases m) (auto simp: is_txn_def apply_mutation_def fst_apply_local_commit)
next
  case False
  then show ?thesis using store_inv_apply_ordinary [OF assms False] by (simp add: apply_mutation_ordinary)
qed

lemma finalized_no_panic: "finalized out \<noteq> Inl AE_Panic"
  by (cases out) (simp_all add: finalized_def)

lemma prepare_check_no_panic: "txn_prepare_check kind cur \<noteq> Inl AE_Panic"
  by (cases kind)
    (auto simp: txn_prepare_check_def preview_counter_add_def result_simps
      split: option.splits logical_value.splits object_type.splits)

lemma apply_mutation_no_panic:
  assumes "store_inv s"
  shows "snd (apply_mutation s m now) \<noteq> Inl AE_Panic"
proof (cases "is_txn m")
  case False
  then show ?thesis using store_inv_apply_ordinary [OF assms False] by (simp add: apply_mutation_ordinary)
next
  case True
  have "store_inv (s\<lparr>intents := bt_remove k (intents s)\<rparr>)" for k
    using assms by (intro store_inv_intents) (auto simp: store_inv_def list_all_bt_remove)
  then have fin: "snd (apply_ordinary (s\<lparr>intents := bt_remove k (intents s)\<rparr>) (txn_mutation k kind) now) \<noteq> Inl AE_Panic"
    for k kind
    using store_inv_apply_ordinary [of _ "txn_mutation k kind" now] by simp
  show ?thesis
  proof (cases m)
    case (M_TxnPrepare txn coordinator k expect kind digest)
    then show ?thesis
      using prepare_check_no_panic
      by (auto simp: apply_mutation_def apply_txn_prepare_def Let_def split: sum.split)
  next
    case (M_TxnFinalize txn k c w digest)
    then show ?thesis
      using fin [of k "tw_kind w"] finalized_no_panic
      by (auto simp: apply_mutation_def apply_txn_finalize_def Let_def split: prod.split sum.split)
  next
    case (M_TxnCommitLocal txn writes)
    then show ?thesis
      using commit_local_no_panic(1) [of s writes now] commit_local_no_panic(2) [of s writes now AE_Panic]
      by (auto simp: apply_mutation_def apply_local_commit_def split: prod.split sum.split local_commit_error.split)
  qed (use True in \<open>simp_all add: is_txn_def\<close>)
qed


lemma store_inv_transfer:
  assumes "store_inv s"
  shows "store_inv (fst (transfer_escrow s donor recipient amount now))"
  using assms store_inv_apply_mutation
  by (auto simp: transfer_escrow_def split: sum.split prod.split) (metis fst_conv)+

lemma bts_insert_least: "\<forall>y \<in> set ys. x < y \<Longrightarrow> bts_insert x ys = x # ys"
  by (cases ys) auto

lemma foldr_bts_insert: "sorted_wrt (<) ks \<Longrightarrow> foldr bts_insert ks [] = ks"
  by (induction ks) (simp_all add: bts_insert_least)

lemma store_inv_indexing: "store_inv s \<Longrightarrow> store_inv (set_ordered_indexing s enabled)"
  by (simp add: set_ordered_indexing_def rebuild_ordered_index_def store_inv_def index_ok_def bt_wf_def
      bt_keys_def foldr_bts_insert)

lemma store_inv_restore:
  assumes "store_inv s"
  shows "store_inv (restore_intent s i)"
  unfolding restore_intent_def
  using assms set_bt_insert [of "in_key i" i "intents s"]
  by (intro store_inv_intents) (fastforce simp: store_inv_def list_all_iff)+

lemma store_run_inv: "store_run s \<Longrightarrow> store_inv s"
proof (induction rule: store_run.induct)
  case run_new
  then show ?case by (simp add: store_new_def store_inv_def index_ok_def bt_wf_def)
qed (simp_all add: store_inv_apply_mutation store_inv_commit_local store_inv_transfer
    store_inv_put_stored store_inv_remove_stored store_inv_restore store_inv_indexing)

lemma store_inv_verified: "store_inv s \<Longrightarrow> verify_ordered_index s"
  by (auto simp: store_inv_def index_ok_def verify_ordered_index_def bt_keys_def list_all_iff
      bt_get_None_iff rev_image_eqI split: option.splits)

section \<open>The reach of one mutation\<close>

lemma untouched_refl: "untouched ks s s"
  by (simp add: untouched_def)

lemma untouched_trans:
  assumes "untouched ks s t" "untouched ls t u"
  shows "untouched (ks @ ls) s u"
  unfolding untouched_def
proof
  fix k
  show "k \<in> set (ks @ ls) \<or> get_stored u k = get_stored s k \<and> bt_get (intents u) k = bt_get (intents s) k"
    using assms [unfolded untouched_def, THEN spec, of k] by auto
qed

lemma set_first_seen: "set (first_seen seen ws) \<union> set seen = tw_key ` set ws \<union> set seen"
  by (induction seen ws rule: first_seen.induct) auto

lemma untouched_ordinary:
  assumes "mutation_key m = Some k" "\<not> is_txn m"
  shows "untouched [k] s (fst (apply_ordinary s m now))"
  using apply_ordinary_frame [OF assms] by (auto simp: untouched_def get_stored_def)

lemma untouched_commit_local:
  "untouched (first_seen [] ws) s (fst (commit_local s ws now))"
proof (cases "commit_ok s now ws")
  case False
  then show ?thesis using commit_local_reject [OF False] by (auto simp: untouched_refl)
next
  case True
  obtain s' r where s': "commit_local s ws now = (s', r)" "intents s' = intents s"
    "\<forall>k. case effective ws k of None \<Rightarrow> agree k s' s
       | Some w \<Rightarrow> validated s now k w \<and> agree k s' (fst (write_alone s now k (tw_kind w)))"
    using commit_local_commit [OF True] by blast
  have "get_stored s' k = get_stored s k" if "k \<notin> set (first_seen [] ws)" for k
  proof -
    have "k \<notin> tw_key ` set ws" using that set_first_seen [of "[]" ws] by simp
    then have "effective ws k = None" by (auto simp: effective_def bt_get_collapse find_None_iff)
    then show ?thesis using s'(3) [THEN spec, of k] by (simp add: agree_def get_stored_def)
  qed
  then show ?thesis using s' by (auto simp: untouched_def)
qed

lemma untouched_finalize: "untouched [k] s (fst (apply_txn_finalize s txn k c w digest now))"
proof -
  let ?s = "s\<lparr>intents := bt_remove k (intents s)\<rparr>"
  have "untouched [k] ?s (fst (apply_ordinary ?s (txn_mutation k (tw_kind w)) now))"
    by (rule untouched_ordinary) simp_all
  then show ?thesis
    by (auto simp: apply_txn_finalize_def Let_def untouched_def get_stored_def split: prod.split sum.split)
qed

lemma untouched_apply_mutation: "untouched (mutation_keys m) s (fst (apply_mutation s m now))"
proof (cases "is_txn m")
  case True
  then show ?thesis
    using untouched_commit_local untouched_finalize
    by (cases m)
      (auto simp: is_txn_def mutation_keys_def apply_mutation_def fst_apply_local_commit apply_txn_prepare_def
        Let_def untouched_def get_stored_def split: sum.split)
next
  case False
  then obtain k where "mutation_key m = Some k" by (cases m) (auto simp: is_txn_def)
  then show ?thesis
    using untouched_ordinary [OF _ False] False
    by (cases m) (auto simp: apply_mutation_ordinary mutation_keys_def is_txn_def)
qed

lemma txn_mutation_outcome:
  "apply_inner s (txn_mutation k kind) now = (t, Inr out) \<Longrightarrow>
    (\<exists>b. out = A_Deleted b) \<or> (\<exists>v. out = A_Put v) \<or> (\<exists>v i. out = A_Counter v i)
    \<or> (\<exists>v i. out = A_Commutative v i) \<or> (\<exists>v i. out = A_Bounded v i)"
  by (cases kind)
    (auto simp: txn_mutation_def apply_inner_def apply_put_bytes_def apply_replace_chunked_def
      apply_replace_fabric_def apply_delete_def apply_counter_add_def apply_commutative_add_def
      apply_bounded_add_def apply_escrow_set_share_def replace_value_def update_value_def mismatch_def
      split: option.splits logical_value.splits sum.splits if_splits)

lemma finalized_ordinary:
  "apply_ordinary s (txn_mutation k kind) now = (t, Inr out) \<Longrightarrow> \<exists>v. finalized out = Inr (A_TxnFinalized True v)"
  using txn_mutation_outcome [of s k kind now _ out]
  by (auto simp: apply_ordinary_def finalized_def split: if_splits prod.splits sum.splits)

lemma apply_mutation_error:
  assumes "apply_mutation s m now = (s', Inl e)"
  shows "s' = (case m of M_TxnFinalize _ k _ _ _ \<Rightarrow> s\<lparr>intents := bt_remove k (intents s)\<rparr> | _ \<Rightarrow> s)"
proof (cases "is_txn m")
  case False
  then have "s' = s" using assms apply_ordinary_error by (simp add: apply_mutation_ordinary)
  with False show ?thesis by (cases m) (simp_all add: is_txn_def)
next
  case True
  show ?thesis
  proof (cases m)
    case (M_TxnPrepare txn coordinator k expect kind digest)
    then show ?thesis
      using assms by (auto simp: apply_mutation_def apply_txn_prepare_def Let_def split: if_splits sum.splits)
  next
    case (M_TxnFinalize txn k c w digest)
    let ?s = "s\<lparr>intents := bt_remove k (intents s)\<rparr>"
    have "t = ?s" if "apply_ordinary ?s (txn_mutation k (tw_kind w)) now = (t, Inl d)" for t d
      using apply_ordinary_error [OF that] by simp
    moreover have "finalized out \<noteq> Inl d" if "apply_ordinary ?s (txn_mutation k (tw_kind w)) now = (t, Inr out)" for t out d
      using finalized_ordinary [OF that] by auto
    ultimately show ?thesis
      using assms M_TxnFinalize
      by (auto simp: apply_mutation_def apply_txn_finalize_def Let_def split: if_splits sum.splits prod.splits)
  next
    case (M_TxnCommitLocal txn writes)
    then show ?thesis
      using assms commit_local_reject [of s now writes] commit_local_commit [of s now writes]
      by (cases "commit_ok s now writes")
        (auto simp: apply_mutation_def apply_local_commit_def split: local_commit_error.splits)
  qed (use True in \<open>simp_all add: is_txn_def\<close>)
qed

section \<open>Prepare and finalize\<close>

lemma prepared_cases:
  assumes "apply_txn_prepare s txn co w digest now = (s1, Inr A_TxnPrepared)"
  obtains i where "s1 = s\<lparr>intents := bt_insert (tw_key w) i (intents s)\<rparr>" "in_id i = txn" "in_digest i = digest"
    "check_txn_expectation (tw_expect w) (store_get s (tw_key w) now) = Inr ()"
    "txn_prepare_check (tw_kind w) (store_get s (tw_key w) now) = Inr ()"
  using assms
  by (auto simp: apply_txn_prepare_def Let_def result_simps split: if_splits sum.splits)

lemma prepare_check_writable:
  "txn_prepare_check kind cur = Inr () \<Longrightarrow> check_txn_writable kind cur = Inr ()"
  by (cases kind)
    (auto simp: txn_prepare_check_def check_txn_writable_def preview_counter_add_def result_simps
      split: option.splits logical_value.splits object_type.splits if_splits)

lemma apply_reserved:
  assumes "bt_get (intents s) k = Some i" "mutation_key m = Some k" "\<not> is_txn m"
  shows "apply_mutation s m now = (s, Inl AE_TxnDiverged)"
  using assms by (simp add: apply_mutation_ordinary apply_ordinary_def)

lemma prepare_conflict:
  assumes "bt_get (intents s) k = Some i" "in_id i \<noteq> txn"
  shows "apply_mutation s (M_TxnPrepare txn co k expect kind digest) now = (s, Inr A_TxnConflict)"
  using assms by (simp add: apply_mutation_def apply_txn_prepare_def foreign_intent_def)

lemma drop_reservation:
  assumes "store_inv s" "bt_get (intents s) k = None"
  shows "s\<lparr>intents := bt_remove k (bt_insert k i (intents s))\<rparr> = s"
  using assms by (simp add: bt.remove_insert store_inv_def)

section \<open>Evaluation\<close>

lemmas store_eval =
  store_new_def set_ordered_indexing_def rebuild_ordered_index_def bt_keys_def bt_get_def bt_remove_def
  live_def store_get_def get_stored_def version_of_def expiry_of_def next_version_def insert_object_def
  note_stored_def note_removed_def put_stored_def remove_stored_def note_outcome_def
  apply_mutation_def apply_ordinary_def apply_inner_def apply_txn_prepare_def apply_txn_finalize_def
  replace_value_def update_value_def mismatch_def stored_new_def so_is_expired_def so_object_type_def
  expiry_is_expired_def expiry_NEVER_def version_FIRST_def object_version_next_def fencing_next_def
  foreign_intent_def check_txn_expectation_def txn_prepare_check_def txn_mutation_def finalized_def

lemmas arm_eval =
  apply_put_bytes_def apply_put_bytes_with_expiry_def apply_replace_chunked_def apply_replace_fabric_def
  apply_splice_bytes_def apply_delete_def apply_counter_add_def apply_set_expiry_def
  apply_commutative_add_def apply_bounded_create_def apply_bounded_add_def apply_escrow_set_share_def
  apply_semaphore_create_def apply_semaphore_acquire_def apply_semaphore_release_def
  apply_lease_acquire_def apply_lease_renew_def apply_lease_release_def
  apply_stream_create_def apply_stream_append_def apply_stream_trim_def

section \<open>Properties\<close>

text \<open>
  C8: In every state the store can reach through its entry points the invariant holds: objects and
  reservations are keyed consistently, each counter, semaphore, lease and stream satisfies its own
  invariant, \<open>verify_ordered_index\<close> accepts the index, which lists exactly the stored keys in order,
  and no mutation panics.
\<close>

theorem store_run_safe:
  assumes "store_run s"
  shows "store_inv s \<and> verify_ordered_index s
    \<and> (case ordered s of None \<Rightarrow> True | Some index \<Rightarrow> index = bt_keys (objects s))
    \<and> (case get_stored s k of None \<Rightarrow> True | Some obj \<Rightarrow> object_wf obj)
    \<and> snd (apply_mutation s m now) \<noteq> Inl AE_Panic"
proof -
  have inv: "store_inv s" by (rule store_run_inv [OF assms])
  then have "ordered s = Some index \<Longrightarrow> index = bt_keys (objects s)" for index
    by (simp add: store_inv_def index_ok_def)
  moreover have "case get_stored s k of None \<Rightarrow> True | Some obj \<Rightarrow> object_wf obj"
    using store_inv_cur_wf [OF inv] by (simp add: cur_wf_def get_stored_def)
  ultimately show ?thesis
    using inv store_inv_verified apply_mutation_no_panic by (auto split: option.split)
qed

definition sample_run :: object_store where
  "sample_run = fst (apply_mutation (set_ordered_indexing store_new True) (M_LeaseAcquire [1] 7 1 50) 10)"

theorem store_run_safe_witness:
  "store_inv sample_run \<and> verify_ordered_index sample_run \<and> ordered sample_run = Some [[1]]
    \<and> get_stored sample_run [1] \<noteq> None"
proof -
  have "store_run sample_run"
    unfolding sample_run_def by (intro store_run.intros)
  then have "store_inv sample_run \<and> verify_ordered_index sample_run"
    using store_run_safe [of sample_run "[1]" "M_Delete [1]" 0] by simp
  moreover have "ordered sample_run = Some [[1]]" "get_stored sample_run [1] \<noteq> None" by (simp_all add: sample_run_def store_eval arm_eval arith_defs)
  ultimately show ?thesis by blast
qed

text \<open>
  C18: One mutation touches only the keys it names (\<open>Mutation::keys\<close>), objects and reservations
  alike, and a mutation that is refused changes nothing, with one exception: a finalize drops the
  reservation of its key even when it is refused.
\<close>

theorem apply_mutation_reach:
  "case apply_mutation s m now of
     (s', Inr _) \<Rightarrow> untouched (mutation_keys m) s s'
   | (s', Inl _) \<Rightarrow>
       s' = (case m of M_TxnFinalize _ k _ _ _ \<Rightarrow> s\<lparr>intents := bt_remove k (intents s)\<rparr> | _ \<Rightarrow> s)"
  using apply_mutation_error [of s m now] untouched_apply_mutation [of m s now]
  by (auto split: prod.split sum.split)

text \<open>
  C9: Two-phase writes are direct writes with a reservation around them.  After a successful prepare
  nothing but the reservation has changed; until the finalize every ordinary mutation of the key is
  refused without effect and every other transaction's prepare reports a conflict.  An abort gives
  back the store the prepare found.  A commit leaves exactly the store the same write leaves when it is
  applied directly to that store, and, as long as the version can advance, a commit at the time of
  the prepare cannot fail.
\<close>

theorem two_phase_write:
  assumes "store_inv s" "bt_get (intents s) k = None"
    and "apply_mutation s (M_TxnPrepare txn co k expect kind digest) now = (s1, Inr A_TxnPrepared)"
    and "tw_kind w = kind"
  shows "objects s1 = objects s \<and> ordered s1 = ordered s
    \<and> (mutation_key m = Some k \<and> \<not> is_txn m \<longrightarrow> apply_mutation s1 m later = (s1, Inl AE_TxnDiverged))
    \<and> (other \<noteq> txn \<longrightarrow>
        apply_mutation s1 (M_TxnPrepare other co2 k expect2 kind2 digest2) later = (s1, Inr A_TxnConflict))
    \<and> apply_mutation s1 (M_TxnFinalize txn k False w digest) later = (s, Inr (A_TxnFinalized False None))
    \<and> apply_mutation s1 (M_TxnFinalize txn k True w digest) later =
        (fst (apply_mutation s (txn_mutation k kind) later),
         and_then (snd (apply_mutation s (txn_mutation k kind) later)) finalized)
    \<and> (kind = W_Delete \<or> is_ok (next_version s k now) \<longrightarrow>
        (\<exists>v. snd (apply_mutation s1 (M_TxnFinalize txn k True w digest) now) = Inr (A_TxnFinalized True v)))"
proof -
  let ?w = "\<lparr> tw_key = k, tw_kind = kind, tw_expect = expect \<rparr>"
  obtain i where i: "s1 = s\<lparr>intents := bt_insert k i (intents s)\<rparr>" "in_id i = txn" "in_digest i = digest"
    and writable: "check_txn_writable kind (store_get s k now) = Inr ()"
    using prepared_cases [of s txn co ?w digest now s1] assms(3)
    by (auto simp: apply_mutation_def intro: prepare_check_writable)
  have reserved: "bt_get (intents s1) k = Some i" using i by simp
  have dropped: "s1\<lparr>intents := bt_remove k (intents s1)\<rparr> = s"
    using drop_reservation [OF assms(1,2), of i] i by simp
  have final: "apply_mutation s1 (M_TxnFinalize txn k c w digest) t =
      (if c then (fst (apply_ordinary s (txn_mutation k kind) t), and_then (snd (apply_ordinary s (txn_mutation k kind) t)) finalized)
       else (s, Inr (A_TxnFinalized False None)))" for c t
    using reserved dropped i assms(4)
    by (auto simp: apply_mutation_def apply_txn_finalize_def foreign_intent_def Let_def split: prod.split sum.split)
  have "\<exists>v. snd (apply_mutation s1 (M_TxnFinalize txn k True w digest) now) = Inr (A_TxnFinalized True v)"
    if ok: "kind = W_Delete \<or> is_ok (next_version s k now)"
  proof -
    obtain version where "kind = W_Delete \<or> next_version s k now = Inr version"
      using ok by (auto simp: result_simps)
    then obtain t out where "apply_ordinary s (txn_mutation k kind) now = (t, Inr out)"
      using writable_applies [OF assms(2) writable, of version] unfolding write_alone_ordinary by blast
    then show ?thesis using final [of True now] finalized_ordinary [of s k kind now t out] by auto
  qed
  then show ?thesis
    using i reserved apply_reserved [OF reserved] prepare_conflict [OF reserved] final
    by (simp add: apply_mutation_ordinary)
qed

definition sample_prepared :: object_store where
  "sample_prepared = fst (apply_mutation sample_run (M_TxnPrepare [9] 3 [2] Absent (W_CounterAdd 5) [8]) 20)"

theorem two_phase_write_witness:
  "objects sample_prepared = objects sample_run
    \<and> apply_mutation sample_prepared (M_Delete [2]) 21 = (sample_prepared, Inl AE_TxnDiverged)
    \<and> apply_mutation sample_prepared
        (M_TxnFinalize [9] [2] False \<lparr> tw_key = [2], tw_kind = W_CounterAdd 5, tw_expect = Absent \<rparr> [8]) 21
      = (sample_run, Inr (A_TxnFinalized False None))"
proof -
  have run: "store_inv sample_run"
    unfolding sample_run_def by (intro store_run_inv store_run.intros)
  have "bt_get (intents sample_run) [2] = None"
    "apply_mutation sample_run (M_TxnPrepare [9] 3 [2] Absent (W_CounterAdd 5) [8]) 20
      = (sample_prepared, Inr A_TxnPrepared)"
    by (simp_all add: sample_prepared_def sample_run_def store_eval arm_eval arith_defs preview_counter_add_def)
  from two_phase_write [OF run this, of "\<lparr> tw_key = [2], tw_kind = W_CounterAdd 5, tw_expect = Absent \<rparr>"
      "M_Delete [2]" 21]
  show ?thesis by (simp add: is_txn_def)
qed

end
