(* ===== verification/Object_Semantics.thy ===== *)
theory Object_Semantics
  imports Store_Safety
begin

text \<open>
  What the typed objects promise over whole runs of the log: fencing tokens, stream offsets and
  counter values, semaphore permits, and byte ranges.  A run applies a list of mutations, each with the
  timestamp its log entry carries; \<open>run_log\<close> records what every entry reported.
\<close>

section \<open>Runs of the log\<close>

fun run_log ::
    "object_store \<Rightarrow> (mutation \<times> wall_timestamp) list \<Rightarrow> (mutation \<times> (apply_error + apply_outcome)) list" where
  "run_log s [] = []"
| "run_log s ((m, now) # ms) = (m, snd (apply_mutation s m now)) # run_log (fst (apply_mutation s m now)) ms"

fun run_store :: "object_store \<Rightarrow> (mutation \<times> wall_timestamp) list \<Rightarrow> object_store" where
  "run_store s [] = s"
| "run_store s ((m, now) # ms) = run_store (fst (apply_mutation s m now)) ms"

text \<open>A mutation that leaves the key alone or is one of the given kind at it.\<close>

definition only_at :: "key \<Rightarrow> (mutation \<Rightarrow> bool) \<Rightarrow> mutation \<Rightarrow> bool" where
  "only_at k P m \<longleftrightarrow> k \<notin> set (mutation_keys m) \<or> P m \<and> mutation_key m = Some k"

definition lease_op :: "mutation \<Rightarrow> bool" where
  "lease_op m =
    (case m of M_LeaseAcquire _ _ _ _ \<Rightarrow> True | M_LeaseRenew _ _ _ _ \<Rightarrow> True | M_LeaseRelease _ _ _ \<Rightarrow> True
     | _ \<Rightarrow> False)"

definition stream_op :: "mutation \<Rightarrow> bool" where
  "stream_op m =
    (case m of M_StreamCreate _ _ _ \<Rightarrow> True | M_StreamAppend _ _ _ \<Rightarrow> True | M_StreamTrim _ _ \<Rightarrow> True
     | _ \<Rightarrow> False)"

definition counter_op :: "mutation \<Rightarrow> bool" where
  "counter_op m = (case m of M_CounterAdd _ _ \<Rightarrow> True | _ \<Rightarrow> False)"

text \<open>What a log entry hands out at the key: a fencing token, a stream offset, an added amount.\<close>

definition granted :: "key \<Rightarrow> mutation \<times> (apply_error + apply_outcome) \<Rightarrow> u64 option" where
  "granted k e =
    (case e of
       (M_LeaseAcquire k' _ _ _, Inr (A_LeaseGranted fencing _)) \<Rightarrow> if k' = k then Some fencing else None
     | _ \<Rightarrow> None)"

definition appended :: "key \<Rightarrow> mutation \<times> (apply_error + apply_outcome) \<Rightarrow> u64 option" where
  "appended k e =
    (case e of
       (M_StreamAppend k' _ _, Inr (A_StreamAppended offset)) \<Rightarrow> if k' = k then Some offset else None
     | _ \<Rightarrow> None)"

definition added :: "key \<Rightarrow> mutation \<times> (apply_error + apply_outcome) \<Rightarrow> int option" where
  "added k e =
    (case e of
       (M_CounterAdd k' delta, Inr (A_Counter _ _)) \<Rightarrow> if k' = k then Some (sint delta) else None
     | _ \<Rightarrow> None)"

text \<open>The next token, the next offset and the value the key is at; a fresh key starts them.\<close>

definition fencing_at :: "key \<Rightarrow> object_store \<Rightarrow> nat" where
  "fencing_at k s =
    (case map_option so_value (get_stored s k) of Some (V_Lease st) \<Rightarrow> unat (ls_next_fencing st) | _ \<Rightarrow> 1)"

definition offset_at :: "key \<Rightarrow> object_store \<Rightarrow> nat" where
  "offset_at k s =
    (case map_option so_value (get_stored s k) of Some (V_StreamShard st) \<Rightarrow> unat (ss_next_offset st) | _ \<Rightarrow> 0)"

definition counter_at :: "key \<Rightarrow> object_store \<Rightarrow> int" where
  "counter_at k s =
    (case map_option so_value (get_stored s k) of Some (V_StrictCounter v) \<Rightarrow> sint v | _ \<Rightarrow> 0)"

definition is_lease :: "logical_value \<Rightarrow> bool" where
  "is_lease v = (case v of V_Lease _ \<Rightarrow> True | _ \<Rightarrow> False)"

definition is_stream :: "logical_value \<Rightarrow> bool" where
  "is_stream v = (case v of V_StreamShard _ \<Rightarrow> True | _ \<Rightarrow> False)"

definition is_counter :: "logical_value \<Rightarrow> bool" where
  "is_counter v = (case v of V_StrictCounter _ \<Rightarrow> True | _ \<Rightarrow> False)"

text \<open>The key holds nothing yet, or an object that never expires and whose value satisfies a predicate.\<close>

definition holds_at :: "object_store \<Rightarrow> key \<Rightarrow> (logical_value \<Rightarrow> bool) \<Rightarrow> bool" where
  "holds_at s k P \<longleftrightarrow>
    (case get_stored s k of
       None \<Rightarrow> True
     | Some obj \<Rightarrow> so_expiry obj = expiry_NEVER \<and> P (so_value obj))"

definition value_at :: "object_store \<Rightarrow> key \<Rightarrow> logical_value option" where
  "value_at s k = map_option so_value (get_stored s k)"

section \<open>One step at the key\<close>

lemma get_stored_other:
  assumes "k \<notin> set (mutation_keys m)"
  shows "get_stored (fst (apply_mutation s m now)) k = get_stored s k"
  using untouched_apply_mutation [of m s now] assms by (auto simp: untouched_def)

lemma mutation_keys_not_txn: "\<not> is_txn m \<Longrightarrow> mutation_key m = Some k \<Longrightarrow> mutation_keys m = [k]"
  by (cases m) (simp_all add: is_txn_def mutation_keys_def)

lemma never_expired [simp]: "so_expiry obj = expiry_NEVER \<Longrightarrow> so_is_expired obj now = False"
  by (simp add: so_is_expired_def expiry_is_expired_def expiry_NEVER_def)

lemma live_never:
  "get_stored s k = Some obj \<Longrightarrow> so_expiry obj = expiry_NEVER \<Longrightarrow> live s k now = Some obj"
  by (simp add: live_def store_get_def get_stored_def)

lemma live_absent: "get_stored s k = None \<Longrightarrow> live s k now = None"
  by (simp add: live_def store_get_def get_stored_def)

lemma get_stored_note_outcome [simp]: "get_stored (note_outcome s k m out) k' = get_stored s k'"
  by (cases out; cases m) (simp_all add: note_outcome_def get_stored_def note_removed_def)

lemma get_stored_insert [simp]:
  "get_stored (insert_object s k obj) k' = (if k' = k then Some obj else get_stored s k')"
  by (simp add: get_stored_def insert_object_def)

text \<open>An ordinary mutation at an unreserved key is its arm, as far as the objects and the result go.\<close>

lemma apply_at:
  assumes "\<not> is_txn m" "mutation_key m = Some k" "bt_get (intents s) k = None"
  shows "snd (apply_mutation s m now) = snd (apply_inner s m now)"
    "get_stored (fst (apply_mutation s m now)) k = get_stored (fst (apply_inner s m now)) k"
  using assms by (auto simp: apply_mutation_ordinary apply_ordinary_def split: prod.split sum.split)

lemma apply_at_reserved:
  assumes "\<not> is_txn m" "mutation_key m = Some k" "bt_get (intents s) k \<noteq> None"
  shows "apply_mutation s m now = (s, Inl AE_TxnDiverged)"
  using assms by (simp add: apply_mutation_ordinary apply_ordinary_def)

lemma apply_at_ok:
  assumes "apply_mutation s m now = (s', Inr out)" "\<not> is_txn m" "mutation_key m = Some k"
  shows "snd (apply_inner s m now) = Inr out" "get_stored s' k = get_stored (fst (apply_inner s m now)) k"
  using apply_at [OF assms(2,3), of s now] apply_at_reserved [OF assms(2,3), of s now] assms(1)
  by (cases "bt_get (intents s) k = None"; simp)+

section \<open>Observing a run\<close>

text \<open>
  An object that hands out numbers: every entry that hands one out hands out the cursor and advances it
  by one, every other entry leaves the cursor alone.
\<close>

locale numbered_log =
  fixes inv :: "object_store \<Rightarrow> bool"
    and allowed :: "mutation \<Rightarrow> bool"
    and cursor :: "object_store \<Rightarrow> nat"
    and observe :: "mutation \<times> (apply_error + apply_outcome) \<Rightarrow> u64 option"
  assumes keeps: "inv s \<Longrightarrow> allowed m \<Longrightarrow> inv (fst (apply_mutation s m now))"
    and silent: "inv s \<Longrightarrow> allowed m \<Longrightarrow> observe (m, snd (apply_mutation s m now)) = None \<Longrightarrow>
      cursor (fst (apply_mutation s m now)) = cursor s"
    and hands_out: "inv s \<Longrightarrow> allowed m \<Longrightarrow> observe (m, snd (apply_mutation s m now)) = Some n \<Longrightarrow>
      unat n = cursor s \<and> cursor (fst (apply_mutation s m now)) = Suc (cursor s)"
begin

lemma run_keeps: "inv s \<Longrightarrow> list_all (allowed \<circ> fst) ms \<Longrightarrow> inv (run_store s ms)"
  by (induction s ms rule: run_store.induct) (simp_all add: keeps)

lemma consecutive:
  assumes "inv s" "list_all (allowed \<circ> fst) ms"
  shows "map unat (List.map_filter observe (run_log s ms)) = [cursor s ..< cursor (run_store s ms)]
    \<and> cursor s \<le> cursor (run_store s ms)"
  using assms
proof (induction s ms rule: run_log.induct)
  case (2 s m now ms)
  let ?s = "fst (apply_mutation s m now)" and ?r = "snd (apply_mutation s m now)"
  have IH: "map unat (List.map_filter observe (run_log ?s ms)) = [cursor ?s ..< cursor (run_store ?s ms)]"
      "cursor ?s \<le> cursor (run_store ?s ms)"
    using 2 keeps by simp_all
  show ?case
  proof (cases "observe (m, ?r)")
    case None
    then show ?thesis using IH silent [of s m now] 2 by (simp add: map_filter_simps)
  next
    case (Some n)
    then show ?thesis using IH hands_out [of s m now n] 2 by (simp add: map_filter_simps upt_conv_Cons)
  qed
qed (simp add: map_filter_simps)

end

lemma only_at_cases:
  assumes "only_at k P m" "\<forall>m. P m \<longrightarrow> \<not> is_txn m"
  obtains (other) "k \<notin> set (mutation_keys m)"
  | (reserved) "P m" "apply_mutation s m now = (s, Inl AE_TxnDiverged)"
  | (here) "P m" "mutation_key m = Some k" "snd (apply_mutation s m now) = snd (apply_inner s m now)"
      "get_stored (fst (apply_mutation s m now)) k = get_stored (fst (apply_inner s m now)) k"
  using assms apply_at [of m k s now] apply_at_reserved [of m k s now] unfolding only_at_def by blast

lemma observe_other:
  assumes "k \<notin> set (mutation_keys m)"
  shows "granted k (m, r) = None" "appended k (m, r) = None" "added k (m, r) = None"
  using assms
  by (cases m; auto simp: granted_def appended_def added_def mutation_keys_def split: sum.split apply_outcome.split)+

lemma observe_error:
  "granted k (m, Inl e) = None" "appended k (m, Inl e) = None" "added k (m, Inl e) = None"
  by (cases m; simp add: granted_def appended_def added_def)+

lemmas observe_simps = observe_other observe_error get_stored_other

section \<open>Leases\<close>

lemma ops_not_txn:
  "\<forall>m. lease_op m \<longrightarrow> \<not> is_txn m" "\<forall>m. stream_op m \<longrightarrow> \<not> is_txn m" "\<forall>m. counter_op m \<longrightarrow> \<not> is_txn m"
  by (auto simp: lease_op_def stream_op_def counter_op_def is_txn_def split: mutation.splits)

lemma lease_arm:
  assumes "holds_at s k is_lease" "lease_op m" "mutation_key m = Some k"
    and "get_stored s' k = get_stored (fst (apply_inner s m now)) k" "r = snd (apply_inner s m now)"
  shows "holds_at s' k is_lease
    \<and> (case granted k (m, r) of
         None \<Rightarrow> fencing_at k s' = fencing_at k s
       | Some n \<Rightarrow> unat n = fencing_at k s \<and> fencing_at k s' = Suc (fencing_at k s))"
proof (cases "get_stored s k")
  case None
  then have "live s k now = None" by (rule live_absent)
  then show ?thesis
    using assms None
    by (cases m)
      (auto simp: lease_op_def apply_inner_def apply_lease_acquire_def apply_lease_renew_def apply_lease_release_def
        holds_at_def granted_def fencing_at_def is_lease_def stored_new_def next_version_def
        dest!: fencing.step_unat split: sum.split)
next
  case (Some obj)
  then obtain st where st: "so_value obj = V_Lease st" "so_expiry obj = expiry_NEVER"
    using assms(1) by (cases "so_value obj") (auto simp: holds_at_def is_lease_def)
  then have "live s k now = Some obj" using Some by (simp add: live_never)
  moreover have "expiry_of s k = expiry_NEVER" "version_of s k = so_version obj"
    using Some st by (simp_all add: expiry_of_def version_of_def get_stored_def)
  ultimately show ?thesis
    using assms Some st
    by (cases m)
      (auto simp: lease_op_def apply_inner_def apply_lease_acquire_def apply_lease_renew_def apply_lease_release_def
        update_value_def holds_at_def granted_def fencing_at_def is_lease_def stored_new_def next_version_def
        dest!: fencing.step_unat split: sum.split option.split)
qed

lemma lease_step:
  assumes "holds_at s k is_lease" "only_at k lease_op m"
  shows "holds_at (fst (apply_mutation s m now)) k is_lease
    \<and> (case granted k (m, snd (apply_mutation s m now)) of
         None \<Rightarrow> fencing_at k (fst (apply_mutation s m now)) = fencing_at k s
       | Some n \<Rightarrow> unat n = fencing_at k s \<and> fencing_at k (fst (apply_mutation s m now)) = Suc (fencing_at k s))"
  using assms(2) ops_not_txn(1)
proof (cases rule: only_at_cases [where s = s and now = now])
  case other
  then show ?thesis using assms(1) by (simp add: observe_simps holds_at_def fencing_at_def)
next
  case reserved
  then show ?thesis using assms(1) by (simp add: observe_simps)
next
  case here
  then show ?thesis using lease_arm [OF assms(1)] by blast
qed

interpretation lease_log: numbered_log "\<lambda>s. holds_at s k is_lease" "only_at k lease_op" "fencing_at k" "granted k" for k
proof
  fix s m now
  assume "holds_at s k is_lease" "only_at k lease_op m"
  note step = lease_step [OF this, of now]
  show "holds_at (fst (apply_mutation s m now)) k is_lease" using step by simp
  show "granted k (m, snd (apply_mutation s m now)) = None \<Longrightarrow>
      fencing_at k (fst (apply_mutation s m now)) = fencing_at k s" using step by simp
  show "granted k (m, snd (apply_mutation s m now)) = Some n \<Longrightarrow>
      unat n = fencing_at k s \<and> fencing_at k (fst (apply_mutation s m now)) = Suc (fencing_at k s)" for n
    using step by simp
qed

section \<open>Streams\<close>

lemma stream_arm:
  assumes "store_inv s" "holds_at s k is_stream" "stream_op m" "mutation_key m = Some k"
    and "get_stored s' k = get_stored (fst (apply_inner s m now)) k" "r = snd (apply_inner s m now)"
  shows "holds_at s' k is_stream
    \<and> (case appended k (m, r) of
         None \<Rightarrow> offset_at k s' = offset_at k s
       | Some n \<Rightarrow> unat n = offset_at k s \<and> offset_at k s' = Suc (offset_at k s))"
proof (cases "get_stored s k")
  case None
  then have "live s k now = None" by (rule live_absent)
  then show ?thesis
    using assms None
    by (cases m)
      (auto simp: stream_op_def apply_inner_def apply_stream_create_def apply_stream_append_def apply_stream_trim_def
        holds_at_def appended_def offset_at_def is_stream_def stored_new_def)
next
  case (Some obj)
  then obtain st where st: "so_value obj = V_StreamShard st" "so_expiry obj = expiry_NEVER"
    using assms(2) by (cases "so_value obj") (auto simp: holds_at_def is_stream_def)
  then have live: "live s k now = Some obj" using Some by (simp add: live_never)
  have "ss_next_offset st < so_version obj"
    using live_wf(4) [OF store_inv_cur_wf [OF assms(1)] live st(1)] Some by (simp add: version_of_def get_stored_def)
  moreover have "unat (so_version obj) < 2 ^ 64" using unsigned_less [of "so_version obj"] by simp
  ultimately have "unat (saturating_add (ss_next_offset st) 1) = Suc (unat (ss_next_offset st))"
    by (simp add: unat_saturating_add word_less_nat_alt)
  moreover have "expiry_of s k = expiry_NEVER" "version_of s k = so_version obj"
    using Some st by (simp_all add: expiry_of_def version_of_def get_stored_def)
  ultimately show ?thesis
    using assms Some st live
    by (cases m)
      (auto simp: stream_op_def apply_inner_def apply_stream_create_def apply_stream_append_def apply_stream_trim_def
        update_value_def holds_at_def appended_def offset_at_def is_stream_def stored_new_def Let_def
        split: sum.split)
qed

lemma stream_step:
  assumes "store_inv s" "holds_at s k is_stream" "only_at k stream_op m"
  shows "holds_at (fst (apply_mutation s m now)) k is_stream
    \<and> (case appended k (m, snd (apply_mutation s m now)) of
         None \<Rightarrow> offset_at k (fst (apply_mutation s m now)) = offset_at k s
       | Some n \<Rightarrow> unat n = offset_at k s \<and> offset_at k (fst (apply_mutation s m now)) = Suc (offset_at k s))"
  using assms(3) ops_not_txn(2)
proof (cases rule: only_at_cases [where s = s and now = now])
  case other
  then show ?thesis using assms by (simp add: observe_simps holds_at_def offset_at_def)
next
  case reserved
  then show ?thesis using assms by (simp add: observe_simps)
next
  case here
  then show ?thesis using stream_arm [OF assms(1,2)] by blast
qed

interpretation stream_log: numbered_log
  "\<lambda>s. store_inv s \<and> holds_at s k is_stream" "only_at k stream_op" "offset_at k" "appended k" for k
proof
  fix s m now
  assume inv: "store_inv s \<and> holds_at s k is_stream" and "only_at k stream_op m"
  then have step: "holds_at (fst (apply_mutation s m now)) k is_stream
    \<and> (case appended k (m, snd (apply_mutation s m now)) of
         None \<Rightarrow> offset_at k (fst (apply_mutation s m now)) = offset_at k s
       | Some n \<Rightarrow> unat n = offset_at k s \<and> offset_at k (fst (apply_mutation s m now)) = Suc (offset_at k s))"
    by (intro stream_step) simp_all
  show "store_inv (fst (apply_mutation s m now)) \<and> holds_at (fst (apply_mutation s m now)) k is_stream"
    using step inv store_inv_apply_mutation by simp
  show "appended k (m, snd (apply_mutation s m now)) = None \<Longrightarrow>
      offset_at k (fst (apply_mutation s m now)) = offset_at k s" using step by simp
  show "appended k (m, snd (apply_mutation s m now)) = Some n \<Longrightarrow>
      unat n = offset_at k s \<and> offset_at k (fst (apply_mutation s m now)) = Suc (offset_at k s)" for n
    using step by simp
qed

section \<open>Counters\<close>

lemma counter_arm:
  assumes "holds_at s k is_counter" "counter_op m" "mutation_key m = Some k"
    and "get_stored s' k = get_stored (fst (apply_inner s m now)) k" "r = snd (apply_inner s m now)"
  shows "holds_at s' k is_counter
    \<and> counter_at k s' = counter_at k s + (case added k (m, r) of None \<Rightarrow> 0 | Some d \<Rightarrow> d)"
proof (cases "get_stored s k")
  case None
  then have "live s k now = None" by (rule live_absent)
  then show ?thesis
    using assms None
    by (cases m)
      (auto simp: counter_op_def apply_inner_def apply_counter_add_def holds_at_def added_def counter_at_def
        is_counter_def stored_new_def)
next
  case (Some obj)
  then obtain v where v: "so_value obj = V_StrictCounter v" "so_expiry obj = expiry_NEVER"
    using assms(1) by (cases "so_value obj") (auto simp: holds_at_def is_counter_def)
  then have "live s k now = Some obj" using Some by (simp add: live_never)
  moreover have "expiry_of s k = expiry_NEVER" "version_of s k = so_version obj"
    using Some v by (simp_all add: expiry_of_def version_of_def get_stored_def)
  ultimately show ?thesis
    using assms Some v
    by (cases m)
      (auto simp: counter_op_def apply_inner_def apply_counter_add_def update_value_def holds_at_def added_def
        counter_at_def is_counter_def stored_new_def dest: sint_checked_sadd split: sum.split option.split)
qed

lemma counter_step:
  assumes "holds_at s k is_counter" "only_at k counter_op m"
  shows "holds_at (fst (apply_mutation s m now)) k is_counter
    \<and> counter_at k (fst (apply_mutation s m now)) =
        counter_at k s + (case added k (m, snd (apply_mutation s m now)) of None \<Rightarrow> 0 | Some d \<Rightarrow> d)"
  using assms(2) ops_not_txn(3)
proof (cases rule: only_at_cases [where s = s and now = now])
  case other
  then show ?thesis using assms(1) by (simp add: observe_simps holds_at_def counter_at_def)
next
  case reserved
  then show ?thesis using assms(1) by (simp add: observe_simps)
next
  case here
  then show ?thesis using counter_arm [OF assms(1)] by blast
qed

section \<open>Semaphores\<close>

lemma semaphore_live_cases:
  assumes "store_inv s" "store_get s k now = Some obj" "so_value obj = V_Semaphore st"
  shows "semaphore_wf st" "live s k now = Some obj" "version_of s k = so_version obj"
    "expiry_of s k = so_expiry obj"
proof -
  show live: "live s k now = Some obj" using assms(2) by (simp add: live_def)
  then show "version_of s k = so_version obj" by (rule version_of_live)
  show "semaphore_wf st" by (rule live_wf(2) [OF store_inv_cur_wf [OF assms(1)] live assms(3)])
  show "expiry_of s k = so_expiry obj" using live_stored [OF live] by (simp add: expiry_of_def)
qed

text \<open>The recorded quantities add up exactly, except on a semaphore of the largest capacity.\<close>

lemma permits_total_bound:
  assumes "semaphore_wf st" "sem_capacity st \<noteq> - 1"
  shows "permits_total (sem_permits st) \<le> unat (sem_capacity st)"
proof -
  have "unat (sem_capacity st) \<noteq> unat (- 1 :: u64)" using assms(2) by (metis word_unat_eq_iff)
  moreover have "unat (sem_capacity st) < 2 ^ LENGTH(64)" by (rule unsigned_less)
  ultimately have "unat (sem_capacity st) < 2 ^ 64 - 1"
    by (simp add: unsigned_minus_1_eq_mask mask_eq_exp_minus_1)
  moreover have "unat (outstanding st) \<le> unat (sem_capacity st)"
    using assms(1) by (simp add: semaphore_wf_def semaphore_invariant_holds_def word_le_nat_alt)
  ultimately show ?thesis using unat_outstanding [of st] by (simp add: min_def split: if_splits)
qed

lemma semaphore_admit_new:
  assumes "semaphore_wf st" "semaphore_admit st p ow q = Inr st'" "bt_get (sem_permits st) p = None" "0 < q"
  shows "st' = st\<lparr>sem_permits := bt_insert p \<lparr> pr_owner = ow, pr_qty = q \<rparr> (sem_permits st)\<rparr>"
    "semaphore_admit st' p ow q = Inr st'"
    "st'\<lparr>sem_permits := bt_remove p (sem_permits st')\<rparr> = st"
proof -
  show st': "st' = st\<lparr>sem_permits := bt_insert p \<lparr> pr_owner = ow, pr_qty = q \<rparr> (sem_permits st)\<rparr>"
    using assms by (auto simp: semaphore_admit_def split: if_splits)
  then show "semaphore_admit st' p ow q = Inr st'" by (simp add: semaphore_admit_def)
  show "st'\<lparr>sem_permits := bt_remove p (sem_permits st')\<rparr> = st"
    using assms st' by (simp add: bt.remove_insert semaphore_wf_def)
qed

lemma apply_acquire:
  assumes "apply_mutation s (M_SemaphoreAcquire k p ow q) now = (s', Inr out)"
    and "live s k now = Some obj" "so_value obj = V_Semaphore st"
  shows "\<exists>st'. semaphore_admit st p ow q = Inr st' \<and> value_at s' k = Some (V_Semaphore st')
    \<and> out = A_SemaphoreAcquired \<and> map_option so_expiry (get_stored s' k) = Some (expiry_of s k)"
proof -
  let ?m = "M_SemaphoreAcquire k p ow q"
  have "snd (apply_inner s ?m now) = Inr out" "get_stored s' k = get_stored (fst (apply_inner s ?m now)) k"
    using apply_at_ok [OF assms(1)] by (simp_all add: is_txn_def)
  then show ?thesis
    using assms(2,3)
    by (auto simp: apply_inner_def apply_semaphore_acquire_def update_value_def value_at_def split: sum.splits)
qed

lemma apply_release:
  assumes "apply_mutation s (M_SemaphoreRelease k p) now = (s', Inr out)"
    and "live s k now = Some obj" "so_value obj = V_Semaphore st"
  shows "value_at s' k = Some (V_Semaphore (st\<lparr>sem_permits := bt_remove p (sem_permits st)\<rparr>))
    \<and> out = A_SemaphoreReleased (bt_get (sem_permits st) p \<noteq> None)"
proof -
  let ?m = "M_SemaphoreRelease k p"
  have "snd (apply_inner s ?m now) = Inr out" "get_stored s' k = get_stored (fst (apply_inner s ?m now)) k"
    using apply_at_ok [OF assms(1)] by (simp_all add: is_txn_def)
  then show ?thesis
    using assms(2,3)
    by (auto simp: apply_inner_def apply_semaphore_release_def update_value_def value_at_def split: sum.splits)
qed

section \<open>Byte ranges\<close>

lemma splice_inline_Some:
  assumes "splice_inline base off patch = Some out"
  shows "out = take (unat off) base @ replicate (unat off - length base) 0 @ patch
    @ drop (unat off + length patch) base"
  using assms by (auto simp: splice_inline_def Let_def split: if_splits)

lemma length_splice_inline:
  assumes "splice_inline base off patch = Some out"
  shows "length out = max (length base) (unat off + length patch)"
  using splice_inline_Some [OF assms] by auto

lemma slice_splice_inline:
  assumes "splice_inline base off patch = Some out" "unat len = length patch"
  shows "slice_range out off len = patch"
proof -
  have "length out \<ge> unat off + length patch" using length_splice_inline [OF assms(1)] by simp
  then show ?thesis
    using splice_inline_Some [OF assms(1)] assms(2)
    by (auto simp: slice_range_def Let_def min_def)
qed

section \<open>Properties\<close>

text \<open>
  C20: Fencing tokens.  In any run whose mutations of the key are lease operations, the tokens granted
  there are consecutive numbers, starting at the token the lease is at: no token is skipped, reused or
  granted out of order, whatever the timestamps and whatever happens at other keys.
\<close>

theorem lease_fencing_consecutive:
  assumes "holds_at s k is_lease" "list_all (only_at k lease_op \<circ> fst) ms"
  shows "map unat (List.map_filter (granted k) (run_log s ms)) = [fencing_at k s ..< fencing_at k (run_store s ms)]"
  using lease_log.consecutive [OF assms] by simp

definition sample_lease_log :: "(mutation \<times> wall_timestamp) list" where
  "sample_lease_log =
    [(M_LeaseAcquire [1] 7 1 50, 10), (M_PutBytes [2] [5], 10), (M_LeaseAcquire [1] 8 2 60, 20),
     (M_LeaseRelease [1] 7 1, 30), (M_LeaseAcquire [1] 8 2 60, 31)]"

lemmas run_eval = holds_at_def only_at_def lease_op_def stream_op_def counter_op_def mutation_keys_def
  fencing_at_def offset_at_def counter_at_def lease_live_def

theorem lease_fencing_consecutive_witness:
  "map unat (List.map_filter (granted [1]) (run_log store_new sample_lease_log)) = [1, 2]"
proof -
  have "holds_at store_new [1] is_lease" "list_all (only_at [1] lease_op \<circ> fst) sample_lease_log"
    "fencing_at [1] store_new = 1" "fencing_at [1] (run_store store_new sample_lease_log) = 3"
    by (simp_all add: sample_lease_log_def run_eval store_eval arm_eval arith_defs)
  then show ?thesis using lease_fencing_consecutive [of store_new "[1]" sample_lease_log]
    by (simp add: upt_rec)
qed

text \<open>
  C21: A lease has one holder.  While the recorded holder's term runs, no acquire succeeds at that
  time, neither another owner's nor its own; a renewal succeeds only for the holder's owner and token
  and leaves the token unchanged, and a release succeeds only for them.
\<close>

theorem lease_exclusive:
  assumes "live s k now = Some obj" "so_value obj = V_Lease st" "lease_live st now = Some h"
  shows "(case snd (apply_mutation s (M_LeaseAcquire k ow f x) now) of Inl _ \<Rightarrow> True | Inr _ \<Rightarrow> False)
    \<and> (case snd (apply_mutation s (M_LeaseRenew k ow f x) now) of
         Inl _ \<Rightarrow> True
       | Inr out \<Rightarrow> ow = lh_owner h \<and> f = lh_fencing h \<and> out = A_LeaseGranted f x)
    \<and> (case snd (apply_mutation s (M_LeaseRelease k ow f) now) of
         Inl _ \<Rightarrow> True
       | Inr out \<Rightarrow> ow = lh_owner h \<and> f = lh_fencing h \<and> out = A_LeaseReleased True)"
proof -
  have h: "ls_holder st = Some h" using assms(3) by (auto simp: lease_live_def split: option.splits if_splits)
  have "\<exists>e. snd (apply_inner s (M_LeaseAcquire k ow f x) now) = Inl e"
    using assms by (simp add: apply_inner_def apply_lease_acquire_def)
  moreover have "snd (apply_inner s (M_LeaseRenew k ow f x) now) = Inr out \<Longrightarrow>
      ow = lh_owner h \<and> f = lh_fencing h \<and> out = A_LeaseGranted f x" for out
    using assms by (auto simp: apply_inner_def apply_lease_renew_def update_value_def split: if_splits sum.splits)
  moreover have "snd (apply_inner s (M_LeaseRelease k ow f) now) = Inr out \<Longrightarrow>
      ow = lh_owner h \<and> f = lh_fencing h \<and> out = A_LeaseReleased True" for out
    using assms h by (auto simp: apply_inner_def apply_lease_release_def update_value_def split: if_splits sum.splits)
  moreover have "snd (apply_mutation s m now) = Inr out \<Longrightarrow> snd (apply_inner s m now) = Inr out"
    if "\<not> is_txn m" "mutation_key m = Some k" for m out
    using apply_at_ok(1) [of s m now "fst (apply_mutation s m now)" out k] that by (metis prod.collapse)
  ultimately show ?thesis by (fastforce simp: is_txn_def split: sum.split)
qed

theorem lease_exclusive_witness:
  "case snd (apply_mutation sample_run (M_LeaseAcquire [1] 8 2 60) 20) of Inl _ \<Rightarrow> True | Inr _ \<Rightarrow> False"
proof -
  let ?h = "\<lparr> lh_owner = 7, lh_fencing = 1, lh_expires_at = 50 \<rparr>"
  let ?st = "\<lparr> ls_holder = Some ?h, ls_next_fencing = 2 \<rparr>"
  have "live sample_run [1] 20 = Some (stored_new (V_Lease ?st) 1 None)" "lease_live ?st 20 = Some ?h"
    by (simp_all add: sample_run_def lease_live_def store_eval arm_eval arith_defs)
  from lease_exclusive [OF this(1) _ this(2), of 8 2 60] show ?thesis by (simp add: stored_new_def)
qed

text \<open>
  C22: Stream offsets.  In any run from a well-formed store whose mutations of the key are stream
  operations, the offsets reported by appends are consecutive, starting at the shard's next offset:
  trimming never makes an offset available again and the 64-bit offset never saturates.
\<close>

theorem stream_offsets_consecutive:
  assumes "store_inv s" "holds_at s k is_stream" "list_all (only_at k stream_op \<circ> fst) ms"
  shows "map unat (List.map_filter (appended k) (run_log s ms)) = [offset_at k s ..< offset_at k (run_store s ms)]"
  using stream_log.consecutive [of s k ms] assms by simp

definition sample_stream_log :: "(mutation \<times> wall_timestamp) list" where
  "sample_stream_log =
    [(M_StreamCreate [1] [3] 0, 10), (M_StreamAppend [1] [] [5], 11), (M_StreamAppend [1] [] [6], 12),
     (M_StreamTrim [1] 1, 13), (M_StreamAppend [1] [] [7], 14)]"

theorem stream_offsets_consecutive_witness:
  "map unat (List.map_filter (appended [1]) (run_log store_new sample_stream_log)) = [0, 1, 2]"
proof -
  have "store_inv store_new" by (intro store_run_inv store_run.intros)
  moreover have "holds_at store_new [1] is_stream" "list_all (only_at [1] stream_op \<circ> fst) sample_stream_log"
    "offset_at [1] store_new = 0" "offset_at [1] (run_store store_new sample_stream_log) = 3"
    by (simp_all add: sample_stream_log_def run_eval store_eval arm_eval arith_defs
        MAX_STREAM_ENTRY_BYTES_def MAX_STREAM_SHARD_ENTRIES_def)
  ultimately show ?thesis using stream_offsets_consecutive [of store_new "[1]" sample_stream_log]
    by (simp add: upt_rec)
qed

text \<open>
  Strict counters count.  In any run whose mutations of the key are counter additions, the value
  at the end is the value at the start plus the deltas of the additions that succeeded, over the
  integers: no addition wraps, and one that would is refused without effect.
\<close>

theorem counter_adds_exact:
  assumes "holds_at s k is_counter" "list_all (only_at k counter_op \<circ> fst) ms"
  shows "counter_at k (run_store s ms) = counter_at k s + sum_list (List.map_filter (added k) (run_log s ms))"
  using assms
proof (induction s ms rule: run_log.induct)
  case (2 s m now ms)
  then show ?case
    using counter_step [of s k m now] by (auto simp: map_filter_simps split: option.split)
qed (simp add: map_filter_simps)

definition sample_counter_log :: "(mutation \<times> wall_timestamp) list" where
  "sample_counter_log =
    [(M_CounterAdd [1] 5, 10), (M_CounterAdd [1] (of_int (2 ^ 63 - 1)), 11), (M_CounterAdd [1] (- 7), 12)]"

theorem counter_adds_exact_witness: "counter_at [1] (run_store store_new sample_counter_log) = - 2"
proof -
  have "holds_at store_new [1] is_counter" "list_all (only_at [1] counter_op \<circ> fst) sample_counter_log"
    "counter_at [1] store_new = 0"
    "List.map_filter (added [1]) (run_log store_new sample_counter_log) = [5, - 7]"
    by (simp_all add: sample_counter_log_def run_eval store_eval arm_eval arith_defs map_filter_simps added_def
        is_counter_def)
  then show ?thesis using counter_adds_exact [of store_new "[1]" sample_counter_log] by simp
qed


definition sample_semaphore :: "u64 \<Rightarrow> object_store" where
  "sample_semaphore capacity = fst (apply_mutation store_new (M_SemaphoreCreate [1] capacity) 5)"

lemmas semaphore_eval = sample_semaphore_def semaphore_admit_def MAX_SEMAPHORE_PERMITS_def outstanding_def
  bt_values_def store_eval arm_eval arith_defs value_at_def


text \<open>
  The exception is real: on a semaphore of capacity \<open>u64::MAX\<close> the saturating total admits permits
  whose quantities add up to more than the capacity, and the structural invariant still accepts the state.
\<close>

theorem semaphore_overcommit:
  "let s1 = fst (apply_mutation (sample_semaphore (- 1)) (M_SemaphoreAcquire [1] [2] 7 (- 1)) 6);
       s2 = fst (apply_mutation s1 (M_SemaphoreAcquire [1] [3] 8 (- 1)) 6) in
    case value_at s2 [1] of
      Some (V_Semaphore st) \<Rightarrow>
        semaphore_invariant_holds st \<and> unat (sem_capacity st) < permits_total (sem_permits st)
    | _ \<Rightarrow> False"
  by (simp add: semaphore_eval semaphore_invariant_holds_def permits_total_def word_greater_zero_iff unat_gt_0)

text \<open>
  Range writes.  A successful splice has the length of the longer of the base and the patched
  range; the bytes outside the range are the base's, a gap past its end is zero, and reading the range
  back gives the patch.  A splice is refused only when the end of the range does not fit 64 bits.
\<close>

theorem splice_range_exact:
  "case splice_inline base off patch of
     None \<Rightarrow> unat off + length patch \<ge> 2 ^ 64
   | Some out \<Rightarrow>
       length out = max (length base) (unat off + length patch)
       \<and> take (unat off) out = take (unat off) base @ replicate (unat off - length base) 0
       \<and> drop (unat off + length patch) out = drop (unat off + length patch) base
       \<and> slice_range out off (of_nat (length patch)) = patch"
proof (cases "splice_inline base off patch")
  case None
  then show ?thesis by (simp add: splice_inline_def Let_def split: if_splits)
next
  case (Some out)
  then have "length patch < 2 ^ 64" by (simp add: splice_inline_def Let_def split: if_splits)
  then have "unat (of_nat (length patch) :: u64) = length patch" by (simp add: unsigned_of_nat take_bit_nat_eq_self)
  then show ?thesis
    using Some length_splice_inline [OF Some] slice_splice_inline [OF Some] splice_inline_Some [OF Some] by auto
qed

end
