(* ===== verification/Escrow.thy ===== *)
theory Escrow
  imports Object_Semantics
begin

text \<open>
  Escrow rights on the store: what a share move does to the width of a share, and that the local commit
  and the paired transfer neither mint nor destroy rights.
\<close>

section \<open>One share move\<close>

definition share_of :: "object_store \<Rightarrow> key \<Rightarrow> wall_timestamp \<Rightarrow> (i64 \<times> i64) option" where
  "share_of s k now =
    (case store_get s k now of
       None \<Rightarrow> None
     | Some obj \<Rightarrow>
         (case so_value obj of
            V_BoundedCounter st \<Rightarrow> Some (es_min (bc_share st), es_max (bc_share st))
          | _ \<Rightarrow> None))"

lemma live_width_share: "live_width s now k = (case share_of s k now of None \<Rightarrow> 0 | Some sh \<Rightarrow> share_width sh)"
  by (simp add: live_width_def share_of_def share_width_def split: option.split logical_value.split)

lemma share_of_agree: "agree k s t \<Longrightarrow> share_of s k now = share_of t k now"
  by (simp add: share_of_def agree_reads [of k t s] agree_def)

lemma set_share_applied:
  assumes "apply_mutation s (M_EscrowSetShare k mn mx) now = (s', Inr out)"
  shows "share_of s' k now = Some (mn, mx)"
proof -
  let ?m = "M_EscrowSetShare k mn mx"
  have inner: "snd (apply_inner s ?m now) = Inr out" "get_stored s' k = get_stored (fst (apply_inner s ?m now)) k"
    using apply_at_ok [OF assms] by (simp_all add: is_txn_def)
  obtain obj st where obj: "live s k now = Some obj" "so_value obj = V_BoundedCounter st"
    using inner(1) by (auto simp: apply_inner_def apply_escrow_set_share_def mismatch_def
        split: option.splits logical_value.splits)
  then have "\<not> so_is_expired obj now" "expiry_of s k = so_expiry obj"
    using live_stored [OF obj(1)] by (simp_all add: expiry_of_def)
  then show ?thesis
    using inner obj
    by (auto simp: apply_inner_def apply_escrow_set_share_def update_value_def share_of_def store_get_def
        get_stored_def insert_object_def so_is_expired_def split: if_splits sum.splits)
qed

lemma set_share_frame:
  "k' \<noteq> k \<Longrightarrow> agree k' (fst (apply_mutation s (M_EscrowSetShare k mn mx) now)) s"
  using apply_ordinary_frame(1) [of "M_EscrowSetShare k mn mx" k k' s now]
  by (simp add: agree_def apply_mutation_ordinary is_txn_def)

section \<open>The local commit\<close>

lemma sum_escrow_writes:
  "sum_list (map (\<lambda>(k, w). escrow_width (tw_kind w)) ps) =
    sum_list (map (\<lambda>(k, w). escrow_width (tw_kind w))
      (filter (\<lambda>(k, w). is_escrow (txn_mutation k (tw_kind w))) ps))"
proof (induction ps)
  case (Cons p ps)
  then show ?case
    by (cases p; cases "tw_kind (snd p)") (auto simp: escrow_width_def txn_mutation_def is_escrow_def)
qed simp

lemma committed_share:
  assumes "commit_local s ws now = (s', Inr rs)" "(k, w) \<in> set (collapse ws)" "tw_kind w = W_EscrowSetShare mn mx"
  shows "live_width s' now k = escrow_width (tw_kind w)"
proof -
  have ok: "commit_ok s now ws" using commit_local_reject [of s now ws] assms(1) by auto
  obtain t where t: "commit_local s ws now = (t, Inr (map (\<lambda>w. the (write_result s now (tw_key w)
        (tw_kind (the (effective ws (tw_key w)))))) ws))"
    "\<forall>k. case effective ws k of None \<Rightarrow> agree k t s
       | Some w \<Rightarrow> validated s now k w \<and> agree k t (fst (write_alone s now k (tw_kind w)))"
    using commit_local_commit [OF ok] by blast
  have "effective ws k = Some w" using assms(2) by (simp add: effective_def collapse_mem_iff)
  then have w: "validated s now k w" "agree k s' (fst (write_alone s now k (tw_kind w)))"
    using t(2) [THEN spec, of k] t(1) assms(1) by auto
  obtain s1 out where "write_alone s now k (tw_kind w) = (s1, Inr out)" using validated_applies [OF w(1)] by blast
  then have "share_of s' k now = Some (mn, mx)"
    using set_share_applied [of s k mn mx now s1 out] share_of_agree [OF w(2)] assms(3)
    by (simp add: write_alone_def txn_mutation_def)
  then show ?thesis using assms(3) by (simp add: live_width_share share_width_def escrow_width_def)
qed

section \<open>The paired transfer\<close>

lemma load_bounded_share:
  assumes "load_bounded s k now = Inr (st, v)"
  shows "share_of s k now = Some (es_min (bc_share st), es_max (bc_share st))"
    "store_inv s \<Longrightarrow> bounded_invariant_holds st"
proof -
  obtain obj where obj: "store_get s k now = Some obj" "so_value obj = V_BoundedCounter st"
    using assms by (auto simp: load_bounded_def split: option.splits logical_value.splits)
  then show "share_of s k now = Some (es_min (bc_share st), es_max (bc_share st))"
    by (simp add: share_of_def)
  show "store_inv s \<Longrightarrow> bounded_invariant_holds st"
    using live_wf(1) [OF store_inv_cur_wf _ obj(2), of s k now] obj(1) by (simp add: live_def)
qed

lemma transfer_escrow_ok:
  assumes "transfer_escrow s donor recipient amount now = (s', Inr vs)" "donor \<noteq> recipient"
  obtains d dv r rv d' r' s1 o1 o2 where
    "load_bounded s donor now = Inr (d, dv)" "load_bounded s recipient now = Inr (r, rv)"
    "plan_escrow_transfer (es_min (bc_share d), es_max (bc_share d)) (bc_value d)
       (es_min (bc_share r), es_max (bc_share r)) (bc_capacity r) amount = Inr (d', r')"
    "apply_mutation s (M_EscrowSetShare donor (fst d') (snd d')) now = (s1, Inr o1)"
    "apply_mutation s1 (M_EscrowSetShare recipient (fst r') (snd r')) now = (s', Inr o2)"
  using assms
  by (auto simp: transfer_escrow_def result_simps split: if_splits sum.splits prod.splits)

section \<open>Properties\<close>

text \<open>
  C24: A committed local transaction conserves escrow rights: over the keys whose shares it moves, the
  widths add up to the same total after the commit as before it, whatever else the transaction writes.
\<close>

theorem commit_local_conserves_escrow:
  assumes "commit_local s ws now = (s', Inr results)"
  shows "sum_list (map (live_width s' now) (escrow_keys (collapse ws)))
    = sum_list (map (live_width s now) (escrow_keys (collapse ws)))"
proof -
  let ?ps = "filter (\<lambda>(k, w). is_escrow (txn_mutation k (tw_kind w))) (collapse ws)"
  have "sum_list (map (live_width s' now \<circ> fst) ?ps) = sum_list (map (\<lambda>(k, w). escrow_width (tw_kind w)) ?ps)"
    using committed_share [OF assms] by (intro arg_cong [of _ _ sum_list] map_cong refl) fastforce
  then have "sum_list (map (live_width s' now) (escrow_keys (collapse ws)))
      = sum_list (map (\<lambda>(k, w). escrow_width (tw_kind w)) (collapse ws))"
    using sum_escrow_writes [of "collapse ws"] by (simp add: escrow_keys_def)
  moreover have "commit_ok s now ws" using commit_local_reject [of s now ws] assms by auto
  ultimately show ?thesis by (auto simp: commit_ok_def escrow_keys_def)
qed

definition sample_shares :: "u64 \<Rightarrow> object_store" where
  "sample_shares version = put_stored (put_stored store_new [1] (stored_new (V_BoundedCounter (sample_counter 10 0 50)) 1 None))
    [2] (stored_new (V_BoundedCounter (sample_counter 5 0 20)) version None)"

definition sample_moves :: "txn_write list" where
  "sample_moves =
    [\<lparr> tw_key = [1], tw_kind = W_EscrowSetShare 0 20, tw_expect = Any \<rparr>,
     \<lparr> tw_key = [3], tw_kind = W_Put [7], tw_expect = Absent \<rparr>,
     \<lparr> tw_key = [2], tw_kind = W_EscrowSetShare 0 50, tw_expect = Any \<rparr>]"

lemmas escrow_eval = sample_shares_def sample_moves_def sample_counter_def commit_local_def collapse_def
  check_txn_writable_def escrow_share_valid_def i64_try_from_def local_commit_mutation_def check_share_widths_def
  share_after_def versions_available_def is_escrow_def is_delete_def local_result_for_def outcome_stored_def
  escrow_keys_def live_width_def store_eval arm_eval arith_defs

theorem commit_local_conserves_escrow_witness:
  "sum_list (map (live_width (fst (commit_local (sample_shares 1) sample_moves 5)) 5) [[1], [2]]) = 70"
proof -
  have "commit_local (sample_shares 1) sample_moves 5 =
      (fst (commit_local (sample_shares 1) sample_moves 5), Inr [R_Stored 2, R_Stored 1, R_Stored 2])"
    "escrow_keys (collapse sample_moves) = [[1], [2]]"
    "sum_list (map (live_width (sample_shares 1) 5) [[1], [2]]) = 70"
    by (simp_all add: escrow_eval)
  then show ?thesis
    using commit_local_conserves_escrow [of "sample_shares 1" sample_moves 5] by metis
qed

text \<open>
  A successful transfer between two counters moves exactly the amount: the donor's width shrinks
  by it, the recipient's grows by it, the lower ends stay, and no other key changes.  (A failed transfer
  is not covered; see the next theorem.)
\<close>

theorem transfer_escrow_moves:
  assumes "store_inv s" "donor \<noteq> recipient" "transfer_escrow s donor recipient amount now = (s', Inr vs)"
  shows "live_width s' now donor = live_width s now donor - int (unat amount)
    \<and> live_width s' now recipient = live_width s now recipient + int (unat amount)
    \<and> map_option fst (share_of s' donor now) = map_option fst (share_of s donor now)
    \<and> map_option fst (share_of s' recipient now) = map_option fst (share_of s recipient now)
    \<and> untouched [donor, recipient] s s'"
proof -
  obtain d dv r rv d' r' s1 o1 o2 where
    load: "load_bounded s donor now = Inr (d, dv)" "load_bounded s recipient now = Inr (r, rv)"
    and plan: "plan_escrow_transfer (es_min (bc_share d), es_max (bc_share d)) (bc_value d)
       (es_min (bc_share r), es_max (bc_share r)) (bc_capacity r) amount = Inr (d', r')"
    and a1: "apply_mutation s (M_EscrowSetShare donor (fst d') (snd d')) now = (s1, Inr o1)"
    and a2: "apply_mutation s1 (M_EscrowSetShare recipient (fst r') (snd r')) now = (s', Inr o2)"
    using transfer_escrow_ok [OF assms(3,2)] by metis
  have wf: "bounded_invariant_holds d" "bounded_invariant_holds r"
    using load_bounded_share(2) [OF load(1) assms(1)] load_bounded_share(2) [OF load(2) assms(1)] by auto
  note ok = plan_escrow_transfer_ok_iff [OF wf, of amount "(d', r')", THEN iffD1, OF plan]
  note shares = escrow_shares [OF wf ok [THEN conjunct2, THEN conjunct1] ok [THEN conjunct2, THEN conjunct2, THEN conjunct1]]
  have "agree donor s' s1"
    using set_share_frame [OF assms(2), of s1 "fst r'" "snd r'" now] a2 by simp
  then have after: "share_of s' donor now = Some d'" "share_of s' recipient now = Some r'"
    using set_share_applied [OF a1] set_share_applied [OF a2] share_of_agree [of donor s' s1] by simp_all
  have "untouched [donor, recipient] s s'"
    using untouched_trans [OF untouched_apply_mutation [of "M_EscrowSetShare donor (fst d') (snd d')" s now]
        untouched_apply_mutation [of "M_EscrowSetShare recipient (fst r') (snd r')" _ now]] a1 a2
    by (simp add: mutation_keys_def)
  then show ?thesis
    using after load_bounded_share(1) [OF load(1)] load_bounded_share(1) [OF load(2)] ok shares
    by (simp add: live_width_share share_width_def del: of_nat_unat)
qed

theorem transfer_escrow_moves_witness:
  "live_width (fst (transfer_escrow (sample_shares 1) [1] [2] 30 5)) 5 [1] = 20
    \<and> live_width (fst (transfer_escrow (sample_shares 1) [1] [2] 30 5)) 5 [2] = 50"
proof -
  have "store_inv (sample_shares 1)"
    unfolding sample_shares_def
    by (intro store_inv_put_stored store_run_inv store_run.intros)
      (simp_all add: sample_counter_def bounded_invariant_holds_def i64_try_from_def)
  moreover have "transfer_escrow (sample_shares 1) [1] [2] 30 5 =
      (fst (transfer_escrow (sample_shares 1) [1] [2] 30 5), Inr (2, 2))"
    "live_width (sample_shares 1) 5 [1] = 50" "live_width (sample_shares 1) 5 [2] = 20"
    by (simp_all add: escrow_eval transfer_escrow_def load_bounded_def plan_escrow_transfer_def
        verify_escrow_widths_def share_width_def version_now_def Let_def)
  ultimately show ?thesis
    using transfer_escrow_moves [of "sample_shares 1" "[1]" "[2]" 30 5] by simp
qed

text \<open>
  A failed transfer can be half applied.  When the recipient's version is exhausted the transfer
  reports an error, but the donor has already been narrowed: its rights are gone and nobody holds them.
\<close>

theorem transfer_escrow_half_applied:
  "case transfer_escrow (sample_shares (- 1)) [1] [2] 30 5 of
     (s', Inl e) \<Rightarrow> e = E_BoundedExceeded
       \<and> live_width (sample_shares (- 1)) 5 [1] = 50 \<and> live_width s' 5 [1] = 20
       \<and> live_width (sample_shares (- 1)) 5 [2] = 20 \<and> live_width s' 5 [2] = 20
   | (s', Inr _) \<Rightarrow> False"
  by (simp add: escrow_eval transfer_escrow_def load_bounded_def plan_escrow_transfer_def
      verify_escrow_widths_def share_width_def version_now_def Let_def
      unsigned_minus_1_eq_mask mask_eq_exp_minus_1)

end
