(* ===== verification/Store_Prepare.thy ===== *)
theory Store_Prepare
  imports Escrow
begin

text \<open>
  The validation side of \<open>crates/kivi-state/src/store.rs\<close>: \<open>prepare\<close> answers reads and turns writes
  into mutations, \<open>prepare_durable\<close> additionally predicts the result the later \<open>apply\<close> must produce,
  with one \<open>predict\<close> function for each family of operations.  Both only read the store.
\<close>

section \<open>Prepared operations\<close>

datatype prepared = P_Read operation_result | P_Write mutation

text \<open>\<open>SP_Panic\<close> marks the panic of \<open>prepare_durable\<close>.\<close>

datatype store_prepared =
    SP_Read operation_result
  | SP_Terminal durable_outcome
  | SP_Write mutation operation_result
  | SP_Panic

definition wrong_type :: "object_type \<Rightarrow> stored_object \<Rightarrow> op_error" where
  "wrong_type expected obj = E_WrongType expected (so_object_type obj)"

definition rejected :: "op_error \<Rightarrow> store_prepared" where
  "rejected e = SP_Terminal (D_Rejected e)"

definition completed :: "operation_result \<Rightarrow> store_prepared" where
  "completed r = SP_Terminal (D_Completed r)"

section \<open>Prepare\<close>

definition prepare_get :: "object_store \<Rightarrow> key \<Rightarrow> wall_timestamp \<Rightarrow> op_error + prepared" where
  "prepare_get s k now =
    (case store_get s k now of
       None \<Rightarrow> Inr (P_Read (R_Value None))
     | Some obj \<Rightarrow>
         (case so_value obj of
            V_Bytes value \<Rightarrow> Inr (P_Read (R_Value (Some value)))
          | V_Chunked chunked \<Rightarrow> Inr (P_Read (R_ChunkedValue (cr_manifest chunked) (cr_logical_len chunked)))
          | V_Fabric fabric \<Rightarrow>
              Inr (P_Read (R_FabricValue (fr_id fabric) (fr_logical_len fabric) (fr_version fabric)))
          | _ \<Rightarrow> Inl (wrong_type T_Bytes obj)))"

definition prepare_get_range ::
    "object_store \<Rightarrow> key \<Rightarrow> u64 \<Rightarrow> u64 \<Rightarrow> wall_timestamp \<Rightarrow> op_error + prepared" where
  "prepare_get_range s k offset len now =
    (case store_get s k now of
       None \<Rightarrow> Inr (P_Read (R_Value None))
     | Some obj \<Rightarrow>
         (case so_value obj of
            V_Bytes value \<Rightarrow> Inr (P_Read (R_Value (Some (slice_range value offset len))))
          | V_Chunked chunked \<Rightarrow> Inr (P_Read (R_ChunkedValue (cr_manifest chunked) (cr_logical_len chunked)))
          | V_Fabric fabric \<Rightarrow>
              Inr (P_Read (R_FabricValue (fr_id fabric) (fr_logical_len fabric) (fr_version fabric)))
          | _ \<Rightarrow> Inl (wrong_type T_Bytes obj)))"

definition prepare_bytes_length :: "object_store \<Rightarrow> key \<Rightarrow> wall_timestamp \<Rightarrow> op_error + prepared" where
  "prepare_bytes_length s k now =
    (case store_get s k now of
       None \<Rightarrow> Inr (P_Read (R_Length None))
     | Some obj \<Rightarrow>
         (case so_value obj of
            V_Bytes value \<Rightarrow> Inr (P_Read (R_Length (Some (of_nat (length value)))))
          | V_Chunked chunked \<Rightarrow> Inr (P_Read (R_Length (Some (cr_logical_len chunked))))
          | V_Fabric fabric \<Rightarrow> Inr (P_Read (R_Length (Some (fr_logical_len fabric))))
          | _ \<Rightarrow> Inl (wrong_type T_Bytes obj)))"

definition prepare_set_range ::
    "object_store \<Rightarrow> key \<Rightarrow> u64 \<Rightarrow> bytes \<Rightarrow> wall_timestamp \<Rightarrow> op_error + prepared" where
  "prepare_set_range s k offset patch now =
    (case store_get s k now of
       None \<Rightarrow> Inr (P_Write (M_SpliceBytes k offset patch))
     | Some obj \<Rightarrow>
         (case so_value obj of
            V_Bytes _ \<Rightarrow> Inr (P_Write (M_SpliceBytes k offset patch))
          | V_Chunked _ \<Rightarrow> Inl E_StaleRangeBase
          | V_Fabric _ \<Rightarrow> Inl E_StaleRangeBase
          | _ \<Rightarrow> Inl (wrong_type T_Bytes obj)))"

definition prepare_counter_get :: "object_store \<Rightarrow> key \<Rightarrow> wall_timestamp \<Rightarrow> op_error + prepared" where
  "prepare_counter_get s k now =
    (case store_get s k now of
       None \<Rightarrow> Inr (P_Read (R_Counter None))
     | Some obj \<Rightarrow>
         (case so_value obj of
            V_StrictCounter value \<Rightarrow> Inr (P_Read (R_Counter (Some value)))
          | _ \<Rightarrow> Inl (wrong_type T_StrictCounter obj)))"

definition prepare_counter_add ::
    "object_store \<Rightarrow> key \<Rightarrow> i64 \<Rightarrow> wall_timestamp \<Rightarrow> op_error + prepared" where
  "prepare_counter_add s k delta now =
    (case store_get s k now of
       None \<Rightarrow> Inr (P_Write (M_CounterAdd k delta))
     | Some obj \<Rightarrow>
         (case so_value obj of
            V_StrictCounter value \<Rightarrow>
              and_then (ok_or E_CounterOverflow (checked_sadd value delta)) (\<lambda>_.
                Inr (P_Write (M_CounterAdd k delta)))
          | _ \<Rightarrow> Inl (wrong_type T_StrictCounter obj)))"

definition prepare_expire_at ::
    "object_store \<Rightarrow> key \<Rightarrow> wall_timestamp \<Rightarrow> wall_timestamp \<Rightarrow> op_error + prepared" where
  "prepare_expire_at s k expires_at now =
    (case store_get s k now of
       None \<Rightarrow> Inr (P_Read (R_ExpirySet False))
     | Some _ \<Rightarrow> Inr (P_Write (M_SetExpiry k (Some expires_at))))"

definition prepare_persist_expiry :: "object_store \<Rightarrow> key \<Rightarrow> wall_timestamp \<Rightarrow> op_error + prepared" where
  "prepare_persist_expiry s k now =
    (case store_get s k now of
       None \<Rightarrow> Inr (P_Read (R_ExpiryPersisted False))
     | Some obj \<Rightarrow>
         if so_expiry obj \<noteq> expiry_NEVER then Inr (P_Write (M_SetExpiry k expiry_NEVER))
         else Inr (P_Read (R_ExpiryPersisted False)))"

text \<open>The condition and the resolved expiry of a conditional store, the same in its three shapes.\<close>

definition condition_holds :: "set_condition \<Rightarrow> stored_object option \<Rightarrow> bool" where
  "condition_holds condition cur =
    (case condition of Always \<Rightarrow> True | IfAbsent \<Rightarrow> cur = None | IfPresent \<Rightarrow> cur \<noteq> None)"

definition resolve_expiry :: "expiry_policy \<Rightarrow> stored_object option \<Rightarrow> expiry" where
  "resolve_expiry policy cur =
    (case policy of
       Clear \<Rightarrow> expiry_NEVER
     | Keep \<Rightarrow> (case cur of None \<Rightarrow> expiry_NEVER | Some obj \<Rightarrow> so_expiry obj)
     | ExpireAt stamp \<Rightarrow> Some stamp)"

definition prepare_set_conditional ::
    "object_store \<Rightarrow> key \<Rightarrow> bytes \<Rightarrow> set_condition \<Rightarrow> expiry_policy \<Rightarrow> wall_timestamp \<Rightarrow> prepared" where
  "prepare_set_conditional s k value condition policy now =
    (let cur = store_get s k now in
     if \<not> condition_holds condition cur then P_Read (R_ConditionalSet False None)
     else P_Write (M_PutBytesWithExpiry k value (resolve_expiry policy cur)))"

definition prepare_set_conditional_chunked ::
    "object_store \<Rightarrow> key \<Rightarrow> manifest_id \<Rightarrow> u64 \<Rightarrow> set_condition \<Rightarrow> expiry_policy \<Rightarrow> wall_timestamp \<Rightarrow> prepared" where
  "prepare_set_conditional_chunked s k manifest logical_len condition policy now =
    (let cur = store_get s k now in
     if \<not> condition_holds condition cur then P_Read (R_ConditionalSet False None)
     else P_Write (M_ReplaceChunkedRootWithExpiry k manifest logical_len (resolve_expiry policy cur)))"

definition prepare_set_conditional_fabric ::
    "object_store \<Rightarrow> key \<Rightarrow> fabric_ref \<Rightarrow> set_condition \<Rightarrow> expiry_policy \<Rightarrow> wall_timestamp \<Rightarrow> prepared" where
  "prepare_set_conditional_fabric s k reference condition policy now =
    (let cur = store_get s k now in
     if \<not> condition_holds condition cur then P_Read (R_ConditionalSet False None)
     else P_Write (M_ReplaceFabricRootWithExpiry k (fr_id reference) (fr_logical_len reference)
            (fr_version reference) (resolve_expiry policy cur)))"

definition prepare_commutative_get :: "object_store \<Rightarrow> key \<Rightarrow> wall_timestamp \<Rightarrow> op_error + prepared" where
  "prepare_commutative_get s k now =
    (case store_get s k now of
       None \<Rightarrow> Inr (P_Read (R_CommutativeValue None))
     | Some obj \<Rightarrow>
         (case so_value obj of
            V_CommutativeCounter value \<Rightarrow> Inr (P_Read (R_CommutativeValue (Some value)))
          | _ \<Rightarrow> Inl (wrong_type T_CommutativeCounter obj)))"

definition prepare_commutative_add ::
    "object_store \<Rightarrow> key \<Rightarrow> i64 \<Rightarrow> wall_timestamp \<Rightarrow> op_error + prepared" where
  "prepare_commutative_add s k delta now =
    (case store_get s k now of
       None \<Rightarrow> Inr (P_Write (M_CommutativeAdd k delta))
     | Some obj \<Rightarrow>
         (case so_value obj of
            V_CommutativeCounter value \<Rightarrow>
              and_then (ok_or E_CounterOverflow (checked_sadd value delta)) (\<lambda>_.
                Inr (P_Write (M_CommutativeAdd k delta)))
          | _ \<Rightarrow> Inl (wrong_type T_CommutativeCounter obj)))"

definition prepare_bounded_get :: "object_store \<Rightarrow> key \<Rightarrow> wall_timestamp \<Rightarrow> op_error + prepared" where
  "prepare_bounded_get s k now =
    (case store_get s k now of
       None \<Rightarrow> Inr (P_Read (R_BoundedValue None None None))
     | Some obj \<Rightarrow>
         (case so_value obj of
            V_BoundedCounter st \<Rightarrow>
              Inr (P_Read (R_BoundedValue (Some (bc_value st)) (Some (bc_capacity st))
                (Some (es_min (bc_share st), es_max (bc_share st)))))
          | _ \<Rightarrow> Inl (wrong_type T_BoundedCounter obj)))"

definition prepare_bounded_create ::
    "object_store \<Rightarrow> key \<Rightarrow> u64 \<Rightarrow> tablet_id \<Rightarrow> wall_timestamp \<Rightarrow> op_error + prepared" where
  "prepare_bounded_create s k capacity holder now =
    (case store_get s k now of
       Some obj \<Rightarrow> Inl (wrong_type T_BoundedCounter obj)
     | None \<Rightarrow>
         if unat capacity > 2 ^ 63 - 1 then Inl E_BoundedExceeded
         else Inr (P_Write (M_BoundedCreate k capacity holder)))"

definition prepare_bounded_add ::
    "object_store \<Rightarrow> key \<Rightarrow> i64 \<Rightarrow> wall_timestamp \<Rightarrow> op_error + prepared" where
  "prepare_bounded_add s k delta now =
    (case store_get s k now of
       None \<Rightarrow> Inl E_BoundedExceeded
     | Some obj \<Rightarrow>
         (case so_value obj of
            V_BoundedCounter st \<Rightarrow>
              and_then (bounded_add_preview st delta) (\<lambda>_. Inr (P_Write (M_BoundedAdd k delta)))
          | _ \<Rightarrow> Inl (wrong_type T_BoundedCounter obj)))"

text \<open>A lone share move narrows: the new share lies within the old one.\<close>

definition escrow_narrows :: "bounded_counter_state \<Rightarrow> i64 \<Rightarrow> i64 \<Rightarrow> bool" where
  "escrow_narrows st mn mx \<longleftrightarrow>
    \<not> (sint mn < sint (es_min (bc_share st)) \<or> sint mx > sint (es_max (bc_share st))
       \<or> \<not> escrow_share_valid (bc_value st) (bc_capacity st) mn mx)"

definition prepare_escrow_transfer ::
    "object_store \<Rightarrow> key \<Rightarrow> i64 \<Rightarrow> i64 \<Rightarrow> wall_timestamp \<Rightarrow> op_error + prepared" where
  "prepare_escrow_transfer s k mn mx now =
    (case store_get s k now of
       None \<Rightarrow> Inl E_BoundedExceeded
     | Some obj \<Rightarrow>
         (case so_value obj of
            V_BoundedCounter st \<Rightarrow>
              if \<not> escrow_narrows st mn mx then Inl E_BoundedExceeded
              else Inr (P_Write (M_EscrowSetShare k mn mx))
          | _ \<Rightarrow> Inl (wrong_type T_BoundedCounter obj)))"

definition prepare_semaphore_create ::
    "object_store \<Rightarrow> key \<Rightarrow> u64 \<Rightarrow> wall_timestamp \<Rightarrow> op_error + prepared" where
  "prepare_semaphore_create s k capacity now =
    (case store_get s k now of
       Some obj \<Rightarrow> Inl (wrong_type T_Semaphore obj)
     | None \<Rightarrow> Inr (P_Write (M_SemaphoreCreate k capacity)))"

definition prepare_semaphore_acquire ::
    "object_store \<Rightarrow> key \<Rightarrow> permit_id \<Rightarrow> u64 \<Rightarrow> u64 \<Rightarrow> wall_timestamp \<Rightarrow> op_error + prepared" where
  "prepare_semaphore_acquire s k permit owner qty now =
    (case store_get s k now of
       None \<Rightarrow> Inl E_NotFound
     | Some obj \<Rightarrow>
         (case so_value obj of
            V_Semaphore st \<Rightarrow>
              if qty = 0 then Inr (P_Write (M_SemaphoreAcquire k permit owner qty))
              else
                (case bt_get (sem_permits st) permit of
                   Some held \<Rightarrow>
                     if pr_owner held = owner \<and> pr_qty held = qty
                     then Inr (P_Write (M_SemaphoreAcquire k permit owner qty))
                     else Inl E_SemaphoreExhausted
                 | None \<Rightarrow>
                     if length (sem_permits st) \<ge> MAX_SEMAPHORE_PERMITS then Inl E_SemaphoreExhausted
                     else if saturating_add (outstanding st) qty > sem_capacity st
                     then Inl E_SemaphoreExhausted
                     else Inr (P_Write (M_SemaphoreAcquire k permit owner qty)))
          | _ \<Rightarrow> Inl (wrong_type T_Semaphore obj)))"

definition prepare_semaphore_release ::
    "object_store \<Rightarrow> key \<Rightarrow> permit_id \<Rightarrow> wall_timestamp \<Rightarrow> op_error + prepared" where
  "prepare_semaphore_release s k permit now =
    (case store_get s k now of
       None \<Rightarrow> Inr (P_Read (R_SemaphoreReleased False))
     | Some obj \<Rightarrow>
         (case so_value obj of
            V_Semaphore st \<Rightarrow>
              if bt_get (sem_permits st) permit = None then Inr (P_Read (R_SemaphoreReleased False))
              else Inr (P_Write (M_SemaphoreRelease k permit))
          | _ \<Rightarrow> Inl (wrong_type T_Semaphore obj)))"

definition prepare_semaphore_inspect :: "object_store \<Rightarrow> key \<Rightarrow> wall_timestamp \<Rightarrow> op_error + prepared" where
  "prepare_semaphore_inspect s k now =
    (case store_get s k now of
       None \<Rightarrow> Inl E_NotFound
     | Some obj \<Rightarrow>
         (case so_value obj of
            V_Semaphore st \<Rightarrow> Inr (P_Read (R_SemaphoreLoad (outstanding st) (sem_capacity st)))
          | _ \<Rightarrow> Inl (wrong_type T_Semaphore obj)))"

text \<open>The token and the live holder an acquire or an inspection sees.\<close>

definition lease_view ::
    "object_store \<Rightarrow> key \<Rightarrow> wall_timestamp \<Rightarrow> op_error + (fencing_token \<times> lease_holder option)" where
  "lease_view s k now =
    (case store_get s k now of
       None \<Rightarrow> Inr (1, None)
     | Some obj \<Rightarrow>
         (case so_value obj of
            V_Lease st \<Rightarrow> Inr (ls_next_fencing st, lease_live st now)
          | _ \<Rightarrow> Inl (wrong_type T_Lease obj)))"

definition prepare_lease_acquire ::
    "object_store \<Rightarrow> key \<Rightarrow> u64 \<Rightarrow> u64 \<Rightarrow> wall_timestamp \<Rightarrow> op_error + prepared" where
  "prepare_lease_acquire s k owner ttl_micros now =
    and_then (lease_view s k now) (\<lambda>(fencing, holder).
      if holder \<noteq> None then Inl E_LeaseConflict
      else Inr (P_Write (M_LeaseAcquire k owner fencing (lease_expires_at now ttl_micros))))"

definition prepare_lease_renew ::
    "object_store \<Rightarrow> key \<Rightarrow> u64 \<Rightarrow> fencing_token \<Rightarrow> u64 \<Rightarrow> wall_timestamp \<Rightarrow> op_error + prepared" where
  "prepare_lease_renew s k owner fencing ttl_micros now =
    (case store_get s k now of
       None \<Rightarrow> Inl E_StaleFencing
     | Some obj \<Rightarrow>
         (case so_value obj of
            V_Lease st \<Rightarrow>
              (case lease_live st now of
                 None \<Rightarrow> Inl E_StaleFencing
               | Some holder \<Rightarrow>
                   if lh_owner holder = owner \<and> lh_fencing holder = fencing
                   then Inr (P_Write (M_LeaseRenew k owner fencing (lease_expires_at now ttl_micros)))
                   else Inl E_StaleFencing)
          | _ \<Rightarrow> Inl (wrong_type T_Lease obj)))"

definition prepare_lease_release ::
    "object_store \<Rightarrow> key \<Rightarrow> u64 \<Rightarrow> fencing_token \<Rightarrow> wall_timestamp \<Rightarrow> op_error + prepared" where
  "prepare_lease_release s k owner fencing now =
    (case store_get s k now of
       None \<Rightarrow> Inr (P_Read (R_LeaseReleased False))
     | Some obj \<Rightarrow>
         (case so_value obj of
            V_Lease st \<Rightarrow>
              (case ls_holder st of
                 None \<Rightarrow> Inr (P_Read (R_LeaseReleased False))
               | Some holder \<Rightarrow>
                   if lh_owner holder = owner \<and> lh_fencing holder = fencing
                   then Inr (P_Write (M_LeaseRelease k owner fencing))
                   else Inl E_StaleFencing)
          | _ \<Rightarrow> Inl (wrong_type T_Lease obj)))"

definition prepare_lease_inspect :: "object_store \<Rightarrow> key \<Rightarrow> wall_timestamp \<Rightarrow> op_error + prepared" where
  "prepare_lease_inspect s k now =
    map_ok (\<lambda>(fencing, holder). P_Read (R_LeaseInfo holder fencing)) (lease_view s k now)"

definition prepare_stream_create ::
    "object_store \<Rightarrow> key \<Rightarrow> bytes \<Rightarrow> u32 \<Rightarrow> wall_timestamp \<Rightarrow> op_error + prepared" where
  "prepare_stream_create s k stream shard now =
    (case store_get s k now of
       Some obj \<Rightarrow> Inl (wrong_type T_StreamShard obj)
     | None \<Rightarrow> Inr (P_Write (M_StreamCreate k stream shard)))"

definition prepare_stream_append ::
    "object_store \<Rightarrow> key \<Rightarrow> bytes \<Rightarrow> bytes \<Rightarrow> wall_timestamp \<Rightarrow> op_error + prepared" where
  "prepare_stream_append s k part payload now =
    (case store_get s k now of
       None \<Rightarrow> Inl E_NotFound
     | Some obj \<Rightarrow>
         (case so_value obj of
            V_StreamShard shard \<Rightarrow>
              if length payload > MAX_STREAM_ENTRY_BYTES
                 \<or> length (ss_entries shard) \<ge> MAX_STREAM_SHARD_ENTRIES then Inl E_StreamFull
              else if length part > MAX_STREAM_ENTRY_BYTES then Inl E_StreamFull
              else Inr (P_Write (M_StreamAppend k part payload))
          | _ \<Rightarrow> Inl (wrong_type T_StreamShard obj)))"

definition prepare_stream_read ::
    "object_store \<Rightarrow> key \<Rightarrow> u64 \<Rightarrow> u32 \<Rightarrow> wall_timestamp \<Rightarrow> op_error + prepared" where
  "prepare_stream_read s k from_offset max_entries now =
    (case store_get s k now of
       None \<Rightarrow> Inr (P_Read (R_StreamEntries [] 0))
     | Some obj \<Rightarrow>
         (case so_value obj of
            V_StreamShard shard \<Rightarrow>
              Inr (P_Read (R_StreamEntries
                (take (unat max_entries) (filter (\<lambda>e. se_offset e \<ge> from_offset) (ss_entries shard)))
                (ss_next_offset shard)))
          | _ \<Rightarrow> Inl (wrong_type T_StreamShard obj)))"

definition prepare_stream_trim ::
    "object_store \<Rightarrow> key \<Rightarrow> u64 \<Rightarrow> wall_timestamp \<Rightarrow> op_error + prepared" where
  "prepare_stream_trim s k through now =
    (case store_get s k now of
       None \<Rightarrow> Inr (P_Read (R_StreamTrimmed 0))
     | Some obj \<Rightarrow>
         (case so_value obj of
            V_StreamShard _ \<Rightarrow> Inr (P_Write (M_StreamTrim k through))
          | _ \<Rightarrow> Inl (wrong_type T_StreamShard obj)))"

section \<open>Prepare for transactions\<close>

definition prepare_txn_reserve ::
    "object_store \<Rightarrow> txn_id \<Rightarrow> tablet_id \<Rightarrow> txn_write \<Rightarrow> txn_digest \<Rightarrow> wall_timestamp \<Rightarrow> op_error + mutation" where
  "prepare_txn_reserve s txn coordinator w digest now =
    (if foreign_intent s (tw_key w) txn digest then Inl E_TxnConflict
     else
       and_then (check_txn_expectation (tw_expect w) (store_get s (tw_key w) now)) (\<lambda>_.
       and_then (check_txn_writable (tw_kind w) (store_get s (tw_key w) now)) (\<lambda>_.
       Inr (M_TxnPrepare txn coordinator (tw_key w) (tw_expect w) (tw_kind w) digest))))"

text \<open>The scratch copy: the touched objects and reservations in a fresh store.\<close>

definition stage_key :: "object_store \<Rightarrow> object_store \<Rightarrow> key \<Rightarrow> object_store" where
  "stage_key s scratch k =
    (let scratch1 = (case get_stored s k of None \<Rightarrow> scratch | Some obj \<Rightarrow> put_stored scratch k obj) in
     case bt_get (intents s) k of None \<Rightarrow> scratch1 | Some i \<Rightarrow> restore_intent scratch1 i)"

definition touched_keys :: "txn_write list \<Rightarrow> key list" where
  "touched_keys ws = foldl (\<lambda>touched w. bts_insert (tw_key w) touched) [] ws"

definition scratch_for :: "object_store \<Rightarrow> txn_write list \<Rightarrow> object_store" where
  "scratch_for s ws = foldl (stage_key s) store_new (touched_keys ws)"

text \<open>
  The last case stands for divergence, which the code answers with a conflict, and for a panic of
  \<open>commit_local\<close>; neither happens (\<open>commit_local_no_panic\<close>).
\<close>

definition prepare_txn_commit_local ::
    "object_store \<Rightarrow> txn_id \<Rightarrow> txn_write list \<Rightarrow> wall_timestamp \<Rightarrow> op_error + mutation" where
  "prepare_txn_commit_local s txn ws now =
    (if ws = [] then Inl E_TxnConflict
     else
       (case snd (commit_local (scratch_for s ws) ws now) of
          Inr _ \<Rightarrow> Inr (M_TxnCommitLocal txn ws)
        | Inl LC_Exhausted \<Rightarrow> Inr (M_TxnCommitLocal txn ws)
        | Inl (LC_Validation e) \<Rightarrow> Inl e
        | Inl _ \<Rightarrow> Inl E_TxnConflict))"

section \<open>The whole of prepare\<close>

definition prepare_plain :: "object_store \<Rightarrow> operation \<Rightarrow> wall_timestamp \<Rightarrow> op_error + prepared" where
  "prepare_plain s op now =
    (case op of
       O_Get k \<Rightarrow> prepare_get s k now
     | O_Set k value \<Rightarrow> Inr (P_Write (M_PutBytes k value))
     | O_SetChunked k manifest logical_len \<Rightarrow> Inr (P_Write (M_ReplaceChunkedRoot k manifest logical_len))
     | O_SetFabric k fabric_id logical_len version \<Rightarrow>
         Inr (P_Write (M_ReplaceFabricRoot k fabric_id logical_len version))
     | O_SetRange k offset patch \<Rightarrow> prepare_set_range s k offset patch now
     | O_Delete k \<Rightarrow> Inr (P_Write (M_Delete k))
     | O_Exists k \<Rightarrow> Inr (P_Read (R_Exists (store_get s k now \<noteq> None)))
     | O_CounterGet k \<Rightarrow> prepare_counter_get s k now
     | O_CounterAdd k delta \<Rightarrow> prepare_counter_add s k delta now
     | O_ExpireAt k expires_at \<Rightarrow> prepare_expire_at s k expires_at now
     | O_PersistExpiry k \<Rightarrow> prepare_persist_expiry s k now
     | O_GetExpiry k \<Rightarrow> Inr (P_Read (R_Expiry (map_option so_expiry (store_get s k now))))
     | O_GetRange k offset len \<Rightarrow> prepare_get_range s k offset len now
     | O_BytesLength k \<Rightarrow> prepare_bytes_length s k now
     | O_GetVersion k \<Rightarrow> Inr (P_Read (R_Version (map_option so_version (store_get s k now))))
     | O_SetConditional k value condition policy \<Rightarrow>
         Inr (prepare_set_conditional s k value condition policy now)
     | O_SetConditionalChunked k manifest logical_len condition policy \<Rightarrow>
         Inr (prepare_set_conditional_chunked s k manifest logical_len condition policy now)
     | O_SetConditionalFabric k fabric_id logical_len version condition policy \<Rightarrow>
         Inr (prepare_set_conditional_fabric s k
           \<lparr> fr_id = fabric_id, fr_logical_len = logical_len, fr_version = version \<rparr> condition policy now)
     | O_CommutativeGet k \<Rightarrow> prepare_commutative_get s k now
     | O_CommutativeAdd k delta \<Rightarrow> prepare_commutative_add s k delta now
     | O_BoundedCounterGet k \<Rightarrow> prepare_bounded_get s k now
     | O_BoundedCounterCreate k capacity holder \<Rightarrow> prepare_bounded_create s k capacity holder now
     | O_BoundedCounterAdd k delta \<Rightarrow> prepare_bounded_add s k delta now
     | O_EscrowTransfer k mn mx \<Rightarrow> prepare_escrow_transfer s k mn mx now
     | O_SemaphoreCreate k capacity \<Rightarrow> prepare_semaphore_create s k capacity now
     | O_SemaphoreAcquire k permit owner qty \<Rightarrow> prepare_semaphore_acquire s k permit owner qty now
     | O_SemaphoreRelease k permit \<Rightarrow> prepare_semaphore_release s k permit now
     | O_SemaphoreInspect k \<Rightarrow> prepare_semaphore_inspect s k now
     | O_LeaseAcquire k owner ttl_micros \<Rightarrow> prepare_lease_acquire s k owner ttl_micros now
     | O_LeaseRenew k owner fencing ttl_micros \<Rightarrow> prepare_lease_renew s k owner fencing ttl_micros now
     | O_LeaseRelease k owner fencing \<Rightarrow> prepare_lease_release s k owner fencing now
     | O_LeaseInspect k \<Rightarrow> prepare_lease_inspect s k now
     | O_StreamCreate k stream shard \<Rightarrow> prepare_stream_create s k stream shard now
     | O_StreamAppend k part payload \<Rightarrow> prepare_stream_append s k part payload now
     | O_StreamRead k from_offset max_entries \<Rightarrow> prepare_stream_read s k from_offset max_entries now
     | O_StreamTrim k through_offset \<Rightarrow> prepare_stream_trim s k through_offset now
     | O_TxnPrepare txn coordinator w digest \<Rightarrow>
         map_ok P_Write (prepare_txn_reserve s txn coordinator w digest now)
     | O_TxnFinalize txn k commit w digest \<Rightarrow> Inr (P_Write (M_TxnFinalize txn k commit w digest))
     | O_TxnCommitLocal txn ws \<Rightarrow> map_ok P_Write (prepare_txn_commit_local s txn ws now))"

definition op_is_txn :: "operation \<Rightarrow> bool" where
  "op_is_txn op =
    (case op of O_TxnPrepare _ _ _ _ \<Rightarrow> True | O_TxnFinalize _ _ _ _ _ \<Rightarrow> True | O_TxnCommitLocal _ _ \<Rightarrow> True
     | _ \<Rightarrow> False)"

text \<open>The reservation guard, which transaction operations bypass.\<close>

definition op_blocked :: "object_store \<Rightarrow> operation \<Rightarrow> bool" where
  "op_blocked s op \<longleftrightarrow>
    \<not> op_is_txn op \<and> is_mutating op
    \<and> (case operation_key op of None \<Rightarrow> False | Some k \<Rightarrow> bt_get (intents s) k \<noteq> None)"

definition prepare :: "object_store \<Rightarrow> operation \<Rightarrow> wall_timestamp \<Rightarrow> op_error + prepared" where
  "prepare s op now = (if op_blocked s op then Inl E_TxnConflict else prepare_plain s op now)"

section \<open>Predictions\<close>

definition predict_version :: "object_store \<Rightarrow> key \<Rightarrow> wall_timestamp \<Rightarrow> durable_outcome + object_version" where
  "predict_version s k now = map_err (\<lambda>_. D_VersionExhausted) (next_version s k now)"

text \<open>A write whose result may use the version it will take.\<close>

definition predict_write ::
    "object_store \<Rightarrow> key \<Rightarrow> wall_timestamp \<Rightarrow> mutation \<Rightarrow> (object_version \<Rightarrow> operation_result) \<Rightarrow> store_prepared" where
  "predict_write s k now m expected =
    (case predict_version s k now of
       Inl outcome \<Rightarrow> SP_Terminal outcome
     | Inr version \<Rightarrow> SP_Write m (expected version))"

definition predict_set_range ::
    "object_store \<Rightarrow> key \<Rightarrow> u64 \<Rightarrow> bytes \<Rightarrow> wall_timestamp \<Rightarrow> op_error + store_prepared" where
  "predict_set_range s k offset patch now =
    (let write_it = Inr (predict_write s k now (M_SpliceBytes k offset patch) R_Stored) in
     case store_get s k now of
       None \<Rightarrow> write_it
     | Some obj \<Rightarrow>
         (case so_value obj of
            V_Bytes _ \<Rightarrow> write_it
          | V_Chunked _ \<Rightarrow> Inl E_StaleRangeBase
          | V_Fabric _ \<Rightarrow> Inl E_StaleRangeBase
          | _ \<Rightarrow> Inr (rejected (wrong_type T_Bytes obj))))"

definition predict_set_conditional ::
    "object_store \<Rightarrow> key \<Rightarrow> bytes \<Rightarrow> set_condition \<Rightarrow> expiry_policy \<Rightarrow> wall_timestamp \<Rightarrow> store_prepared" where
  "predict_set_conditional s k value condition policy now =
    (let cur = store_get s k now in
     if \<not> condition_holds condition cur then completed (R_ConditionalSet False None)
     else predict_write s k now (M_PutBytesWithExpiry k value (resolve_expiry policy cur))
       (\<lambda>version. R_ConditionalSet True (Some version)))"

definition predict_set_conditional_chunked ::
    "object_store \<Rightarrow> key \<Rightarrow> manifest_id \<Rightarrow> u64 \<Rightarrow> set_condition \<Rightarrow> expiry_policy \<Rightarrow> wall_timestamp
      \<Rightarrow> store_prepared" where
  "predict_set_conditional_chunked s k manifest logical_len condition policy now =
    (let cur = store_get s k now in
     if \<not> condition_holds condition cur then completed (R_ConditionalSet False None)
     else predict_write s k now
       (M_ReplaceChunkedRootWithExpiry k manifest logical_len (resolve_expiry policy cur))
       (\<lambda>version. R_ConditionalSet True (Some version)))"

definition predict_set_conditional_fabric ::
    "object_store \<Rightarrow> key \<Rightarrow> fabric_ref \<Rightarrow> set_condition \<Rightarrow> expiry_policy \<Rightarrow> wall_timestamp \<Rightarrow> store_prepared" where
  "predict_set_conditional_fabric s k reference condition policy now =
    (let cur = store_get s k now in
     if \<not> condition_holds condition cur then completed (R_ConditionalSet False None)
     else predict_write s k now
       (M_ReplaceFabricRootWithExpiry k (fr_id reference) (fr_logical_len reference)
         (fr_version reference) (resolve_expiry policy cur))
       (\<lambda>version. R_ConditionalSet True (Some version)))"

definition predict_counter_add :: "object_store \<Rightarrow> key \<Rightarrow> i64 \<Rightarrow> wall_timestamp \<Rightarrow> store_prepared" where
  "predict_counter_add s k delta now =
    (case store_get s k now of
       None \<Rightarrow> SP_Write (M_CounterAdd k delta) (R_CounterUpdated delta version_FIRST)
     | Some obj \<Rightarrow>
         (case so_value obj of
            V_StrictCounter value \<Rightarrow>
              (case checked_sadd value delta of
                 None \<Rightarrow> rejected E_CounterOverflow
               | Some next \<Rightarrow> predict_write s k now (M_CounterAdd k delta) (R_CounterUpdated next))
          | _ \<Rightarrow> rejected (wrong_type T_StrictCounter obj)))"

definition predict_commutative_add :: "object_store \<Rightarrow> key \<Rightarrow> i64 \<Rightarrow> wall_timestamp \<Rightarrow> store_prepared" where
  "predict_commutative_add s k delta now =
    (case store_get s k now of
       None \<Rightarrow> SP_Write (M_CommutativeAdd k delta) R_CommutativeApplied
     | Some obj \<Rightarrow>
         (case so_value obj of
            V_CommutativeCounter value \<Rightarrow>
              (case checked_sadd value delta of
                 None \<Rightarrow> rejected E_CounterOverflow
               | Some _ \<Rightarrow> predict_write s k now (M_CommutativeAdd k delta) (\<lambda>_. R_CommutativeApplied))
          | _ \<Rightarrow> rejected (wrong_type T_CommutativeCounter obj)))"

definition predict_bounded_create ::
    "object_store \<Rightarrow> key \<Rightarrow> u64 \<Rightarrow> tablet_id \<Rightarrow> wall_timestamp \<Rightarrow> store_prepared" where
  "predict_bounded_create s k capacity holder now =
    (case store_get s k now of
       Some obj \<Rightarrow> rejected (wrong_type T_BoundedCounter obj)
     | None \<Rightarrow>
         if unat capacity > 2 ^ 63 - 1 then rejected E_BoundedExceeded
         else SP_Write (M_BoundedCreate k capacity holder) (R_Stored version_FIRST))"

definition predict_bounded_add :: "object_store \<Rightarrow> key \<Rightarrow> i64 \<Rightarrow> wall_timestamp \<Rightarrow> store_prepared" where
  "predict_bounded_add s k delta now =
    (case store_get s k now of
       None \<Rightarrow> rejected E_BoundedExceeded
     | Some obj \<Rightarrow>
         (case so_value obj of
            V_BoundedCounter st \<Rightarrow>
              (case bounded_add_preview st delta of
                 Inl e \<Rightarrow> rejected e
               | Inr next \<Rightarrow> predict_write s k now (M_BoundedAdd k delta) (R_BoundedUpdated next))
          | _ \<Rightarrow> rejected (wrong_type T_BoundedCounter obj)))"

definition predict_escrow_move :: "object_store \<Rightarrow> key \<Rightarrow> i64 \<Rightarrow> i64 \<Rightarrow> wall_timestamp \<Rightarrow> store_prepared" where
  "predict_escrow_move s k mn mx now =
    (case store_get s k now of
       None \<Rightarrow> rejected E_BoundedExceeded
     | Some obj \<Rightarrow>
         (case so_value obj of
            V_BoundedCounter st \<Rightarrow>
              if \<not> escrow_narrows st mn mx then rejected E_BoundedExceeded
              else predict_write s k now (M_EscrowSetShare k mn mx) R_Stored
          | _ \<Rightarrow> rejected (wrong_type T_BoundedCounter obj)))"

definition predict_expiry ::
    "object_store \<Rightarrow> key \<Rightarrow> wall_timestamp option \<Rightarrow> wall_timestamp \<Rightarrow> store_prepared" where
  "predict_expiry s k expires_at now =
    (let result = (\<lambda>b. case expires_at of Some _ \<Rightarrow> R_ExpirySet b | None \<Rightarrow> R_ExpiryPersisted b);
         live_dated = (case store_get s k now of
            None \<Rightarrow> False
          | Some obj \<Rightarrow> expires_at \<noteq> None \<or> so_expiry obj \<noteq> expiry_NEVER) in
     if \<not> live_dated then completed (result False)
     else predict_write s k now (M_SetExpiry k (case expires_at of None \<Rightarrow> expiry_NEVER | Some at \<Rightarrow> Some at))
       (\<lambda>_. result True))"

definition predict_semaphore_create :: "object_store \<Rightarrow> key \<Rightarrow> u64 \<Rightarrow> wall_timestamp \<Rightarrow> store_prepared" where
  "predict_semaphore_create s k capacity now =
    (case store_get s k now of
       Some obj \<Rightarrow> rejected (wrong_type T_Semaphore obj)
     | None \<Rightarrow> SP_Write (M_SemaphoreCreate k capacity) (R_Stored version_FIRST))"

definition predict_semaphore_acquire ::
    "object_store \<Rightarrow> key \<Rightarrow> permit_id \<Rightarrow> u64 \<Rightarrow> u64 \<Rightarrow> wall_timestamp \<Rightarrow> store_prepared" where
  "predict_semaphore_acquire s k permit owner qty now =
    (case store_get s k now of
       None \<Rightarrow> rejected E_NotFound
     | Some obj \<Rightarrow>
         (case so_value obj of
            V_Semaphore st \<Rightarrow>
              (let grant = predict_write s k now (M_SemaphoreAcquire k permit owner qty) (\<lambda>_. R_SemaphoreAcquired) in
               if qty = 0 then grant
               else
                 (case bt_get (sem_permits st) permit of
                    Some held \<Rightarrow>
                      if pr_owner held = owner \<and> pr_qty held = qty then grant
                      else rejected E_SemaphoreExhausted
                  | None \<Rightarrow>
                      if length (sem_permits st) \<ge> MAX_SEMAPHORE_PERMITS
                         \<or> saturating_add (outstanding st) qty > sem_capacity st
                      then rejected E_SemaphoreExhausted
                      else grant))
          | _ \<Rightarrow> rejected (wrong_type T_Semaphore obj)))"

definition predict_semaphore_release ::
    "object_store \<Rightarrow> key \<Rightarrow> permit_id \<Rightarrow> wall_timestamp \<Rightarrow> store_prepared" where
  "predict_semaphore_release s k permit now =
    (case store_get s k now of
       None \<Rightarrow> completed (R_SemaphoreReleased False)
     | Some obj \<Rightarrow>
         (case so_value obj of
            V_Semaphore st \<Rightarrow>
              if bt_get (sem_permits st) permit = None then completed (R_SemaphoreReleased False)
              else predict_write s k now (M_SemaphoreRelease k permit) (\<lambda>_. R_SemaphoreReleased True)
          | _ \<Rightarrow> rejected (wrong_type T_Semaphore obj)))"

definition predict_lease_acquire :: "object_store \<Rightarrow> key \<Rightarrow> u64 \<Rightarrow> u64 \<Rightarrow> wall_timestamp \<Rightarrow> store_prepared" where
  "predict_lease_acquire s k owner ttl_micros now =
    (case lease_view s k now of
       Inl e \<Rightarrow> rejected e
     | Inr (fencing, holder) \<Rightarrow>
         if holder \<noteq> None then rejected E_LeaseConflict
         else
           (let expires_at = lease_expires_at now ttl_micros;
                grant = (if \<not> is_ok (fencing_next fencing) then rejected E_StreamFull
                  else SP_Write (M_LeaseAcquire k owner fencing expires_at) (R_LeaseAcquired fencing expires_at)) in
            if store_get s k now = None then grant
            else
              (case predict_version s k now of
                 Inl outcome \<Rightarrow> SP_Terminal outcome
               | Inr _ \<Rightarrow> grant)))"

definition predict_lease_renew ::
    "object_store \<Rightarrow> key \<Rightarrow> u64 \<Rightarrow> fencing_token \<Rightarrow> u64 \<Rightarrow> wall_timestamp \<Rightarrow> store_prepared" where
  "predict_lease_renew s k owner fencing ttl_micros now =
    (case store_get s k now of
       None \<Rightarrow> rejected E_StaleFencing
     | Some obj \<Rightarrow>
         (case so_value obj of
            V_Lease st \<Rightarrow>
              (case lease_live st now of
                 None \<Rightarrow> rejected E_StaleFencing
               | Some holder \<Rightarrow>
                   if lh_owner holder = owner \<and> lh_fencing holder = fencing
                   then
                     (let expires_at = lease_expires_at now ttl_micros in
                      predict_write s k now (M_LeaseRenew k owner fencing expires_at)
                        (\<lambda>_. R_LeaseRenewed fencing expires_at))
                   else rejected E_StaleFencing)
          | _ \<Rightarrow> rejected (wrong_type T_Lease obj)))"

definition predict_lease_release ::
    "object_store \<Rightarrow> key \<Rightarrow> u64 \<Rightarrow> fencing_token \<Rightarrow> wall_timestamp \<Rightarrow> store_prepared" where
  "predict_lease_release s k owner fencing now =
    (case store_get s k now of
       None \<Rightarrow> completed (R_LeaseReleased False)
     | Some obj \<Rightarrow>
         (case so_value obj of
            V_Lease st \<Rightarrow>
              (case ls_holder st of
                 None \<Rightarrow> completed (R_LeaseReleased False)
               | Some holder \<Rightarrow>
                   if lh_owner holder = owner \<and> lh_fencing holder = fencing
                   then predict_write s k now (M_LeaseRelease k owner fencing) (\<lambda>_. R_LeaseReleased True)
                   else rejected E_StaleFencing)
          | _ \<Rightarrow> rejected (wrong_type T_Lease obj)))"

definition predict_stream_create ::
    "object_store \<Rightarrow> key \<Rightarrow> bytes \<Rightarrow> u32 \<Rightarrow> wall_timestamp \<Rightarrow> store_prepared" where
  "predict_stream_create s k stream shard now =
    (case store_get s k now of
       Some obj \<Rightarrow> rejected (wrong_type T_StreamShard obj)
     | None \<Rightarrow> SP_Write (M_StreamCreate k stream shard) R_StreamCreated)"

definition predict_stream_append ::
    "object_store \<Rightarrow> key \<Rightarrow> bytes \<Rightarrow> bytes \<Rightarrow> wall_timestamp \<Rightarrow> store_prepared" where
  "predict_stream_append s k part payload now =
    (case store_get s k now of
       None \<Rightarrow> rejected E_NotFound
     | Some obj \<Rightarrow>
         (case so_value obj of
            V_StreamShard shard \<Rightarrow>
              if length payload > MAX_STREAM_ENTRY_BYTES
                 \<or> length part > MAX_STREAM_ENTRY_BYTES
                 \<or> length (ss_entries shard) \<ge> MAX_STREAM_SHARD_ENTRIES
              then rejected E_StreamFull
              else predict_write s k now (M_StreamAppend k part payload)
                (\<lambda>_. R_StreamAppended (ss_next_offset shard))
          | _ \<Rightarrow> rejected (wrong_type T_StreamShard obj)))"

definition predict_stream_trim :: "object_store \<Rightarrow> key \<Rightarrow> u64 \<Rightarrow> wall_timestamp \<Rightarrow> store_prepared" where
  "predict_stream_trim s k through now =
    (case store_get s k now of
       None \<Rightarrow> completed (R_StreamTrimmed 0)
     | Some obj \<Rightarrow>
         (case so_value obj of
            V_StreamShard shard \<Rightarrow>
              (let removed = of_nat (length (filter (\<lambda>e. se_offset e \<le> through) (ss_entries shard))) in
               predict_write s k now (M_StreamTrim k through) (\<lambda>_. R_StreamTrimmed removed))
          | _ \<Rightarrow> rejected (wrong_type T_StreamShard obj)))"

section \<open>Predictions for transactions\<close>

definition finalized_applied :: "object_store \<Rightarrow> mutation \<Rightarrow> key \<Rightarrow> wall_timestamp \<Rightarrow> store_prepared" where
  "finalized_applied s m k now = predict_write s k now m (\<lambda>version. R_TxnFinalized True (Some version))"

definition finalized_created :: "mutation \<Rightarrow> store_prepared" where
  "finalized_created m = SP_Write m (R_TxnFinalized True (Some version_FIRST))"

definition predict_counted_finalize ::
    "object_store \<Rightarrow> mutation \<Rightarrow> key \<Rightarrow> i64 \<Rightarrow> object_type \<Rightarrow> wall_timestamp \<Rightarrow> store_prepared" where
  "predict_counted_finalize s m k delta expected now =
    (let cur = store_get s k now in
     if cur = None then finalized_created m
     else
       (case preview_counter_add cur delta expected of
          Inr _ \<Rightarrow> finalized_applied s m k now
        | Inl AE_CounterOverflow \<Rightarrow> rejected E_CounterOverflow
        | Inl (AE_TypeMismatch expected found) \<Rightarrow> rejected (E_WrongType expected found)
        | Inl _ \<Rightarrow> rejected E_TxnConflict))"

definition predict_finalize_write ::
    "object_store \<Rightarrow> mutation \<Rightarrow> txn_write_kind \<Rightarrow> key \<Rightarrow> wall_timestamp \<Rightarrow> store_prepared" where
  "predict_finalize_write s m kind k now =
    (case kind of
       W_Delete \<Rightarrow> SP_Write m (R_TxnFinalized True None)
     | W_Put _ \<Rightarrow> finalized_applied s m k now
     | W_PutChunked _ _ \<Rightarrow> finalized_applied s m k now
     | W_PutFabric _ _ _ \<Rightarrow> finalized_applied s m k now
     | W_CounterAdd delta \<Rightarrow> predict_counted_finalize s m k delta T_StrictCounter now
     | W_CommutativeAdd delta \<Rightarrow> predict_counted_finalize s m k delta T_CommutativeCounter now
     | W_BoundedAdd delta \<Rightarrow>
         (case store_get s k now of
            None \<Rightarrow> rejected E_BoundedExceeded
          | Some obj \<Rightarrow>
              (case so_value obj of
                 V_BoundedCounter st \<Rightarrow>
                   (case bounded_add_preview st delta of
                      Inl e \<Rightarrow> rejected e
                    | Inr _ \<Rightarrow> finalized_applied s m k now)
               | _ \<Rightarrow> rejected (wrong_type T_BoundedCounter obj)))
     | W_EscrowSetShare mn mx \<Rightarrow>
         (case store_get s k now of
            None \<Rightarrow> rejected E_BoundedExceeded
          | Some obj \<Rightarrow>
              (case so_value obj of
                 V_BoundedCounter st \<Rightarrow>
                   if \<not> escrow_share_valid (bc_value st) (bc_capacity st) mn mx
                   then rejected E_BoundedExceeded
                   else finalized_applied s m k now
               | _ \<Rightarrow> rejected (wrong_type T_BoundedCounter obj))))"

definition predict_finalize ::
    "object_store \<Rightarrow> txn_id \<Rightarrow> key \<Rightarrow> bool \<Rightarrow> txn_write \<Rightarrow> txn_digest \<Rightarrow> wall_timestamp \<Rightarrow> store_prepared" where
  "predict_finalize s txn k commit w digest now =
    (let m = M_TxnFinalize txn k commit w digest in
     if \<not> commit then SP_Write m (R_TxnFinalized False None)
     else predict_finalize_write s m (tw_kind w) k now)"

definition predict_local_commit ::
    "object_store \<Rightarrow> txn_id \<Rightarrow> txn_write list \<Rightarrow> wall_timestamp \<Rightarrow> store_prepared" where
  "predict_local_commit s txn ws now =
    (if ws = [] then rejected E_TxnConflict
     else
       (case commit_local (scratch_for s ws) ws now of
          (scratch, Inr _) \<Rightarrow>
            SP_Write (M_TxnCommitLocal txn ws) (R_TxnLocalCommitted (local_versions scratch ws now))
        | (_, Inl (LC_Validation e)) \<Rightarrow> rejected e
        | (_, Inl LC_Exhausted) \<Rightarrow> SP_Terminal D_VersionExhausted
        | (_, Inl (LC_Diverged _)) \<Rightarrow> rejected E_TxnConflict
        | (_, Inl LC_Panic) \<Rightarrow> SP_Panic))"

section \<open>The whole of \<open>prepare_durable\<close>\<close>

definition durable_read :: "object_store \<Rightarrow> operation \<Rightarrow> wall_timestamp \<Rightarrow> op_error + store_prepared" where
  "durable_read s op now =
    map_ok (\<lambda>p. case p of P_Read r \<Rightarrow> SP_Read r | P_Write _ \<Rightarrow> SP_Panic) (prepare s op now)"

definition durable_plain :: "object_store \<Rightarrow> operation \<Rightarrow> wall_timestamp \<Rightarrow> op_error + store_prepared" where
  "durable_plain s op now =
    (case op of
       O_Set k value \<Rightarrow> Inr (predict_write s k now (M_PutBytes k value) R_Stored)
     | O_SetChunked k manifest logical_len \<Rightarrow>
         Inr (predict_write s k now (M_ReplaceChunkedRoot k manifest logical_len) R_Stored)
     | O_SetFabric k fabric_id logical_len staged_version \<Rightarrow>
         Inr (predict_write s k now (M_ReplaceFabricRoot k fabric_id logical_len staged_version) R_Stored)
     | O_SetRange k offset patch \<Rightarrow> predict_set_range s k offset patch now
     | O_Delete k \<Rightarrow> Inr (SP_Write (M_Delete k) (R_Deleted (live s k now \<noteq> None)))
     | O_CounterAdd k delta \<Rightarrow> Inr (predict_counter_add s k delta now)
     | O_CommutativeAdd k delta \<Rightarrow> Inr (predict_commutative_add s k delta now)
     | O_BoundedCounterCreate k capacity holder \<Rightarrow> Inr (predict_bounded_create s k capacity holder now)
     | O_BoundedCounterAdd k delta \<Rightarrow> Inr (predict_bounded_add s k delta now)
     | O_EscrowTransfer k mn mx \<Rightarrow> Inr (predict_escrow_move s k mn mx now)
     | O_SemaphoreCreate k capacity \<Rightarrow> Inr (predict_semaphore_create s k capacity now)
     | O_SemaphoreAcquire k permit owner qty \<Rightarrow> Inr (predict_semaphore_acquire s k permit owner qty now)
     | O_SemaphoreRelease k permit \<Rightarrow> Inr (predict_semaphore_release s k permit now)
     | O_LeaseAcquire k owner ttl_micros \<Rightarrow> Inr (predict_lease_acquire s k owner ttl_micros now)
     | O_LeaseRenew k owner fencing ttl_micros \<Rightarrow> Inr (predict_lease_renew s k owner fencing ttl_micros now)
     | O_LeaseRelease k owner fencing \<Rightarrow> Inr (predict_lease_release s k owner fencing now)
     | O_StreamCreate k stream shard \<Rightarrow> Inr (predict_stream_create s k stream shard now)
     | O_StreamAppend k part payload \<Rightarrow> Inr (predict_stream_append s k part payload now)
     | O_StreamTrim k through_offset \<Rightarrow> Inr (predict_stream_trim s k through_offset now)
     | O_ExpireAt k expires_at \<Rightarrow> Inr (predict_expiry s k (Some expires_at) now)
     | O_PersistExpiry k \<Rightarrow> Inr (predict_expiry s k None now)
     | O_SetConditional k value condition policy \<Rightarrow>
         Inr (predict_set_conditional s k value condition policy now)
     | O_SetConditionalChunked k manifest logical_len condition policy \<Rightarrow>
         Inr (predict_set_conditional_chunked s k manifest logical_len condition policy now)
     | O_SetConditionalFabric k fabric_id logical_len version condition policy \<Rightarrow>
         Inr (predict_set_conditional_fabric s k
           \<lparr> fr_id = fabric_id, fr_logical_len = logical_len, fr_version = version \<rparr> condition policy now)
     | O_TxnPrepare txn coordinator w digest \<Rightarrow>
         Inr (case prepare_txn_reserve s txn coordinator w digest now of
                Inl e \<Rightarrow> rejected e
              | Inr m \<Rightarrow> SP_Write m R_TxnPrepared)
     | O_TxnFinalize txn k commit w digest \<Rightarrow> Inr (predict_finalize s txn k commit w digest now)
     | O_TxnCommitLocal txn ws \<Rightarrow> Inr (predict_local_commit s txn ws now)
     | _ \<Rightarrow> durable_read s op now)"

definition prepare_durable :: "object_store \<Rightarrow> operation \<Rightarrow> wall_timestamp \<Rightarrow> op_error + store_prepared" where
  "prepare_durable s op now =
    (if op_blocked s op then Inr (rejected E_TxnConflict) else durable_plain s op now)"

end
