(* ===== verification/Prepare_Agreement.thy ===== *)
theory Prepare_Agreement
  imports Store_Prepare
begin

text \<open>
  Prediction agrees with execution: what \<open>prepare_durable\<close> announces is what \<open>prepare\<close> decides and what
  \<open>apply\<close> then does.
\<close>

section \<open>Vocabulary\<close>

text \<open>
  When the durable preparation tells the same story as the plain one.  A rejection is the plain error,
  a completion without a mutation the plain read, and an exhausted version still a plain write.
\<close>

definition consistent :: "op_error + store_prepared \<Rightarrow> op_error + prepared \<Rightarrow> bool" where
  "consistent d p =
    (case d of
       Inl e \<Rightarrow> p = Inl e
     | Inr (SP_Read r) \<Rightarrow> p = Inr (P_Read r)
     | Inr (SP_Write m _) \<Rightarrow> p = Inr (P_Write m)
     | Inr (SP_Terminal (D_Completed r)) \<Rightarrow> p = Inr (P_Read r)
     | Inr (SP_Terminal (D_Rejected e)) \<Rightarrow> p = Inl e
     | Inr (SP_Terminal D_VersionExhausted) \<Rightarrow> (case p of Inr (P_Write _) \<Rightarrow> True | _ \<Rightarrow> False)
     | Inr SP_Panic \<Rightarrow> False)"

definition is_persist :: "operation \<Rightarrow> bool" where
  "is_persist op = (case op of O_PersistExpiry _ \<Rightarrow> True | _ \<Rightarrow> False)"

text \<open>
  The operations whose prediction does not see everything \<open>apply\<close> looks at: a range write past the
  end of the 64-bit space, an empty acquire under a permit id that is held, and a finalize that meets
  another transaction's reservation.
\<close>

definition predictable :: "object_store \<Rightarrow> operation \<Rightarrow> wall_timestamp \<Rightarrow> bool" where
  "predictable s op now =
    (case op of
       O_SetRange _ offset patch \<Rightarrow> unat offset + length patch < 2 ^ 64
     | O_SemaphoreAcquire k permit _ qty \<Rightarrow>
         (case value_at s k of
            Some (V_Semaphore st) \<Rightarrow> 0 < qty \<or> bt_get (sem_permits st) permit = None
          | _ \<Rightarrow> True)
     | O_TxnFinalize txn k _ _ digest \<Rightarrow> \<not> foreign_intent s k txn digest
     | _ \<Rightarrow> True)"

text \<open>What the arm reports for a mutation is the expected result.\<close>

definition arm_result ::
    "object_store \<Rightarrow> wall_timestamp \<Rightarrow> bool \<Rightarrow> mutation \<Rightarrow> operation_result option" where
  "arm_result s now persist m =
    (case snd (apply_inner s m now) of Inl _ \<Rightarrow> None | Inr out \<Rightarrow> outcome_for m out persist)"

section \<open>Prepare and \<open>prepare_durable\<close>\<close>

lemma consistent_predict_write [simp]: "consistent (Inr (predict_write s k now m f)) p \<longleftrightarrow> p = Inr (P_Write m)
    \<or> (\<exists>e m'. next_version s k now = Inl e \<and> p = Inr (P_Write m'))"
  by (auto simp: consistent_def predict_write_def predict_version_def split: sum.splits prepared.splits
      elim: map_err.elims)

lemma consistent_simps [simp]:
  "consistent (Inl e) p \<longleftrightarrow> p = Inl e"
  "consistent (Inr (rejected e)) p \<longleftrightarrow> p = Inl e"
  "consistent (Inr (completed r)) p \<longleftrightarrow> p = Inr (P_Read r)"
  "consistent (Inr (SP_Write m x)) p \<longleftrightarrow> p = Inr (P_Write m)"
  "consistent (Inr (SP_Read r)) p \<longleftrightarrow> p = Inr (P_Read r)"
  "consistent (Inr (SP_Terminal D_VersionExhausted)) p \<longleftrightarrow> (\<exists>m. p = Inr (P_Write m))"
  by (auto simp: consistent_def rejected_def completed_def split: sum.splits prepared.splits)

lemma predict_version_Inl: "predict_version s k now = Inl x \<Longrightarrow> x = D_VersionExhausted"
  by (auto simp: predict_version_def result_simps)

lemma consistent_values:
  "consistent (predict_set_range s k offset patch now) (prepare_set_range s k offset patch now)"
  "consistent (Inr (predict_set_conditional s k v c p now)) (Inr (prepare_set_conditional s k v c p now))"
  "consistent (Inr (predict_set_conditional_chunked s k mf n c p now)) (Inr (prepare_set_conditional_chunked s k mf n c p now))"
  "consistent (Inr (predict_set_conditional_fabric s k r c p now)) (Inr (prepare_set_conditional_fabric s k r c p now))"
  "consistent (Inr (predict_expiry s k (Some at) now)) (prepare_expire_at s k at now)"
  "consistent (Inr (predict_expiry s k None now)) (prepare_persist_expiry s k now)"
  by (auto simp: predict_set_range_def prepare_set_range_def predict_set_conditional_def
      prepare_set_conditional_def predict_set_conditional_chunked_def prepare_set_conditional_chunked_def
      predict_set_conditional_fabric_def prepare_set_conditional_fabric_def predict_expiry_def
      prepare_expire_at_def prepare_persist_expiry_def Let_def split: option.split logical_value.split)

lemma consistent_counters:
  "consistent (Inr (predict_counter_add s k d now)) (prepare_counter_add s k d now)"
  "consistent (Inr (predict_commutative_add s k d now)) (prepare_commutative_add s k d now)"
  "consistent (Inr (predict_bounded_create s k c h now)) (prepare_bounded_create s k c h now)"
  "consistent (Inr (predict_bounded_add s k d now)) (prepare_bounded_add s k d now)"
  "consistent (Inr (predict_escrow_move s k mn mx now)) (prepare_escrow_transfer s k mn mx now)"
  by (auto simp: predict_counter_add_def prepare_counter_add_def predict_commutative_add_def
      prepare_commutative_add_def predict_bounded_create_def prepare_bounded_create_def
      predict_bounded_add_def prepare_bounded_add_def predict_escrow_move_def prepare_escrow_transfer_def
      split: option.split logical_value.split sum.split)

lemma consistent_semaphores:
  "consistent (Inr (predict_semaphore_create s k c now)) (prepare_semaphore_create s k c now)"
  "consistent (Inr (predict_semaphore_acquire s k p ow q now)) (prepare_semaphore_acquire s k p ow q now)"
  "consistent (Inr (predict_semaphore_release s k p now)) (prepare_semaphore_release s k p now)"
  by (auto simp: predict_semaphore_create_def prepare_semaphore_create_def predict_semaphore_acquire_def
      prepare_semaphore_acquire_def predict_semaphore_release_def prepare_semaphore_release_def Let_def
      split: option.split logical_value.split)

lemma consistent_leases:
  "predict_lease_acquire s k ow ttl now = rejected E_StreamFull
    \<or> consistent (Inr (predict_lease_acquire s k ow ttl now)) (prepare_lease_acquire s k ow ttl now)"
  "consistent (Inr (predict_lease_renew s k ow f ttl now)) (prepare_lease_renew s k ow f ttl now)"
  "consistent (Inr (predict_lease_release s k ow f now)) (prepare_lease_release s k ow f now)"
  by (auto simp: predict_lease_acquire_def prepare_lease_acquire_def predict_lease_renew_def
      prepare_lease_renew_def predict_lease_release_def prepare_lease_release_def Let_def
      dest: predict_version_Inl split: option.split logical_value.split sum.split)

lemma consistent_streams:
  "consistent (Inr (predict_stream_create s k st sh now)) (prepare_stream_create s k st sh now)"
  "consistent (Inr (predict_stream_append s k pa pl now)) (prepare_stream_append s k pa pl now)"
  "consistent (Inr (predict_stream_trim s k th now)) (prepare_stream_trim s k th now)"
  by (auto simp: predict_stream_create_def prepare_stream_create_def predict_stream_append_def
      prepare_stream_append_def predict_stream_trim_def prepare_stream_trim_def Let_def
      split: option.split logical_value.split)

lemma consistent_txn:
  "consistent (Inr (case prepare_txn_reserve s txn co w digest now of Inl e \<Rightarrow> rejected e | Inr m \<Rightarrow> SP_Write m R_TxnPrepared))
    (map_ok P_Write (prepare_txn_reserve s txn co w digest now))"
  "consistent (Inr (predict_local_commit s txn ws now)) (map_ok P_Write (prepare_txn_commit_local s txn ws now))"
proof -
  show "consistent (Inr (case prepare_txn_reserve s txn co w digest now of Inl e \<Rightarrow> rejected e | Inr m \<Rightarrow> SP_Write m R_TxnPrepared))
    (map_ok P_Write (prepare_txn_reserve s txn co w digest now))"
    by (auto split: sum.split)
  show "consistent (Inr (predict_local_commit s txn ws now)) (map_ok P_Write (prepare_txn_commit_local s txn ws now))"
    using commit_local_no_panic(1) [of "scratch_for s ws" ws now]
    by (auto simp: predict_local_commit_def prepare_txn_commit_local_def consistent_def rejected_def
        split: prod.split sum.split local_commit_error.split)
qed

lemma consistent_reads:
  assumes "\<not> is_mutating op"
  shows "consistent (durable_read s op now) (prepare_plain s op now)"
proof -
  have "prepare s op now = prepare_plain s op now" using assms by (simp add: prepare_def op_blocked_def)
  moreover have "prepare_plain s op now \<noteq> Inr (P_Write m)" for m
    using assms
    by (cases op)
      (auto simp: is_mutating_def prepare_plain_def prepare_get_def prepare_counter_get_def prepare_get_range_def
        prepare_bytes_length_def prepare_commutative_get_def prepare_bounded_get_def prepare_semaphore_inspect_def
        prepare_lease_inspect_def lease_view_def prepare_stream_read_def result_simps
        split: option.splits logical_value.splits)
  ultimately show ?thesis
    by (auto simp: durable_read_def consistent_def split: sum.split prepared.split elim: map_ok.elims)
qed

lemma finalize_cases:
  "(\<exists>x. predict_finalize s txn k c w digest now = SP_Write (M_TxnFinalize txn k c w digest) x)
    \<or> (\<exists>o'. predict_finalize s txn k c w digest now = SP_Terminal o')"
  by (auto simp: predict_finalize_def predict_finalize_write_def finalized_applied_def finalized_created_def
      predict_counted_finalize_def predict_write_def rejected_def Let_def
      split: txn_write_kind.split option.split logical_value.split sum.split apply_error.split)

section \<open>Predictions of ordinary writes\<close>

lemma predict_write_SP_Write:
  "predict_write s k now m f = SP_Write m' e \<longleftrightarrow> (\<exists>version. next_version s k now = Inr version \<and> m' = m \<and> e = f version)"
  by (auto simp: predict_write_def predict_version_def result_simps split: sum.splits)

lemma not_write [simp]: "rejected e \<noteq> SP_Write m x" "completed r \<noteq> SP_Write m x"
  by (simp_all add: rejected_def completed_def)

lemmas outcome_defs = outcome_for_def outcome_for_semantic_def outcome_stored_def outcome_conditional_def
lemmas predict_simps = arm_result_def predict_write_SP_Write apply_inner_def live_eq_store_get outcome_defs
  replace_value_ok update_value_ok next_version_fresh

lemma predict_replace:
  assumes "next_version s k now = Inr version"
  shows "arm_result s now b (M_PutBytes k v) = Some (R_Stored version)"
    "arm_result s now b (M_ReplaceChunkedRoot k mf n) = Some (R_Stored version)"
    "arm_result s now b (M_ReplaceFabricRoot k i n sv) = Some (R_Stored version)"
    "arm_result s now b (M_PutBytesWithExpiry k v x) = Some (R_ConditionalSet True (Some version))"
    "arm_result s now b (M_ReplaceChunkedRootWithExpiry k mf n x) = Some (R_ConditionalSet True (Some version))"
    "arm_result s now b (M_ReplaceFabricRootWithExpiry k i n sv x) = Some (R_ConditionalSet True (Some version))"
  using assms
  by (simp_all add: predict_simps apply_put_bytes_def apply_put_bytes_with_expiry_def apply_replace_chunked_def
      apply_replace_fabric_def)

lemma predict_set_range_arm:
  assumes "predict_set_range s k off patch now = Inr (SP_Write m e)" "unat off + length patch < 2 ^ 64"
  shows "arm_result s now b m = Some e"
  using assms
  by (auto simp: predict_simps predict_set_range_def apply_splice_bytes_def splice_inline_def Let_def
      split: option.splits logical_value.splits)

lemma predict_expiry_arm:
  assumes "predict_expiry s k at now = SP_Write m e" "b = (at = None)"
  shows "arm_result s now b m = Some e"
  using assms
  by (auto simp: predict_simps predict_expiry_def apply_set_expiry_def next_version_live Let_def
      split: option.splits if_splits)

lemma predict_counters_arm:
  "predict_counter_add s k d now = SP_Write m e \<Longrightarrow> arm_result s now b m = Some e"
  "predict_commutative_add s k d now = SP_Write m e \<Longrightarrow> arm_result s now b m = Some e"
  "predict_bounded_create s k c h now = SP_Write m e \<Longrightarrow> arm_result s now b m = Some e"
  "predict_bounded_add s k d now = SP_Write m e \<Longrightarrow> arm_result s now b m = Some e"
  "predict_escrow_move s k mn mx now = SP_Write m e \<Longrightarrow> arm_result s now b m = Some e"
  by (auto simp: predict_simps predict_counter_add_def predict_commutative_add_def predict_bounded_create_def
      predict_bounded_add_def predict_escrow_move_def apply_counter_add_def apply_commutative_add_def
      apply_bounded_create_def apply_bounded_add_def apply_escrow_set_share_def escrow_narrows_def
      i64_try_from_def split: option.splits logical_value.splits sum.splits if_splits)

lemma predict_semaphores_arm:
  "predict_semaphore_create s k c now = SP_Write m e \<Longrightarrow> arm_result s now b m = Some e"
  "predict_semaphore_release s k p now = SP_Write m e \<Longrightarrow> arm_result s now b m = Some e"
  by (auto simp: predict_simps predict_semaphore_create_def predict_semaphore_release_def
      apply_semaphore_create_def apply_semaphore_release_def split: option.splits logical_value.splits if_splits)

lemma predict_acquire_arm:
  assumes "predict_semaphore_acquire s k p ow q now = SP_Write m e"
    and "\<And>obj st. store_get s k now = Some obj \<Longrightarrow> so_value obj = V_Semaphore st \<Longrightarrow>
      0 < q \<or> bt_get (sem_permits st) p = None"
  shows "arm_result s now b m = Some e"
  using assms
  by (auto simp: predict_simps predict_semaphore_acquire_def apply_semaphore_acquire_def semaphore_admit_def
      Let_def word_neq_0_conv not_le split: option.splits logical_value.splits if_splits)

lemma predict_leases_arm:
  "predict_lease_acquire s k ow ttl now = SP_Write m e \<Longrightarrow> arm_result s now b m = Some e"
  "predict_lease_renew s k ow f ttl now = SP_Write m e \<Longrightarrow> arm_result s now b m = Some e"
  "predict_lease_release s k ow f now = SP_Write m e \<Longrightarrow> arm_result s now b m = Some e"
  by (auto simp: predict_simps predict_lease_acquire_def predict_lease_renew_def predict_lease_release_def
      predict_version_def lease_view_def next_version_def result_simps
      apply_lease_acquire_def apply_lease_renew_def apply_lease_release_def Let_def
      split: option.splits logical_value.splits sum.splits if_splits)

lemma filter_dropWhile_sorted:
  fixes t :: "'a::linorder"
  assumes "sorted_wrt (<) (map f xs)"
  shows "length (filter (\<lambda>x. f x \<le> t) xs) + length (dropWhile (\<lambda>x. f x \<le> t) xs) = length xs"
  using assms
proof (induction xs)
  case (Cons x xs)
  have "filter (\<lambda>y. f y \<le> t) xs = []" if "\<not> f x \<le> t"
    using Cons.prems that by (auto simp: filter_empty_conv)
  then show ?case using Cons by auto
qed simp

lemma predict_streams_arm:
  "predict_stream_create s k st sh now = SP_Write m e \<Longrightarrow> arm_result s now b m = Some e"
  "predict_stream_append s k pa pl now = SP_Write m e \<Longrightarrow> arm_result s now b m = Some e"
  by (auto simp: predict_simps predict_stream_create_def predict_stream_append_def
      apply_stream_create_def apply_stream_append_def Let_def
      split: option.splits logical_value.splits if_splits)

lemma predict_trim_arm:
  assumes "store_inv s" "predict_stream_trim s k th now = SP_Write m e"
  shows "arm_result s now b m = Some e"
proof -
  obtain obj sh version where obj: "store_get s k now = Some obj" "so_value obj = V_StreamShard sh"
    "next_version s k now = Inr version" "m = M_StreamTrim k th"
    "e = R_StreamTrimmed (of_nat (length (filter (\<lambda>e. se_offset e \<le> th) (ss_entries sh))))"
    using assms(2) by (auto simp: predict_stream_trim_def predict_write_SP_Write Let_def
        split: option.splits logical_value.splits)
  have "stream_wf sh"
    using live_wf(4) [OF store_inv_cur_wf [OF assms(1)] _ obj(2)] obj(1) by (simp add: live_def)
  then have "length (filter (\<lambda>e. se_offset e \<le> th) (ss_entries sh))
      + length (dropWhile (\<lambda>e. se_offset e \<le> th) (ss_entries sh)) = length (ss_entries sh)"
    by (intro filter_dropWhile_sorted) (simp add: stream_wf_def)
  then have "of_nat (length (ss_entries sh)) = (of_nat (length (filter (\<lambda>e. se_offset e \<le> th) (ss_entries sh)))
      + of_nat (length (dropWhile (\<lambda>e. se_offset e \<le> th) (ss_entries sh))) :: u64)"
    unfolding of_nat_add [symmetric] by simp
  then show ?thesis
    using obj by (simp add: predict_simps apply_stream_trim_def Let_def)
qed

section \<open>Predictions of transaction operations\<close>

lemma writable_prepare_check:
  "check_txn_writable kind cur = Inr () \<Longrightarrow> txn_prepare_check kind cur = Inr ()"
  by (cases kind)
    (auto simp: txn_prepare_check_def check_txn_writable_def preview_counter_add_def result_simps
      split: option.splits logical_value.splits if_splits)

lemma reserve_applies:
  assumes "prepare_txn_reserve s txn co w digest now = Inr m"
  shows "\<exists>s' out. apply_mutation s m now = (s', Inr out) \<and> outcome_for m out b = Some R_TxnPrepared"
  using assms writable_prepare_check [of "tw_kind w" "store_get s (tw_key w) now"]
  by (auto simp: prepare_txn_reserve_def apply_mutation_def apply_txn_prepare_def outcome_defs Let_def result_simps
      split: if_splits)

lemma preview_writable:
  "preview_counter_add cur d T_StrictCounter = Inr u \<Longrightarrow> check_txn_writable (W_CounterAdd d) cur = Inr ()"
  "preview_counter_add cur d T_CommutativeCounter = Inr u \<Longrightarrow> check_txn_writable (W_CommutativeAdd d) cur = Inr ()"
  by (auto simp: preview_counter_add_def check_txn_writable_def result_simps
      split: option.splits logical_value.splits)

lemma predict_finalize_write_ok:
  assumes "predict_finalize_write s m kind k now = SP_Write m' e"
  shows "m' = m \<and> check_txn_writable kind (store_get s k now) = Inr ()
    \<and> (kind = W_Delete \<and> e = R_TxnFinalized True None
       \<or> kind \<noteq> W_Delete \<and> (\<exists>v. next_version s k now = Inr v \<and> e = R_TxnFinalized True (Some v)))"
  using assms preview_writable [of "store_get s k now"]
  by (cases kind)
    (auto simp: predict_finalize_write_def finalized_applied_def finalized_created_def predict_counted_finalize_def
      predict_write_SP_Write check_txn_writable_def next_version_def live_def result_simps Let_def
      split: option.splits logical_value.splits sum.splits apply_error.splits if_splits)

lemma kind_finalized:
  "kind_outcome kind v out \<Longrightarrow>
    finalized out = Inr (A_TxnFinalized True (if kind = W_Delete then None else Some v))"
  by (cases kind) (auto simp: kind_outcome_def finalized_def)

lemma finalize_applies:
  assumes "predict_finalize s txn k c w digest now = SP_Write m e" "\<not> foreign_intent s k txn digest"
  shows "\<exists>s' out. apply_mutation s m now = (s', Inr out) \<and> outcome_for m out b = Some e"
proof (cases c)
  case False
  then show ?thesis
    using assms by (auto simp: predict_finalize_def apply_mutation_def apply_txn_finalize_def outcome_defs Let_def)
next
  case True
  let ?s = "s\<lparr>intents := bt_remove k (intents s)\<rparr>"
  have m: "m = M_TxnFinalize txn k True w digest"
    and ok: "check_txn_writable (tw_kind w) (store_get s k now) = Inr ()"
    and e: "tw_kind w = W_Delete \<and> e = R_TxnFinalized True None
       \<or> tw_kind w \<noteq> W_Delete \<and> (\<exists>v. next_version s k now = Inr v \<and> e = R_TxnFinalized True (Some v))"
    using assms(1) True predict_finalize_write_ok [of s "M_TxnFinalize txn k c w digest" "tw_kind w" k now m e]
    by (auto simp: predict_finalize_def Let_def)
  have reads: "store_get ?s k now = store_get s k now" "next_version ?s k now = next_version s k now"
    using agree_reads [of k s ?s] by (simp_all add: agree_def)
  obtain v where v: "tw_kind w = W_Delete \<or> next_version ?s k now = Inr v"
      "e = R_TxnFinalized True (if tw_kind w = W_Delete then None else Some v)"
    using e reads by auto
  obtain s' out where out: "apply_ordinary ?s (txn_mutation k (tw_kind w)) now = (s', Inr out)"
      "kind_outcome (tw_kind w) v out"
    using writable_applies [of ?s k "tw_kind w" now v] ok v(1) reads by (auto simp: write_alone_ordinary)
  then show ?thesis
    using m v(2) assms(2) kind_finalized [OF out(2)]
    by (auto simp: apply_mutation_def apply_txn_finalize_def outcome_defs Let_def)
qed

section \<open>The scratch commit\<close>

lemma set_touched_keys: "set (touched_keys ws) = tw_key ` set ws"
proof -
  have "set (foldl (\<lambda>touched w. bts_insert (tw_key w) touched) ks ws) = set ks \<union> tw_key ` set ws" for ks
    by (induction ws arbitrary: ks) auto
  then show ?thesis by (simp add: touched_keys_def)
qed

lemma intent_key: "store_inv s \<Longrightarrow> bt_get (intents s) k = Some i \<Longrightarrow> in_key i = k"
  by (auto simp: store_inv_def list_all_iff dest: bt_get_Some_mem)

lemma stage_key_reads:
  assumes "store_inv s"
  shows "bt_get (objects (stage_key s t k)) k' =
      (if k' = k \<and> bt_get (objects s) k \<noteq> None then bt_get (objects s) k else bt_get (objects t) k')"
    "bt_get (intents (stage_key s t k)) k' =
      (if k' = k \<and> bt_get (intents s) k \<noteq> None then bt_get (intents s) k else bt_get (intents t) k')"
  using intent_key [OF assms, of k]
  by (auto simp: stage_key_def get_stored_def restore_intent_def Let_def split: option.split)

lemma stage_keys_reads:
  assumes "store_inv s"
  shows "bt_get (objects (foldl (stage_key s) t ks)) k =
      (if k \<in> set ks \<and> bt_get (objects s) k \<noteq> None then bt_get (objects s) k else bt_get (objects t) k)"
    "bt_get (intents (foldl (stage_key s) t ks)) k =
      (if k \<in> set ks \<and> bt_get (intents s) k \<noteq> None then bt_get (intents s) k else bt_get (intents t) k)"
  by (induction ks arbitrary: t) (auto simp: stage_key_reads [OF assms])

lemma scratch_similar:
  assumes "store_inv s" "w \<in> set ws"
  shows "similar (tw_key w) s (scratch_for s ws)"
proof -
  have "bt_get (objects store_new) k = None" "bt_get (intents store_new) k = None" for k
    by (simp_all add: store_new_def)
  then show ?thesis
    using assms by (auto simp: similar_def agree_def scratch_for_def stage_keys_reads set_touched_keys)
qed

lemma validated_similar: "similar k s t \<Longrightarrow> validated s now k w \<longleftrightarrow> validated t now k w"
  by (simp add: validated_def similar_reads) (simp add: similar_def)

lemma live_width_similar: "similar k s t \<Longrightarrow> live_width s now k = live_width t now k"
  by (simp add: live_width_def similar_reads)

lemma collapse_keys:
  assumes "(k, w) \<in> set (collapse ws)"
  shows "\<exists>v \<in> set ws. tw_key v = k"
  using assms collapse_key [of ws k w] by (auto simp: collapse_mem_iff)

lemma commit_ok_similar:
  assumes "\<forall>w \<in> set ws. similar (tw_key w) s t"
  shows "commit_ok s now ws \<longleftrightarrow> commit_ok t now ws"
proof -
  have sim: "similar k s t" if "(k, w) \<in> set (collapse ws)" for k w
    using collapse_keys [OF that] assms by auto
  then have "list_all (\<lambda>(k, w). validated s now k w) (collapse ws)
      \<longleftrightarrow> list_all (\<lambda>(k, w). validated t now k w) (collapse ws)"
    using validated_similar by (fastforce simp: list_all_iff)
  moreover have "sum_list (map (live_width s now) (escrow_keys (collapse ws)))
      = sum_list (map (live_width t now) (escrow_keys (collapse ws)))"
    using sim live_width_similar by (intro arg_cong [of _ _ sum_list] map_cong) (fastforce simp: escrow_keys_def)+
  ultimately show ?thesis by (simp add: commit_ok_def)
qed

lemma commit_versions:
  assumes "commit_ok s now ws" "w \<in> set ws"
  shows "agree (tw_key w) (fst (commit_local s ws now))
    (fst (write_alone s now (tw_key w) (tw_kind (the (effective ws (tw_key w))))))"
proof -
  obtain w' where "effective ws (tw_key w) = Some w'" using collapse_present [OF assms(2)] by (auto simp: effective_def)
  then show ?thesis using commit_local_commit [OF assms(1)] by (auto dest!: spec [of _ "tw_key w"])
qed

lemma local_versions_similar:
  assumes "commit_ok s now ws" "\<forall>w \<in> set ws. similar (tw_key w) s t"
  shows "local_versions (fst (commit_local s ws now)) ws now = local_versions (fst (commit_local t ws now)) ws now"
proof -
  have "store_get (fst (commit_local s ws now)) (tw_key w) now = store_get (fst (commit_local t ws now)) (tw_key w) now"
    if w: "w \<in> set ws" for w
  proof -
    let ?m = "txn_mutation (tw_key w) (tw_kind (the (effective ws (tw_key w))))"
    have "agree (tw_key w) (fst (apply_ordinary s ?m now)) (fst (apply_ordinary t ?m now))"
      using apply_ordinary_similar(2) [of "tw_key w" s t ?m now] assms(2) w by (simp add: similar_def)
    moreover have "commit_ok t now ws" using assms commit_ok_similar by blast
    ultimately have "agree (tw_key w) (fst (commit_local s ws now)) (fst (commit_local t ws now))"
      using commit_versions [OF assms(1) w] commit_versions [OF _ w, of t now]
      by (simp add: agree_def write_alone_ordinary)
    then show ?thesis by (rule agree_reads(2) [symmetric])
  qed
  then show ?thesis by (simp add: local_versions_def split: txn_write_kind.split)
qed

lemma local_commit_applies:
  assumes "store_inv s" "predict_local_commit s txn ws now = SP_Write m e"
  shows "\<exists>s' out. apply_mutation s m now = (s', Inr out) \<and> outcome_for m out b = Some e"
proof -
  let ?t = "scratch_for s ws"
  have sim: "\<forall>w \<in> set ws. similar (tw_key w) s ?t" using scratch_similar [OF assms(1)] by blast
  obtain t' rs where t': "commit_local ?t ws now = (t', Inr rs)" "m = M_TxnCommitLocal txn ws"
      "e = R_TxnLocalCommitted (local_versions t' ws now)"
    using assms(2) by (auto simp: predict_local_commit_def rejected_def split: if_splits prod.splits sum.splits local_commit_error.splits)
  have "commit_ok ?t now ws" using commit_local_reject [of ?t now ws] t'(1) by auto
  then have ok: "commit_ok s now ws" using commit_ok_similar [OF sim] by simp
  then obtain s' rs' where s': "commit_local s ws now = (s', Inr rs')" using commit_local_commit by blast
  then have "local_versions s' ws now = local_versions t' ws now"
    using local_versions_similar [OF ok sim] t'(1) by simp
  then show ?thesis
    using s' t'(2,3) by (auto simp: apply_mutation_def apply_local_commit_def outcome_defs)
qed

section \<open>Putting the predictions together\<close>

text \<open>The mutation of an ordinary operation addresses the operation's own key.\<close>

definition mutates :: "operation \<Rightarrow> mutation \<Rightarrow> bool" where
  "mutates op m \<longleftrightarrow> is_mutating op \<and> \<not> is_txn m \<and> mutation_key m = operation_key op"

lemma durable_read_no_write: "\<not> is_mutating op \<Longrightarrow> durable_read s op now \<noteq> Inr (SP_Write m e)"
  by (auto simp: durable_read_def result_simps split: prepared.splits)

lemma mutates_applies:
  assumes "mutates op m" "arm_result s now b m = Some expected" "\<not> op_blocked s op" "\<not> op_is_txn op"
  shows "\<exists>s' out. apply_mutation s m now = (s', Inr out) \<and> outcome_for m out b = Some expected"
proof -
  obtain k where k: "mutation_key m = Some k" "\<not> is_txn m"
    using assms(1) by (cases m) (auto simp: mutates_def is_txn_def)
  then have "bt_get (intents s) k = None"
    using assms by (cases "operation_key op") (simp_all add: mutates_def op_blocked_def)
  then have "snd (apply_mutation s m now) = snd (apply_inner s m now)" using apply_at(1) [OF k(2,1)] by simp
  moreover obtain out where "snd (apply_inner s m now) = Inr out" "outcome_for m out b = Some expected"
    using assms(2) by (auto simp: arm_result_def split: sum.splits)
  ultimately show ?thesis by (intro exI [of _ "fst (apply_mutation s m now)"] exI [of _ out]) (simp add: prod_eq_iff)
qed

lemmas prepare_arm_defs = prepare_plain_def prepare_set_range_def
  prepare_set_conditional_def prepare_set_conditional_chunked_def prepare_set_conditional_fabric_def
  prepare_expire_at_def prepare_persist_expiry_def prepare_counter_add_def prepare_commutative_add_def
  prepare_bounded_create_def prepare_bounded_add_def prepare_escrow_transfer_def prepare_semaphore_create_def
  prepare_semaphore_acquire_def prepare_semaphore_release_def prepare_lease_acquire_def prepare_lease_renew_def
  prepare_lease_release_def prepare_stream_create_def prepare_stream_append_def prepare_stream_trim_def

lemma prepare_mutates:
  "prepare_plain s op now = Inr (P_Write m) \<Longrightarrow> \<not> op_is_txn op \<Longrightarrow> is_mutating op \<Longrightarrow> mutates op m"
  by (cases op)
    (auto simp: prepare_arm_defs op_is_txn_def is_mutating_def mutates_def is_txn_def Let_def result_simps
      split: option.splits logical_value.splits if_splits)

lemma predict_conditional_arm:
  "predict_set_conditional s k v c p now = SP_Write m e \<Longrightarrow> arm_result s now b m = Some e"
  "predict_set_conditional_chunked s k mf n c p now = SP_Write m e \<Longrightarrow> arm_result s now b m = Some e"
  "predict_set_conditional_fabric s k r c p now = SP_Write m e \<Longrightarrow> arm_result s now b m = Some e"
  by (auto simp: predict_set_conditional_def predict_set_conditional_chunked_def predict_set_conditional_fabric_def
      predict_write_SP_Write predict_replace Let_def split: if_splits)

lemma delete_arm: "arm_result s now b (M_Delete k) = Some (R_Deleted (live s k now \<noteq> None))"
  by (simp add: arm_result_def apply_inner_def apply_delete_def outcome_defs)

lemma acquire_predictable:
  assumes "predictable s (O_SemaphoreAcquire k p ow q) now" "store_get s k now = Some obj" "so_value obj = V_Semaphore st"
  shows "0 < q \<or> bt_get (sem_permits st) p = None"
  using assms by (auto simp: predictable_def value_at_def get_stored_def store_get_def split: option.splits if_splits)

lemma ordinary_prediction:
  assumes "\<not> op_is_txn op" "durable_plain s op now = Inr (SP_Write m expected)" "store_inv s" "predictable s op now"
  shows "arm_result s now (is_persist op) m = Some expected"
proof (cases op)
  case (O_SemaphoreAcquire k p ow q)
  then show ?thesis
    using assms(2,4) predict_acquire_arm [of s k p ow q now m expected] acquire_predictable [of s k p ow q now]
    by (auto simp: durable_plain_def)
next
  case (O_SetRange k off patch)
  then show ?thesis
    using assms(2,4) predict_set_range_arm [of s k off patch now] by (simp add: durable_plain_def predictable_def)
qed (use assms(1-3) durable_read_no_write [of op s now m expected] in
  \<open>auto simp: durable_plain_def op_is_txn_def is_persist_def is_mutating_def predict_write_SP_Write predict_replace
    delete_arm intro: predict_conditional_arm predict_expiry_arm predict_counters_arm predict_semaphores_arm
    predict_leases_arm predict_streams_arm predict_trim_arm\<close>)

lemma durable_consistent:
  "case op of
     O_TxnFinalize txn k c w digest \<Rightarrow>
       prepare s op now = Inr (P_Write (M_TxnFinalize txn k c w digest))
       \<and> (case prepare_durable s op now of
            Inr (SP_Write m _) \<Rightarrow> m = M_TxnFinalize txn k c w digest
          | Inr (SP_Terminal _) \<Rightarrow> True
          | _ \<Rightarrow> False)
   | O_LeaseAcquire _ _ _ \<Rightarrow>
       prepare_durable s op now = Inr (rejected E_StreamFull)
       \<or> consistent (prepare_durable s op now) (prepare s op now)
   | _ \<Rightarrow> consistent (prepare_durable s op now) (prepare s op now)"
proof (cases "op_blocked s op")
  case True
  then have "consistent (prepare_durable s op now) (prepare s op now)"
    by (simp add: prepare_def prepare_durable_def)
  with True show ?thesis by (cases op) (simp_all add: op_blocked_def op_is_txn_def)
next
  case False
  then have eq: "prepare s op now = prepare_plain s op now" "prepare_durable s op now = durable_plain s op now"
    by (simp_all add: prepare_def prepare_durable_def)
  show ?thesis
  proof (cases op)
    case (O_TxnFinalize txn k c w digest)
    then show ?thesis
      using finalize_cases [of s txn k c w digest now] eq by (auto simp: prepare_plain_def durable_plain_def)
  next
    case (O_LeaseAcquire k ow ttl)
    then show ?thesis
      using consistent_leases(1) [of s k ow ttl now] eq by (auto simp: prepare_plain_def durable_plain_def)
  qed (use consistent_reads [of op s now] eq in
    \<open>simp_all add: prepare_plain_def durable_plain_def is_mutating_def consistent_values consistent_counters
      consistent_semaphores consistent_leases consistent_streams consistent_txn\<close>)
qed

lemma prepare_agrees:
  assumes "prepare_durable s op now = Inr (SP_Write m e)"
  shows "prepare s op now = Inr (P_Write m)"
  using durable_consistent [where s = s and op = op and now = now] assms by (cases op) (auto simp: rejected_def)

section \<open>Properties\<close>


lemma prediction_applies:
  assumes "store_inv s" "prepare_durable s op now = Inr (SP_Write m expected)" "predictable s op now"
  shows "\<exists>s' out. apply_mutation s m now = (s', Inr out) \<and> outcome_for m out (is_persist op) = Some expected"
proof -
  have plain: "durable_plain s op now = Inr (SP_Write m expected)" and free: "\<not> op_blocked s op"
    using assms(2) by (auto simp: prepare_durable_def split: if_splits)
  show ?thesis
  proof (cases "op_is_txn op")
    case True
    then show ?thesis
      using plain assms(1,3) reserve_applies finalize_applies local_commit_applies
      by (cases op) (auto simp: op_is_txn_def durable_plain_def predictable_def split: sum.splits)
  next
    case False
    have "is_mutating op"
      using plain durable_read_no_write [of op s now m expected]
      by (cases op) (auto simp: durable_plain_def is_mutating_def)
    moreover have "prepare_plain s op now = Inr (P_Write m)"
      using prepare_agrees [OF assms(2)] free by (simp add: prepare_def)
    ultimately have "mutates op m" using False by (intro prepare_mutates)
    moreover have "arm_result s now (is_persist op) m = Some expected"
      using False plain assms(1,3) by (rule ordinary_prediction)
    ultimately show ?thesis using free False by (rule mutates_applies)
  qed
qed

text \<open>
  C5: Predictions come true.  On a well-formed store, whenever \<open>prepare_durable\<close> announces a write and
  the operation is predictable, applying the announced mutation succeeds and yields exactly the
  announced result.
\<close>

theorem prediction_holds:
  assumes "store_inv s" "prepare_durable s op now = Inr (SP_Write m expected)" "predictable s op now"
  shows "\<exists>s' out. apply_mutation s m now = (s', Inr out) \<and> outcome_for m out (is_persist op) = Some expected"
  using assms by (rule prediction_applies)

lemmas prepare_eval = prepare_durable_def op_blocked_def op_is_txn_def is_mutating_def durable_plain_def
  predict_write_def predict_version_def predict_semaphore_acquire_def predict_bounded_add_def

theorem prediction_holds_witness:
  "prepare_durable (sample_semaphore 10) (O_SemaphoreAcquire [1] [2] 7 3) 6
     = Inr (SP_Write (M_SemaphoreAcquire [1] [2] 7 3) R_SemaphoreAcquired)
   \<and> (\<exists>s' out. apply_mutation (sample_semaphore 10) (M_SemaphoreAcquire [1] [2] 7 3) 6 = (s', Inr out))"
proof -
  have "store_inv (sample_semaphore 10)"
    unfolding sample_semaphore_def by (intro store_run_inv store_run.intros)
  moreover have announce: "prepare_durable (sample_semaphore 10) (O_SemaphoreAcquire [1] [2] 7 3) 6
     = Inr (SP_Write (M_SemaphoreAcquire [1] [2] 7 3) R_SemaphoreAcquired)"
    "predictable (sample_semaphore 10) (O_SemaphoreAcquire [1] [2] 7 3) 6"
    by (simp_all add: prepare_eval semaphore_eval predictable_def)
  ultimately show ?thesis using prediction_holds by blast
qed

text \<open>
  One of the exceptions is reachable by a client: an acquire of quantity zero under a permit id
  that is held is announced as granted, but applying the announced mutation fails, on every replica.
\<close>

theorem semaphore_zero_acquire_diverges:
  "let s = fst (apply_mutation (sample_semaphore 10) (M_SemaphoreAcquire [1] [2] 7 3) 6) in
    prepare_durable s (O_SemaphoreAcquire [1] [2] 7 0) 7
      = Inr (SP_Write (M_SemaphoreAcquire [1] [2] 7 0) R_SemaphoreAcquired)
    \<and> snd (apply_mutation s (M_SemaphoreAcquire [1] [2] 7 0) 7) = Inl AE_SemaphoreExhausted"
  by (simp add: prepare_eval semaphore_eval)

end
