(* ===== verification/Opcodes.thy ===== *)
theory Opcodes
  imports Ops
begin

text \<open>
  The wire opcodes of the client protocol (\<open>crates/kivi-protocol/src/message.rs\<close>) and the two
  mappings that pick one: from the operation a request carries and from the mutation it became.
  The lemmas show that the discriminants decode back and when the two mappings agree.
\<close>

section \<open>Opcodes\<close>

datatype (plugins only: code size) opcode =
    OP_Get | OP_Set | OP_Delete | OP_Exists | OP_CounterGet | OP_CounterAdd | OP_ExpireAt |
    OP_PersistExpiry | OP_GetExpiry | OP_SetRange | OP_GetStream | OP_GetRange |
    OP_BytesLength | OP_SetConditional | OP_Scan | OP_AtomicBatch | OP_TxnPrepare |
    OP_TxnFinalize | OP_GetVersion | OP_CommutativeGet | OP_CommutativeAdd |
    OP_BoundedCounterCreate | OP_BoundedCounterAdd | OP_BoundedCounterGet | OP_EscrowTransfer |
    OP_SemaphoreCreate | OP_SemaphoreAcquire | OP_SemaphoreRelease | OP_SemaphoreInspect |
    OP_LeaseAcquire | OP_LeaseRenew | OP_LeaseRelease | OP_LeaseInspect | OP_StreamCreate |
    OP_StreamAppend | OP_StreamRead | OP_StreamTrim

fun opcode_as_u8 :: "opcode \<Rightarrow> u8" where
  "opcode_as_u8 OP_Get = 1"
| "opcode_as_u8 OP_Set = 2"
| "opcode_as_u8 OP_Delete = 3"
| "opcode_as_u8 OP_Exists = 4"
| "opcode_as_u8 OP_CounterGet = 5"
| "opcode_as_u8 OP_CounterAdd = 6"
| "opcode_as_u8 OP_ExpireAt = 7"
| "opcode_as_u8 OP_PersistExpiry = 8"
| "opcode_as_u8 OP_GetExpiry = 9"
| "opcode_as_u8 OP_SetRange = 10"
| "opcode_as_u8 OP_GetStream = 11"
| "opcode_as_u8 OP_GetRange = 12"
| "opcode_as_u8 OP_BytesLength = 13"
| "opcode_as_u8 OP_SetConditional = 14"
| "opcode_as_u8 OP_Scan = 15"
| "opcode_as_u8 OP_AtomicBatch = 16"
| "opcode_as_u8 OP_TxnPrepare = 17"
| "opcode_as_u8 OP_TxnFinalize = 18"
| "opcode_as_u8 OP_GetVersion = 19"
| "opcode_as_u8 OP_CommutativeGet = 20"
| "opcode_as_u8 OP_CommutativeAdd = 21"
| "opcode_as_u8 OP_BoundedCounterCreate = 22"
| "opcode_as_u8 OP_BoundedCounterAdd = 23"
| "opcode_as_u8 OP_BoundedCounterGet = 24"
| "opcode_as_u8 OP_EscrowTransfer = 25"
| "opcode_as_u8 OP_SemaphoreCreate = 26"
| "opcode_as_u8 OP_SemaphoreAcquire = 27"
| "opcode_as_u8 OP_SemaphoreRelease = 28"
| "opcode_as_u8 OP_SemaphoreInspect = 29"
| "opcode_as_u8 OP_LeaseAcquire = 30"
| "opcode_as_u8 OP_LeaseRenew = 31"
| "opcode_as_u8 OP_LeaseRelease = 32"
| "opcode_as_u8 OP_LeaseInspect = 33"
| "opcode_as_u8 OP_StreamCreate = 34"
| "opcode_as_u8 OP_StreamAppend = 35"
| "opcode_as_u8 OP_StreamRead = 36"
| "opcode_as_u8 OP_StreamTrim = 37"

definition opcode_list :: "opcode list" where
  "opcode_list =
    [OP_Get, OP_Set, OP_Delete, OP_Exists, OP_CounterGet, OP_CounterAdd, OP_ExpireAt,
     OP_PersistExpiry, OP_GetExpiry, OP_SetRange, OP_GetStream, OP_GetRange, OP_BytesLength,
     OP_SetConditional, OP_Scan, OP_AtomicBatch, OP_TxnPrepare, OP_TxnFinalize, OP_GetVersion,
     OP_CommutativeGet, OP_CommutativeAdd, OP_BoundedCounterCreate, OP_BoundedCounterAdd,
     OP_BoundedCounterGet, OP_EscrowTransfer, OP_SemaphoreCreate, OP_SemaphoreAcquire,
     OP_SemaphoreRelease, OP_SemaphoreInspect, OP_LeaseAcquire, OP_LeaseRenew, OP_LeaseRelease,
     OP_LeaseInspect, OP_StreamCreate, OP_StreamAppend, OP_StreamRead, OP_StreamTrim]"

text \<open>The match of \<open>Opcode::from_u8\<close>: the discriminants count the variants from one.\<close>

definition opcode_from_u8 :: "u8 \<Rightarrow> opcode option" where
  "opcode_from_u8 b =
    (if b = 0 \<or> 37 < b then None else Some (opcode_list ! (unat b - 1)))"

definition opcode_is_mutating :: "opcode \<Rightarrow> bool" where
  "opcode_is_mutating c \<longleftrightarrow> c \<in>
    {OP_Set, OP_Delete, OP_CounterAdd, OP_ExpireAt, OP_PersistExpiry, OP_SetRange,
     OP_SetConditional, OP_AtomicBatch, OP_TxnPrepare, OP_TxnFinalize, OP_CommutativeAdd,
     OP_BoundedCounterCreate, OP_BoundedCounterAdd, OP_EscrowTransfer, OP_SemaphoreCreate,
     OP_SemaphoreAcquire, OP_SemaphoreRelease, OP_LeaseAcquire, OP_LeaseRenew, OP_LeaseRelease,
     OP_StreamCreate, OP_StreamAppend, OP_StreamTrim}"

fun operation_opcode :: "operation \<Rightarrow> opcode" where
  "operation_opcode (O_Get _) = OP_Get"
| "operation_opcode (O_Set _ _) = OP_Set"
| "operation_opcode (O_SetChunked _ _ _) = OP_Set"
| "operation_opcode (O_SetFabric _ _ _ _) = OP_Set"
| "operation_opcode (O_SetRange _ _ _) = OP_SetRange"
| "operation_opcode (O_Delete _) = OP_Delete"
| "operation_opcode (O_Exists _) = OP_Exists"
| "operation_opcode (O_CounterGet _) = OP_CounterGet"
| "operation_opcode (O_CounterAdd _ _) = OP_CounterAdd"
| "operation_opcode (O_ExpireAt _ _) = OP_ExpireAt"
| "operation_opcode (O_PersistExpiry _) = OP_PersistExpiry"
| "operation_opcode (O_GetExpiry _) = OP_GetExpiry"
| "operation_opcode (O_GetRange _ _ _) = OP_GetRange"
| "operation_opcode (O_BytesLength _) = OP_BytesLength"
| "operation_opcode (O_GetVersion _) = OP_GetVersion"
| "operation_opcode (O_SetConditional _ _ _ _) = OP_SetConditional"
| "operation_opcode (O_SetConditionalChunked _ _ _ _ _) = OP_SetConditional"
| "operation_opcode (O_SetConditionalFabric _ _ _ _ _ _) = OP_SetConditional"
| "operation_opcode (O_TxnPrepare _ _ _ _) = OP_TxnPrepare"
| "operation_opcode (O_TxnFinalize _ _ _ _ _) = OP_TxnFinalize"
| "operation_opcode (O_TxnCommitLocal _ _) = OP_AtomicBatch"
| "operation_opcode (O_CommutativeAdd _ _) = OP_CommutativeAdd"
| "operation_opcode (O_CommutativeGet _) = OP_CommutativeGet"
| "operation_opcode (O_BoundedCounterCreate _ _ _) = OP_BoundedCounterCreate"
| "operation_opcode (O_BoundedCounterAdd _ _) = OP_BoundedCounterAdd"
| "operation_opcode (O_BoundedCounterGet _) = OP_BoundedCounterGet"
| "operation_opcode (O_EscrowTransfer _ _ _) = OP_EscrowTransfer"
| "operation_opcode (O_SemaphoreCreate _ _) = OP_SemaphoreCreate"
| "operation_opcode (O_SemaphoreAcquire _ _ _ _) = OP_SemaphoreAcquire"
| "operation_opcode (O_SemaphoreRelease _ _) = OP_SemaphoreRelease"
| "operation_opcode (O_SemaphoreInspect _) = OP_SemaphoreInspect"
| "operation_opcode (O_LeaseAcquire _ _ _) = OP_LeaseAcquire"
| "operation_opcode (O_LeaseRenew _ _ _ _) = OP_LeaseRenew"
| "operation_opcode (O_LeaseRelease _ _ _) = OP_LeaseRelease"
| "operation_opcode (O_LeaseInspect _) = OP_LeaseInspect"
| "operation_opcode (O_StreamCreate _ _ _) = OP_StreamCreate"
| "operation_opcode (O_StreamAppend _ _ _) = OP_StreamAppend"
| "operation_opcode (O_StreamRead _ _ _) = OP_StreamRead"
| "operation_opcode (O_StreamTrim _ _) = OP_StreamTrim"

definition mutation_opcode :: "mutation \<Rightarrow> bool \<Rightarrow> opcode" where
  "mutation_opcode m is_persist_expiry =
    (case m of
       M_PutBytes _ _ \<Rightarrow> OP_Set
     | M_Delete _ \<Rightarrow> OP_Delete
     | M_CounterAdd _ _ \<Rightarrow> OP_CounterAdd
     | M_SetExpiry _ _ \<Rightarrow> if is_persist_expiry then OP_PersistExpiry else OP_ExpireAt
     | M_ReplaceChunkedRoot _ _ _ \<Rightarrow> OP_Set
     | M_ReplaceFabricRoot _ _ _ _ \<Rightarrow> OP_Set
     | M_SpliceBytes _ _ _ \<Rightarrow> OP_SetRange
     | M_PutBytesWithExpiry _ _ _ \<Rightarrow> OP_SetConditional
     | M_ReplaceChunkedRootWithExpiry _ _ _ _ \<Rightarrow> OP_SetConditional
     | M_ReplaceFabricRootWithExpiry _ _ _ _ _ \<Rightarrow> OP_SetConditional
     | M_TxnPrepare _ _ _ _ _ _ \<Rightarrow> OP_AtomicBatch
     | M_TxnFinalize _ _ _ _ _ \<Rightarrow> OP_AtomicBatch
     | M_TxnCommitLocal _ _ \<Rightarrow> OP_AtomicBatch
     | M_CommutativeAdd _ _ \<Rightarrow> OP_CommutativeAdd
     | M_BoundedCreate _ _ _ \<Rightarrow> OP_BoundedCounterCreate
     | M_BoundedAdd _ _ \<Rightarrow> OP_BoundedCounterAdd
     | M_EscrowSetShare _ _ _ \<Rightarrow> OP_EscrowTransfer
     | M_SemaphoreCreate _ _ \<Rightarrow> OP_SemaphoreCreate
     | M_SemaphoreAcquire _ _ _ _ \<Rightarrow> OP_SemaphoreAcquire
     | M_SemaphoreRelease _ _ \<Rightarrow> OP_SemaphoreRelease
     | M_LeaseAcquire _ _ _ _ \<Rightarrow> OP_LeaseAcquire
     | M_LeaseRenew _ _ _ _ \<Rightarrow> OP_LeaseRenew
     | M_LeaseRelease _ _ _ \<Rightarrow> OP_LeaseRelease
     | M_StreamCreate _ _ _ \<Rightarrow> OP_StreamCreate
     | M_StreamAppend _ _ _ \<Rightarrow> OP_StreamAppend
     | M_StreamTrim _ _ \<Rightarrow> OP_StreamTrim)"

section \<open>Lemmas\<close>

lemma opcode_round_trip: "opcode_from_u8 (opcode_as_u8 c) = Some c"
  by (cases c) (simp_all add: opcode_from_u8_def opcode_list_def)

lemma opcode_as_u8_inject: "opcode_as_u8 c = opcode_as_u8 d \<longleftrightarrow> c = d"
  using opcode_round_trip by (metis option.inject)

lemma operation_opcode_mutating: "opcode_is_mutating (operation_opcode op) \<longleftrightarrow> is_mutating op"
  by (cases op) (simp_all add: opcode_is_mutating_def is_mutating_def)

lemma mutation_opcode_mutating: "opcode_is_mutating (mutation_opcode m persist)"
  by (cases m) (simp_all add: opcode_is_mutating_def mutation_opcode_def)

end
