(* ===== verification/State_Machine.thy ===== *)
theory State_Machine
  imports Prepare_Agreement Control_State Opcodes
begin

text \<open>
  The replicated tablet state machine (\<open>crates/kivi-consensus/src/state_machine.rs\<close>) with the
  commands it applies (\<open>mutation.rs\<close>, \<open>command.rs\<close>, \<open>crates/kivi-state/src/envelope.rs\<close>) and the
  leader's proposal path (\<open>propose_caller_side\<close> in \<open>node.rs\<close>): routing and authority checks, session
  deduplication with its acknowledgement floor, verified deterministic application, and the copy a
  topology change installs.

  A tablet is a record; every operation on it returns the tablet after the call together with the
  result, also when it faults.  Texts in faults are left out.  Log identifiers and memberships belong
  to the Raft library: a log identifier is the triple the code reads from it, and a membership is a
  type parameter.  The state machine's two panics are the fault \<open>F_Panic\<close>.
\<close>

section \<open>Commands\<close>

type_synonym session_id = u128

record request_identity =
  ri_session :: session_id
  ri_seq :: request_seq

definition MUTATION_ENVELOPE_VERSION :: u16 where
  "MUTATION_ENVELOPE_VERSION = 1"

record mutation_envelope =
  me_version :: u16
  me_namespace :: namespace_id
  me_tablet :: tablet_id
  me_epoch :: tablet_epoch
  me_guard :: write_guard_generation
  me_client :: request_identity
  me_idempotency :: "u128 option"
  me_operation :: mutation

definition envelope_new ::
  "namespace_id \<Rightarrow> tablet_authority \<Rightarrow> request_identity \<Rightarrow> u128 option \<Rightarrow> mutation \<Rightarrow> mutation_envelope" where
  "envelope_new namespace authority client idempotency m =
    \<lparr>me_version = MUTATION_ENVELOPE_VERSION, me_namespace = namespace,
     me_tablet = auth_tablet authority, me_epoch = auth_epoch authority,
     me_guard = auth_guard authority, me_client = client, me_idempotency = idempotency,
     me_operation = m\<rparr>"

definition envelope_authority :: "mutation_envelope \<Rightarrow> tablet_authority" where
  "envelope_authority e = \<lparr>auth_tablet = me_tablet e, auth_epoch = me_epoch e, auth_guard = me_guard e\<rparr>"

record replicated_mutation =
  rm_envelope :: mutation_envelope
  rm_expected :: operation_result
  rm_now :: wall_timestamp
  rm_ack_floor :: request_seq

type_synonym replicated_outcome = "operation_result option"

record alr_fence =
  af_tablet :: tablet_id
  af_batch :: u64
  af_requester :: node_id

record alr_fence_sync =
  afs_fence :: alr_fence
  afs_formation_applied :: commit_position

datatype consensus_command =
    CC_Tablet replicated_mutation
  | CC_Control control_mutation
  | CC_ReadSync alr_fence_sync

section \<open>State\<close>

definition SESSION_OUTCOME_CAP :: nat where
  "SESSION_OUTCOME_CAP = 1024"

definition ANONYMOUS_SESSION :: session_id where
  "ANONYMOUS_SESSION = 0"

definition CONTROL_TABLET_RAW :: u64 where
  "CONTROL_TABLET_RAW = - 1"

definition commit_of_index :: "u64 \<Rightarrow> commit_position" where
  "commit_of_index index = saturating_add index 1"

definition index_of_commit :: "commit_position \<Rightarrow> u64 option" where
  "index_of_commit c = (if c = 0 then None else Some (c - 1))"

record applied_pointer =
  ap_term :: u64
  ap_leader :: u64
  ap_index :: u64

record retained_outcome =
  ro_commit :: commit_position
  ro_opcode :: u8
  ro_outcome :: durable_outcome

record session_state =
  ss_floor :: request_seq
  ss_outcomes :: "(request_seq, retained_outcome) bmap"

definition session_default :: session_state where
  "session_default = \<lparr>ss_floor = 0, ss_outcomes = []\<rparr>"

definition advance_floor :: "session_state \<Rightarrow> request_seq \<Rightarrow> session_state" where
  "advance_floor st ack =
    (if ss_floor st < ack
     then st\<lparr>ss_floor := ack, ss_outcomes := filter (\<lambda>e. ack < fst e) (ss_outcomes st)\<rparr>
     else st)"

datatype proposal_gate = Gate_Admit | Gate_Hit operation_result | Gate_Expired | Gate_Overloaded

datatype state_machine_fault =
    F_Divergence u64 operation_result operation_result
  | F_DedupDivergence u64 operation_result operation_result
  | F_Misrouted u64 u64 u64 u64
  | F_AuthorityMismatch
  | F_ExpiredIdentity u128 u64 u64 u64
  | F_SessionOverloaded u128 u64
  | F_ApplyFailed u64
  | F_CorruptState
  | F_NotARead
  | F_ControlRejected u64
  | F_WrongGroup
  | F_Io
  | F_Panic

record 'mem replicated_tablet =
  rt_namespace :: namespace_id
  rt_tablet :: tablet_id
  rt_authority :: tablet_authority
  rt_store :: object_store
  rt_sessions :: "(session_id, session_state) bmap"
  rt_applied :: "applied_pointer option"
  rt_membership :: "applied_pointer option \<times> 'mem"
  rt_control :: control_state

definition tablet_new ::
  "'mem \<Rightarrow> namespace_id \<Rightarrow> tablet_id \<Rightarrow> tablet_authority \<Rightarrow> 'mem replicated_tablet" where
  "tablet_new members namespace tablet authority =
    \<lparr>rt_namespace = namespace, rt_tablet = tablet, rt_authority = authority, rt_store = store_new,
     rt_sessions = [], rt_applied = None, rt_membership = (None, members),
     rt_control = control_empty\<rparr>"

definition tablet_is_control :: "'mem replicated_tablet \<Rightarrow> bool" where
  "tablet_is_control t \<longleftrightarrow> rt_tablet t = CONTROL_TABLET_RAW"

definition applied_commit :: "'mem replicated_tablet \<Rightarrow> commit_position" where
  "applied_commit t =
    (case rt_applied t of None \<Rightarrow> 0 | Some pointer \<Rightarrow> commit_of_index (ap_index pointer))"

text \<open>Only a persist-expiry request produces a mutation that sets the expiry to never.\<close>

definition is_persist_expiry :: "mutation \<Rightarrow> bool" where
  "is_persist_expiry m = (case m of M_SetExpiry _ expiry \<Rightarrow> expiry = expiry_NEVER | _ \<Rightarrow> False)"

section \<open>The leader's side\<close>

definition retained_after :: "session_state \<Rightarrow> request_seq \<Rightarrow> nat" where
  "retained_after st fl = length (filter (\<lambda>q. fl < q) (bt_keys (ss_outcomes st)))"

definition check_proposal ::
  "'mem replicated_tablet \<Rightarrow> session_id \<Rightarrow> request_seq \<Rightarrow> request_seq \<Rightarrow>
   state_machine_fault + proposal_gate" where
  "check_proposal t session seq ack =
    (case bt_get (rt_sessions t) session of
       None \<Rightarrow> Inr Gate_Admit
     | Some st \<Rightarrow>
       let fl = max (ss_floor st) ack in
       if seq \<le> fl then Inr Gate_Expired
       else case bt_get (ss_outcomes st) seq of
         Some retained \<Rightarrow>
           (case ro_outcome retained of
              D_Completed r \<Rightarrow> Inr (Gate_Hit r)
            | D_Rejected _ \<Rightarrow> Inl F_CorruptState
            | D_VersionExhausted \<Rightarrow> Inl F_CorruptState)
       | None \<Rightarrow>
           if SESSION_OUTCOME_CAP \<le> retained_after st fl then Inr Gate_Overloaded
           else Inr Gate_Admit)"

definition prepare_operation ::
  "'mem replicated_tablet \<Rightarrow> operation \<Rightarrow> wall_timestamp \<Rightarrow> op_error + store_prepared" where
  "prepare_operation t op now = prepare_durable (rt_store t) op now"

definition read_local ::
  "'mem replicated_tablet \<Rightarrow> operation \<Rightarrow> wall_timestamp \<Rightarrow> state_machine_fault + operation_result" where
  "read_local t op now =
    (case prepare (rt_store t) op now of
       Inl _ \<Rightarrow> Inl (F_ApplyFailed (case rt_applied t of None \<Rightarrow> 0 | Some p \<Rightarrow> ap_index p))
     | Inr (P_Read r) \<Rightarrow> Inr r
     | Inr (P_Write _) \<Rightarrow> Inl F_NotARead)"

text \<open>
  What a proposal does before it reaches the log: answer from retained outcomes, reject, or build the
  command that will be committed.  Requests without an identity use the reserved anonymous one.
  The parameter \<open>fenced\<close> is the cutover fence.  Chunk roots are staged beforehand; a chunked write is
  prepared by the owner after its preflight, with the same calls.  The caller passes the namespace and
  the authority of the group, which are the tablet's.
\<close>

datatype propose_outcome =
    PO_Duplicate operation_result
  | PO_Read operation_result
  | PO_Rejected durable_outcome
  | PO_Command replicated_mutation
  | PO_Expired
  | PO_Overloaded
  | PO_Fenced
  | PO_Unavailable
  | PO_Invalid op_error
  | PO_Panic

definition proposed_command ::
  "'mem replicated_tablet \<Rightarrow> (request_identity \<times> request_seq) option \<Rightarrow> u128 option \<Rightarrow>
   wall_timestamp \<Rightarrow> mutation \<Rightarrow> operation_result \<Rightarrow> replicated_mutation" where
  "proposed_command t identity idempotency now m expected =
    \<lparr>rm_envelope = envelope_new (rt_namespace t) (rt_authority t)
       (case identity of None \<Rightarrow> \<lparr>ri_session = ANONYMOUS_SESSION, ri_seq = 0\<rparr> | Some (client, _) \<Rightarrow> client)
       idempotency m,
     rm_expected = expected, rm_now = now,
     rm_ack_floor = (case identity of None \<Rightarrow> 0 | Some (_, ack) \<Rightarrow> ack)\<rparr>"

definition propose_prepared ::
  "'mem replicated_tablet \<Rightarrow> operation \<Rightarrow> (request_identity \<times> request_seq) option \<Rightarrow> u128 option \<Rightarrow>
   wall_timestamp \<Rightarrow> propose_outcome" where
  "propose_prepared t op identity idempotency now =
    (case prepare_operation t op now of
       Inl e \<Rightarrow> PO_Invalid e
     | Inr (SP_Read r) \<Rightarrow> PO_Read r
     | Inr (SP_Terminal r) \<Rightarrow> PO_Rejected r
     | Inr (SP_Write m expected) \<Rightarrow> PO_Command (proposed_command t identity idempotency now m expected)
     | Inr SP_Panic \<Rightarrow> PO_Panic)"

definition propose_caller_side ::
  "'mem replicated_tablet \<Rightarrow> bool \<Rightarrow> operation \<Rightarrow> (request_identity \<times> request_seq) option \<Rightarrow>
   u128 option \<Rightarrow> wall_timestamp \<Rightarrow> propose_outcome" where
  "propose_caller_side t fenced op identity idempotency now =
    (let gate = (case identity of None \<Rightarrow> Inr Gate_Admit
           | Some (client, ack) \<Rightarrow> check_proposal t (ri_session client) (ri_seq client) ack) in
     case gate of
       Inl _ \<Rightarrow> PO_Unavailable
     | Inr (Gate_Hit r) \<Rightarrow> PO_Duplicate r
     | Inr Gate_Expired \<Rightarrow> PO_Expired
     | Inr Gate_Overloaded \<Rightarrow> PO_Overloaded
     | Inr Gate_Admit \<Rightarrow>
         if fenced then PO_Fenced else propose_prepared t op identity idempotency now)"

section \<open>Applying committed entries\<close>

type_synonym 'mem tablet_applied =
  "'mem replicated_tablet \<times> (state_machine_fault + replicated_outcome)"

definition dedup_lookup ::
  "'mem replicated_tablet \<Rightarrow> session_id \<Rightarrow> request_seq \<Rightarrow> request_seq \<Rightarrow> u64 \<Rightarrow>
   state_machine_fault + operation_result option" where
  "dedup_lookup t session seq ack index =
    (case bt_get (rt_sessions t) session of
       None \<Rightarrow> Inr None
     | Some st \<Rightarrow>
       let fl = max (ss_floor st) ack in
       if seq \<le> fl then Inl (F_ExpiredIdentity session seq fl index)
       else case bt_get (ss_outcomes st) seq of
         None \<Rightarrow>
           if SESSION_OUTCOME_CAP \<le> retained_after st fl
           then Inl (F_SessionOverloaded session index)
           else Inr None
       | Some retained \<Rightarrow>
           (case ro_outcome retained of
              D_Completed r \<Rightarrow> Inr (Some r)
            | D_Rejected _ \<Rightarrow> Inl F_CorruptState
            | D_VersionExhausted \<Rightarrow> Inl F_CorruptState))"

definition apply_fresh :: "'mem replicated_tablet \<Rightarrow> u64 \<Rightarrow> replicated_mutation \<Rightarrow> 'mem tablet_applied" where
  "apply_fresh t index command =
    (let m = me_operation (rm_envelope command);
         (store', result) = apply_mutation (rt_store t) m (rm_now command);
         t' = t\<lparr>rt_store := store'\<rparr>
     in case result of
       Inl _ \<Rightarrow> (t', Inl (F_ApplyFailed index))
     | Inr out \<Rightarrow>
         (case outcome_for m out (is_persist_expiry m) of
            None \<Rightarrow> (t', Inl F_Panic)
          | Some r \<Rightarrow>
              if r \<noteq> rm_expected command then (t', Inl (F_Divergence index (rm_expected command) r))
              else (t', Inr (Some r))))"

definition install_outcome ::
  "'mem replicated_tablet \<Rightarrow> u64 \<Rightarrow> replicated_mutation \<Rightarrow> operation_result \<Rightarrow> 'mem replicated_tablet" where
  "install_outcome t index command r =
    (let m = me_operation (rm_envelope command);
         client = me_client (rm_envelope command);
         st = (case bt_get (rt_sessions t) (ri_session client) of None \<Rightarrow> session_default | Some st \<Rightarrow> st);
         st' = advance_floor st (rm_ack_floor command);
         retained = \<lparr>ro_commit = commit_of_index index,
           ro_opcode = opcode_as_u8 (mutation_opcode m (is_persist_expiry m)),
           ro_outcome = D_Completed r\<rparr>
     in t\<lparr>rt_sessions := bt_insert (ri_session client)
            (st'\<lparr>ss_outcomes := bt_insert (ri_seq client) retained (ss_outcomes st')\<rparr>) (rt_sessions t)\<rparr>)"

definition apply_command :: "'mem replicated_tablet \<Rightarrow> u64 \<Rightarrow> replicated_mutation \<Rightarrow> 'mem tablet_applied" where
  "apply_command t index command =
    (let e = rm_envelope command; session = ri_session (me_client e); seq = ri_seq (me_client e) in
     if me_namespace e \<noteq> rt_namespace t \<or> me_tablet e \<noteq> rt_tablet t
     then (t, Inl (F_Misrouted (me_namespace e) (me_tablet e) (rt_namespace t) (rt_tablet t)))
     else case check_against (envelope_authority e) (rt_authority t) of
       Inl _ \<Rightarrow> (t, Inl F_AuthorityMismatch)
     | Inr _ \<Rightarrow>
       if session = ANONYMOUS_SESSION \<and> seq = 0 then apply_fresh t index command
       else case dedup_lookup t session seq (rm_ack_floor command) index of
         Inl fault \<Rightarrow> (t, Inl fault)
       | Inr (Some retained) \<Rightarrow>
           if retained \<noteq> rm_expected command
           then (t, Inl (F_DedupDivergence index retained (rm_expected command)))
           else (t, Inr (Some retained))
       | Inr None \<Rightarrow>
           (case apply_fresh t index command of
              (t', Inl fault) \<Rightarrow> (t', Inl fault)
            | (t', Inr None) \<Rightarrow> (t', Inl F_Panic)
            | (t', Inr (Some r)) \<Rightarrow> (install_outcome t' index command r, Inr (Some r))))"

definition apply_envelope :: "'mem replicated_tablet \<Rightarrow> u64 \<Rightarrow> consensus_command \<Rightarrow> 'mem tablet_applied" where
  "apply_envelope t index command =
    (case command of
       CC_Tablet m \<Rightarrow> if tablet_is_control t then (t, Inl F_WrongGroup) else apply_command t index m
     | CC_Control m \<Rightarrow>
         if \<not> tablet_is_control t then (t, Inl F_WrongGroup)
         else let (control', result) = control_apply (rt_control t) m; t' = t\<lparr>rt_control := control'\<rparr> in
           (case result of
              Inr _ \<Rightarrow> (t', Inr None)
            | Inl (CE_SupersededTopology _) \<Rightarrow> (t', Inr None)
            | Inl _ \<Rightarrow> (t', Inl (F_ControlRejected index)))
     | CC_ReadSync sync \<Rightarrow>
         if tablet_is_control t then (t, Inl F_WrongGroup)
         else if af_tablet (afs_fence sync) \<noteq> rt_tablet t
         then (t, Inl (F_Misrouted (rt_namespace t) (af_tablet (afs_fence sync)) (rt_namespace t) (rt_tablet t)))
         else (t, Inr None))"

datatype 'mem entry_payload = Blank | Normal consensus_command | Membership 'mem

definition apply_entry ::
  "'mem replicated_tablet \<Rightarrow> applied_pointer \<Rightarrow> 'mem entry_payload \<Rightarrow> 'mem tablet_applied" where
  "apply_entry t log_id payload =
    (case payload of
       Blank \<Rightarrow> (t\<lparr>rt_applied := Some log_id\<rparr>, Inr None)
     | Membership members \<Rightarrow>
         (t\<lparr>rt_membership := (Some log_id, members), rt_applied := Some log_id\<rparr>, Inr None)
     | Normal command \<Rightarrow>
         (case apply_envelope t (ap_index log_id) command of
            (t', Inl fault) \<Rightarrow> (t', Inl fault)
          | (t', Inr r) \<Rightarrow> (t'\<lparr>rt_applied := Some log_id\<rparr>, Inr r)))"

text \<open>
  The entries of one batch in order: a fault stops the batch and leaves the tablet as the faulting
  call left it.
\<close>

fun apply_batch ::
  "'mem replicated_tablet \<Rightarrow> (applied_pointer \<times> 'mem entry_payload) list \<Rightarrow>
   'mem replicated_tablet \<times> (state_machine_fault + replicated_outcome list)" where
  "apply_batch t [] = (t, Inr [])"
| "apply_batch t ((log_id, payload) # entries) =
    (case apply_entry t log_id payload of
       (t', Inl fault) \<Rightarrow> (t', Inl fault)
     | (t', Inr r) \<Rightarrow>
         (case apply_batch t' entries of
            (t'', Inl fault) \<Rightarrow> (t'', Inl fault)
          | (t'', Inr rs) \<Rightarrow> (t'', Inr (r # rs))))"

section \<open>The state machine around the tablet\<close>

text \<open>
  The part of \<open>StateMachineInner\<close> that decides what is served: the tablet, the health latch and the
  cutover fence.  The snapshot files are left out; a failed seal latches the machine like a fault.
\<close>

record 'mem state_machine_inner =
  sm_tablet :: "'mem replicated_tablet"
  sm_healthy :: bool
  sm_fenced :: bool

definition sm_open :: "'mem replicated_tablet \<Rightarrow> 'mem state_machine_inner" where
  "sm_open t = \<lparr>sm_tablet = t, sm_healthy = True, sm_fenced = False\<rparr>"

definition poison :: "'mem state_machine_inner \<Rightarrow> 'mem state_machine_inner" where
  "poison sm = sm\<lparr>sm_healthy := False\<rparr>"

definition set_fenced :: "'mem state_machine_inner \<Rightarrow> bool \<Rightarrow> 'mem state_machine_inner" where
  "set_fenced sm fenced = sm\<lparr>sm_fenced := fenced\<rparr>"

definition sm_apply ::
  "'mem state_machine_inner \<Rightarrow> (applied_pointer \<times> 'mem entry_payload) list \<Rightarrow>
   'mem state_machine_inner \<times> (state_machine_fault + replicated_outcome list)" where
  "sm_apply sm entries =
    (if \<not> sm_healthy sm then (sm, Inl F_Io)
     else case apply_batch (sm_tablet sm) entries of
       (t', Inl fault) \<Rightarrow> (poison (sm\<lparr>sm_tablet := t'\<rparr>), Inl fault)
     | (t', Inr rs) \<Rightarrow> (sm\<lparr>sm_tablet := t'\<rparr>, Inr rs))"

definition sm_read_local ::
  "'mem state_machine_inner \<Rightarrow> operation \<Rightarrow> wall_timestamp \<Rightarrow> state_machine_fault + operation_result" where
  "sm_read_local sm op now = (if \<not> sm_healthy sm then Inl F_Io else read_local (sm_tablet sm) op now)"

section \<open>Copies for topology changes\<close>

definition drain_intents :: "'mem replicated_tablet \<Rightarrow> 'mem replicated_tablet \<times> txn_intent list" where
  "drain_intents t =
    (let drained = bt_values (intents (rt_store t)) in
     (t\<lparr>rt_store := foldl (\<lambda>s i. s\<lparr>intents := bt_remove (in_key i) (intents s)\<rparr>) (rt_store t) drained\<rparr>,
      drained))"

type_synonym topology_copy =
  "(key \<times> stored_object) list \<times> (session_id \<times> request_seq \<times> (request_seq, retained_outcome) bmap) list"

definition export_topology_copy :: "'mem replicated_tablet \<Rightarrow> topology_copy" where
  "export_topology_copy t =
    (objects (rt_store t),
     map (\<lambda>(session, st). (session, ss_floor st, ss_outcomes st)) (rt_sessions t))"

definition install_topology_copy :: "'mem replicated_tablet \<Rightarrow> topology_copy \<Rightarrow> 'mem replicated_tablet" where
  "install_topology_copy t copy =
    (let cleared = foldl (\<lambda>s e. remove_stored s (fst e)) (rt_store t) (objects (rt_store t));
         filled = foldl (\<lambda>s e. put_stored s (fst e) (snd e)) cleared (fst copy);
         sessions = foldl (\<lambda>m e. bt_insert (fst e)
           \<lparr>ss_floor = fst (snd e), ss_outcomes = snd (snd e)\<rparr> m) [] (snd copy)
     in t\<lparr>rt_store := filled, rt_sessions := sessions\<rparr>)"

end
