(* ===== verification/Replication.thy ===== *)
theory Replication
  imports State_Machine
begin

text \<open>
  What replication guarantees.  Committed commands take effect at most once per client identity,
  whatever entries lie between a command and its retry; a proposal the leader admitted and that is
  applied to the state it was prepared on never faults and can be retried; the outcomes a session
  retains are bounded; and the copy a topology change installs keeps both data and deduplication.
  The last section shows what happens when two proposals are prepared on the same state.
\<close>

section \<open>Sessions\<close>

lemma ss_floor_advance [simp]: "ss_floor (advance_floor st ack) = max (ss_floor st) ack"
  by (auto simp: advance_floor_def max_def)

lemma ss_outcomes_advance:
  "bt_get (ss_outcomes (advance_floor st ack)) q =
    (if ss_floor st < ack \<and> q \<le> ack then None else bt_get (ss_outcomes st) q)"
  by (auto simp: advance_floor_def bt_get_filter not_less)

text \<open>A tablet remembers an identity when a command with it can no longer execute.\<close>

definition remembers :: "'mem replicated_tablet \<Rightarrow> session_id \<Rightarrow> request_seq \<Rightarrow> operation_result \<Rightarrow> bool" where
  "remembers t session seq r \<longleftrightarrow>
    (\<exists>st. bt_get (rt_sessions t) session = Some st \<and>
      (seq \<le> ss_floor st \<or> map_option ro_outcome (bt_get (ss_outcomes st) seq) = Some (D_Completed r)))"

definition identified :: "replicated_mutation \<Rightarrow> session_id \<Rightarrow> request_seq \<Rightarrow> bool" where
  "identified c session seq \<longleftrightarrow>
    ri_session (me_client (rm_envelope c)) = session \<and> ri_seq (me_client (rm_envelope c)) = seq \<and>
    \<not> (session = ANONYMOUS_SESSION \<and> seq = 0)"

lemma apply_fresh_sessions:
  "rt_sessions (fst (apply_fresh t index c)) = rt_sessions t"
  by (simp add: apply_fresh_def Let_def split: prod.split sum.split option.split)

lemma apply_fresh_result: "apply_fresh t index c = (t', Inr r) \<Longrightarrow> r = Some (rm_expected c)"
  by (auto simp: apply_fresh_def Let_def split: prod.splits sum.splits option.splits if_splits)

text \<open>The three ways a committed command can succeed.\<close>

lemma apply_command_cases:
  assumes "apply_command t index c = (t', Inr r)"
  obtains (anonymous) "ri_session (me_client (rm_envelope c)) = ANONYMOUS_SESSION"
      "ri_seq (me_client (rm_envelope c)) = 0" "apply_fresh t index c = (t', Inr r)"
  | (hit) q where "identified c (ri_session (me_client (rm_envelope c))) (ri_seq (me_client (rm_envelope c)))"
      "dedup_lookup t (ri_session (me_client (rm_envelope c))) (ri_seq (me_client (rm_envelope c)))
        (rm_ack_floor c) index = Inr (Some q)" "t' = t" "r = Some q"
  | (fresh) t1 q where "identified c (ri_session (me_client (rm_envelope c))) (ri_seq (me_client (rm_envelope c)))"
      "dedup_lookup t (ri_session (me_client (rm_envelope c))) (ri_seq (me_client (rm_envelope c)))
        (rm_ack_floor c) index = Inr None"
      "apply_fresh t index c = (t1, Inr (Some q))" "t' = install_outcome t1 index c q" "r = Some q"
  using assms
  by (auto simp: apply_command_def Let_def identified_def
      split: if_splits sum.splits option.splits prod.splits)

lemma dedup_lookup_SomeD:
  assumes "dedup_lookup t session seq ack index = Inr (Some r)"
  shows "remembers t session seq r"
  using assms
  by (auto simp: dedup_lookup_def remembers_def Let_def
      split: option.splits if_splits durable_outcome.splits)

lemma dedup_lookup_remembered:
  assumes "remembers t session seq r" "dedup_lookup t session seq ack index = Inr found"
  shows "found = Some r"
  using assms
  by (auto simp: dedup_lookup_def remembers_def Let_def le_max_iff_disj
      split: option.splits if_splits durable_outcome.splits)

lemma install_remembers:
  "identified c session seq \<Longrightarrow> remembers (install_outcome t index c r) session seq r"
  by (auto simp: install_outcome_def remembers_def identified_def Let_def)

lemma install_keeps:
  assumes "remembers t session seq r"
    and "\<not> identified c session seq \<or> ri_session (me_client (rm_envelope c)) \<noteq> session"
    and "identified c (ri_session (me_client (rm_envelope c))) (ri_seq (me_client (rm_envelope c)))"
  shows "remembers (install_outcome t index c q) session seq r"
  using assms
  by (auto simp: install_outcome_def remembers_def identified_def Let_def ss_outcomes_advance not_le
      split: option.splits)

lemma remembers_cong: "rt_sessions t' = rt_sessions t \<Longrightarrow> remembers t' session seq r = remembers t session seq r"
  by (simp add: remembers_def)

lemma remembers_update [simp]:
  "remembers (t\<lparr>rt_applied := a\<rparr>) session seq r = remembers t session seq r"
  "remembers (t\<lparr>rt_control := c\<rparr>) session seq r = remembers t session seq r"
  "remembers (t\<lparr>rt_membership := m\<rparr>) session seq r = remembers t session seq r"
  "remembers (t\<lparr>rt_store := s\<rparr>) session seq r = remembers t session seq r"
  by (simp_all add: remembers_def)

lemma apply_command_remembers:
  assumes "apply_command t index c = (t', Inr r)" "identified c session seq"
  shows "\<exists>q. r = Some q \<and> remembers t' session seq q"
  using assms(1)
proof (cases rule: apply_command_cases)
  case anonymous
  then show ?thesis using assms(2) by (auto simp: identified_def)
next
  case (hit q)
  then show ?thesis using assms(2) dedup_lookup_SomeD by (auto simp: identified_def)
next
  case (fresh t1 q)
  then show ?thesis using assms(2) by (simp add: install_remembers)
qed

lemma apply_command_keeps:
  assumes "apply_command t index c = (t', Inr r)" "remembers t session seq q"
  shows "remembers t' session seq q"
  using assms(1)
proof (cases rule: apply_command_cases)
  case anonymous
  then show ?thesis
    using apply_fresh_sessions [of t index c] remembers_cong [of t' t session seq q] assms(2) by simp
next
  case (hit q')
  then show ?thesis using assms(2) by simp
next
  case (fresh t1 q')
  have kept: "remembers t1 session seq q"
    using apply_fresh_sessions [of t index c] remembers_cong [of t1 t session seq q] fresh(3) assms(2)
    by simp
  have "\<not> identified c session seq"
    using fresh(2) dedup_lookup_remembered [OF assms(2)] by (fastforce simp: identified_def)
  then show ?thesis using kept fresh(1,4) by (simp add: install_keeps)
qed

lemma apply_envelope_keeps:
  assumes "apply_envelope t index command = (t', Inr r)" "remembers t session seq q"
  shows "remembers t' session seq q"
proof (cases command)
  case (CC_Tablet c)
  then show ?thesis
    using assms by (auto simp: apply_envelope_def split: if_splits dest: apply_command_keeps)
qed (use assms in \<open>auto simp: apply_envelope_def Let_def
  split: if_splits prod.splits sum.splits control_error.splits\<close>)

lemma apply_entry_keeps:
  assumes "apply_entry t log_id payload = (t', Inr r)" "remembers t session seq q"
  shows "remembers t' session seq q"
proof (cases payload)
  case (Normal command)
  then show ?thesis
    using assms
    by (auto simp: apply_entry_def split: prod.splits sum.splits dest: apply_envelope_keeps)
qed (use assms in \<open>auto simp: apply_entry_def\<close>)

lemma apply_batch_keeps:
  "apply_batch t entries = (t', Inr rs) \<Longrightarrow> remembers t session seq q \<Longrightarrow> remembers t' session seq q"
  by (induction t entries arbitrary: rs rule: apply_batch.induct)
    (auto split: prod.splits sum.splits dest: apply_entry_keeps)

section \<open>Effects happen at most once\<close>

lemma apply_tablet_entry:
  assumes "apply_entry t log_id (Normal (CC_Tablet c)) = (t', Inr r)"
  obtains t1 where "apply_command t (ap_index log_id) c = (t1, Inr r)" "t' = t1\<lparr>rt_applied := Some log_id\<rparr>"
  using assms by (auto simp: apply_entry_def apply_envelope_def split: if_splits prod.splits sum.splits)

lemma apply_batch_append:
  "apply_batch t (xs @ ys) =
    (case apply_batch t xs of
       (t', Inl fault) \<Rightarrow> (t', Inl fault)
     | (t', Inr rs) \<Rightarrow>
         (case apply_batch t' ys of
            (t'', Inl fault) \<Rightarrow> (t'', Inl fault)
          | (t'', Inr rs') \<Rightarrow> (t'', Inr (rs @ rs'))))"
  by (induction t xs rule: apply_batch.induct) (auto split: prod.splits sum.splits)

lemma apply_batch_length: "apply_batch t entries = (t', Inr rs) \<Longrightarrow> length rs = length entries"
  by (induction t entries arbitrary: rs rule: apply_batch.induct) (auto split: prod.splits sum.splits)

lemma retry_is_noop:
  assumes "remembers t session seq q" "identified c session seq"
    and "apply_entry t log_id (Normal (CC_Tablet c)) = (t', Inr r)"
  shows "r = Some q \<and> t' = t\<lparr>rt_applied := Some log_id\<rparr>"
proof -
  obtain t1 where t1: "apply_command t (ap_index log_id) c = (t1, Inr r)" "t' = t1\<lparr>rt_applied := Some log_id\<rparr>"
    using apply_tablet_entry [OF assms(3)] .
  from t1(1) show ?thesis
  proof (cases rule: apply_command_cases)
    case anonymous
    then show ?thesis using assms(2) by (auto simp: identified_def)
  next
    case (hit q')
    then show ?thesis
      using dedup_lookup_remembered [OF assms(1)] assms(2) t1(2) by (fastforce simp: identified_def)
  next
    case (fresh t2 q')
    then show ?thesis
      using dedup_lookup_remembered [OF assms(1)] assms(2) by (fastforce simp: identified_def)
  qed
qed

text \<open>
  C1: Exactly once.  Let a command of an identified client be applied somewhere in the log.  Whatever
  entries follow, a later entry with the same session and sequence number that is applied reports
  the outcome of the first one, and changes neither the data nor the sessions nor the control image:
  only the applied pointer moves.
\<close>

theorem committed_effects_happen_once:
  assumes "apply_batch t (xs @ (l, Normal (CC_Tablet c)) # ys) = (t', Inr rs)"
    and "identified c session seq" "identified c' session seq"
    and "apply_entry t' l' (Normal (CC_Tablet c')) = (t'', Inr r)"
  shows "r = rs ! length xs \<and> r \<noteq> None \<and> t'' = t'\<lparr>rt_applied := Some l'\<rparr>"
proof -
  obtain t1 rs1 where xs: "apply_batch t xs = (t1, Inr rs1)"
    using assms(1) by (auto simp: apply_batch_append split: prod.splits sum.splits)
  obtain t2 r2 rs2 where c: "apply_entry t1 l (Normal (CC_Tablet c)) = (t2, Inr r2)"
      and ys: "apply_batch t2 ys = (t', Inr rs2)" and rs: "rs = rs1 @ r2 # rs2"
    using assms(1) by (auto simp: apply_batch_append xs split: prod.splits sum.splits)
  obtain t3 where t3: "apply_command t1 (ap_index l) c = (t3, Inr r2)" "t2 = t3\<lparr>rt_applied := Some l\<rparr>"
    using apply_tablet_entry [OF c] .
  obtain q where q: "r2 = Some q" "remembers t2 session seq q"
    using apply_command_remembers [OF t3(1) assms(2)] t3(2) by auto
  have "remembers t' session seq q" using apply_batch_keeps [OF ys q(2)] .
  then have "r = Some q \<and> t'' = t'\<lparr>rt_applied := Some l'\<rparr>" using retry_is_noop assms(3,4) by blast
  then show ?thesis using q(1) rs apply_batch_length [OF xs] by (simp add: nth_append)
qed

section \<open>Reachable tablets\<close>

text \<open>
  The entry points that change a tablet: committed entries (also faulting ones), the copy of another
  tablet's state, draining of reservations and the index switch.
\<close>

inductive tablet_run :: "'mem replicated_tablet \<Rightarrow> bool" where
  tablet_run_new: "tablet_run (tablet_new members namespace tablet authority)"
| tablet_run_entry: "tablet_run t \<Longrightarrow> tablet_run (fst (apply_entry t log_id payload))"
| tablet_run_copy: "tablet_run t \<Longrightarrow> tablet_run parent \<Longrightarrow>
    tablet_run (install_topology_copy t (export_topology_copy parent))"
| tablet_run_drain: "tablet_run t \<Longrightarrow> tablet_run (fst (drain_intents t))"
| tablet_run_indexing: "tablet_run t \<Longrightarrow>
    tablet_run (t\<lparr>rt_store := set_ordered_indexing (rt_store t) enabled\<rparr>)"

definition session_ok :: "session_state \<Rightarrow> bool" where
  "session_ok st \<longleftrightarrow> bt_wf (ss_outcomes st) \<and> retained_after st (ss_floor st) \<le> SESSION_OUTCOME_CAP \<and>
    (\<forall>q ro. bt_get (ss_outcomes st) q = Some ro \<longrightarrow> (\<exists>r. ro_outcome ro = D_Completed r))"

definition tablet_inv :: "'mem replicated_tablet \<Rightarrow> bool" where
  "tablet_inv t \<longleftrightarrow> store_inv (rt_store t) \<and> bt_wf (rt_sessions t) \<and>
    (\<forall>session st. bt_get (rt_sessions t) session = Some st \<longrightarrow> session_ok st)"

lemma session_ok_default: "session_ok session_default"
  by (simp add: session_ok_def session_default_def retained_after_def bt_keys_def bt_get_def)

lemma retained_after_insert:
  "length (filter (\<lambda>q. fl < q) (bt_keys (bt_insert k v m))) \<le>
    Suc (length (filter (\<lambda>q. fl < q) (bt_keys m)))"
  by (induction m) (auto simp: bt_keys_def)

lemma retained_after_advance:
  "retained_after (advance_floor st ack) (max (ss_floor st) ack) = retained_after st (max (ss_floor st) ack)"
  by (auto simp: retained_after_def advance_floor_def bt_keys_def filter_map comp_def max_def
      intro: arg_cong [of _ _ length] filter_cong)

lemma session_ok_install:
  assumes ok: "session_ok st" and room: "retained_after st (max (ss_floor st) ack) < SESSION_OUTCOME_CAP"
    and r: "ro_outcome ro = D_Completed r"
  shows "session_ok ((advance_floor st ack)\<lparr>ss_outcomes := bt_insert q ro (ss_outcomes (advance_floor st ack))\<rparr>)"
proof -
  let ?st = "advance_floor st ack"
  have wf: "bt_wf (ss_outcomes ?st)"
    using ok by (simp add: session_ok_def advance_floor_def bt_wf_filter)
  have "length (filter (\<lambda>q. max (ss_floor st) ack < q) (bt_keys (bt_insert q ro (ss_outcomes ?st))))
      \<le> Suc (retained_after ?st (max (ss_floor st) ack))"
    unfolding retained_after_def by (rule retained_after_insert)
  then have "length (filter (\<lambda>q. max (ss_floor st) ack < q) (bt_keys (bt_insert q ro (ss_outcomes ?st))))
      \<le> SESSION_OUTCOME_CAP"
    using room by (simp only: retained_after_advance)
  then show ?thesis
    using wf r ok
    by (auto simp: session_ok_def retained_after_def ss_outcomes_advance split: if_splits)
qed

lemma tablet_inv_cong:
  "rt_store t' = rt_store t \<Longrightarrow> rt_sessions t' = rt_sessions t \<Longrightarrow> tablet_inv t' = tablet_inv t"
  by (simp add: tablet_inv_def)

lemma tablet_inv_update [simp]:
  "tablet_inv (t\<lparr>rt_applied := a\<rparr>) = tablet_inv t"
  "tablet_inv (t\<lparr>rt_control := c\<rparr>) = tablet_inv t"
  "tablet_inv (t\<lparr>rt_membership := m\<rparr>) = tablet_inv t"
  by (simp_all add: tablet_inv_def)

lemma tablet_inv_fresh: "tablet_inv t \<Longrightarrow> tablet_inv (fst (apply_fresh t index c))"
  using store_inv_apply_mutation [of "rt_store t" "me_operation (rm_envelope c)" "rm_now c"]
  by (auto simp: apply_fresh_def tablet_inv_def Let_def split: prod.splits sum.splits option.splits)

lemma tablet_inv_install:
  assumes inv: "tablet_inv t" and lookup: "dedup_lookup t (ri_session (me_client (rm_envelope c)))
      (ri_seq (me_client (rm_envelope c))) (rm_ack_floor c) index = Inr None"
  shows "tablet_inv (install_outcome t index c r)"
proof -
  let ?session = "ri_session (me_client (rm_envelope c))"
  define st where "st = (case bt_get (rt_sessions t) ?session of None \<Rightarrow> session_default | Some st \<Rightarrow> st)"
  have "session_ok st"
    using inv session_ok_default by (auto simp: st_def tablet_inv_def split: option.splits)
  moreover have "retained_after st (max (ss_floor st) (rm_ack_floor c)) < SESSION_OUTCOME_CAP"
    using lookup
    by (auto simp: dedup_lookup_def st_def Let_def not_le session_default_def retained_after_def
        bt_keys_def SESSION_OUTCOME_CAP_def split: option.splits if_splits durable_outcome.splits)
  ultimately show ?thesis
    using inv session_ok_install by (auto simp: install_outcome_def tablet_inv_def Let_def st_def [symmetric])
qed

lemma dedup_lookup_cong: "rt_sessions t' = rt_sessions t \<Longrightarrow> dedup_lookup t' = dedup_lookup t"
  by (auto simp: dedup_lookup_def fun_eq_iff)

lemma check_proposal_cong: "rt_sessions t' = rt_sessions t \<Longrightarrow> check_proposal t' session seq ack = check_proposal t session seq ack"
  by (simp add: check_proposal_def)

lemma tablet_inv_command:
  assumes inv: "tablet_inv t"
  shows "tablet_inv (fst (apply_command t index c))"
proof -
  obtain t1 r1 where fresh: "apply_fresh t index c = (t1, r1)" by fastforce
  have inv1: "tablet_inv t1" using tablet_inv_fresh [OF inv, of index c] by (simp add: fresh)
  have "dedup_lookup t1 = dedup_lookup t"
    using apply_fresh_sessions [of t index c] by (intro dedup_lookup_cong) (simp add: fresh)
  then show ?thesis
    using inv inv1 tablet_inv_install [OF inv1, of c index]
    by (auto simp: apply_command_def Let_def fresh split: sum.splits option.splits)
qed

lemma tablet_inv_entry: "tablet_inv t \<Longrightarrow> tablet_inv (fst (apply_entry t log_id payload))"
  using tablet_inv_command [of t "ap_index log_id"]
  by (auto simp: apply_entry_def apply_envelope_def Let_def
      split: entry_payload.splits consensus_command.splits prod.splits sum.splits control_error.splits)
    (metis fst_conv)+

lemma installed_sessions:
  "bt_wf (rt_sessions parent) \<Longrightarrow>
   rt_sessions (install_topology_copy t (export_topology_copy parent)) = rt_sessions parent"
proof -
  assume "bt_wf (rt_sessions parent)"
  moreover have "\<lparr>ss_floor = ss_floor st, ss_outcomes = ss_outcomes st\<rparr> = st" for st :: session_state
    by simp
  ultimately show ?thesis
    by (simp only: install_topology_copy_def export_topology_copy_def foldl_map split_def Let_def fst_conv
        snd_conv bt_rebuild) simp
qed

lemma get_foldl_remove:
  "get_stored (foldl (\<lambda>s e. remove_stored s (fst e)) s es) k =
    (if k \<in> fst ` set es then None else get_stored s k)"
  by (induction es arbitrary: s) (auto simp: get_stored_def remove_stored_def note_removed_def)

lemma get_foldl_put:
  "distinct (map fst es) \<Longrightarrow>
   get_stored (foldl (\<lambda>s e. put_stored s (fst e) (snd e)) s es) k =
     (case bt_get es k of Some v \<Rightarrow> Some v | None \<Rightarrow> get_stored s k)"
proof (induction es arbitrary: s)
  case (Cons e es)
  then have "bt_get es (fst e) = None" by (simp add: bt_get_None_iff)
  moreover have "get_stored (put_stored s (fst e) (snd e)) k = (if k = fst e then Some (snd e) else get_stored s k)" for k
    by (simp add: get_stored_def put_stored_def note_stored_def insert_object_def)
  ultimately show ?case using Cons by (simp add: bt_get_Cons split: option.split)
qed (simp add: bt_get_def)

lemma store_inv_foldl_remove: "store_inv s \<Longrightarrow> store_inv (foldl (\<lambda>s e. remove_stored s (fst e)) s es)"
  by (induction es arbitrary: s) (simp_all add: store_inv_remove_stored)

lemma store_inv_foldl_put:
  "store_inv s \<Longrightarrow> \<forall>e \<in> set es. object_wf (snd e) \<Longrightarrow>
   store_inv (foldl (\<lambda>s e. put_stored s (fst e) (snd e)) s es)"
  by (induction es arbitrary: s) (simp_all add: store_inv_put_stored)

lemma store_inv_objects_wf: "store_inv s \<Longrightarrow> e \<in> set (objects s) \<Longrightarrow> object_wf (snd e)"
  by (auto simp: store_inv_def list_all_iff)

lemma installed_objects:
  assumes "store_inv (rt_store t)" "store_inv (rt_store parent)"
  shows "get_stored (rt_store (install_topology_copy t (export_topology_copy parent))) k =
      get_stored (rt_store parent) k"
    and "store_inv (rt_store (install_topology_copy t (export_topology_copy parent)))"
proof -
  have "bt_wf (objects (rt_store parent))" using assms(2) by (simp add: store_inv_def)
  then show "get_stored (rt_store (install_topology_copy t (export_topology_copy parent))) k =
      get_stored (rt_store parent) k"
    by (simp add: install_topology_copy_def export_topology_copy_def get_foldl_put get_foldl_remove
        bt_wf_distinct get_stored_def [of "rt_store _"] bt_get_None_iff [symmetric] split: option.split)
  show "store_inv (rt_store (install_topology_copy t (export_topology_copy parent)))"
    using assms store_inv_objects_wf
    by (simp add: install_topology_copy_def export_topology_copy_def store_inv_foldl_put
        store_inv_foldl_remove)
qed

lemma tablet_inv_copy:
  "tablet_inv t \<Longrightarrow> tablet_inv parent \<Longrightarrow> tablet_inv (install_topology_copy t (export_topology_copy parent))"
  using installed_objects(2) [of t parent] installed_sessions [of parent t] by (simp add: tablet_inv_def)

lemma store_inv_remove_intent: "store_inv s \<Longrightarrow> store_inv (s\<lparr>intents := bt_remove k (intents s)\<rparr>)"
  by (rule store_inv_intents) (auto simp: store_inv_def bt_remove_def list_all_iff bt_wf_filter)

lemma store_inv_drain:
  "store_inv s \<Longrightarrow> store_inv (foldl (\<lambda>s i. s\<lparr>intents := bt_remove (in_key i) (intents s)\<rparr>) s is)"
  by (induction "is" arbitrary: s) (simp_all add: store_inv_remove_intent)

lemma tablet_run_inv: "tablet_run t \<Longrightarrow> tablet_inv t"
proof (induction rule: tablet_run.induct)
  case (tablet_run_new members namespace tablet authority)
  then show ?case
    using store_run_inv [OF run_new] by (simp add: tablet_inv_def tablet_new_def bt_get_def)
next
  case (tablet_run_entry t log_id payload)
  then show ?case by (simp add: tablet_inv_entry)
next
  case (tablet_run_copy t parent)
  then show ?case by (simp add: tablet_inv_copy)
next
  case (tablet_run_drain t)
  then show ?case by (simp add: drain_intents_def tablet_inv_def store_inv_drain Let_def)
next
  case (tablet_run_indexing t enabled)
  then show ?case by (simp add: tablet_inv_def store_inv_indexing)
qed

section \<open>The leader's gate\<close>

text \<open>
  C29: On every reachable tablet the leader's gate and the deduplication at apply time agree case by
  case, retained outcomes never look corrupt, and a session retains at most 1024 outcomes above its
  acknowledgement floor.
\<close>

theorem gate_agrees_with_apply:
  assumes "tablet_run t"
  shows "(case check_proposal t session seq ack of
       Inr Gate_Admit \<Rightarrow> dedup_lookup t session seq ack index = Inr None
     | Inr (Gate_Hit r) \<Rightarrow> dedup_lookup t session seq ack index = Inr (Some r)
     | Inr Gate_Expired \<Rightarrow>
         (case dedup_lookup t session seq ack index of Inl (F_ExpiredIdentity _ _ _ _) \<Rightarrow> True | _ \<Rightarrow> False)
     | Inr Gate_Overloaded \<Rightarrow> dedup_lookup t session seq ack index = Inl (F_SessionOverloaded session index)
     | Inl _ \<Rightarrow> False) \<and>
    (case bt_get (rt_sessions t) session of
       None \<Rightarrow> True | Some st \<Rightarrow> retained_after st (ss_floor st) \<le> 1024)"
proof -
  have ok: "bt_get (rt_sessions t) session = Some st \<Longrightarrow> session_ok st" for st
    using tablet_run_inv [OF assms] by (simp add: tablet_inv_def)
  then have "case check_proposal t session seq ack of
       Inr Gate_Admit \<Rightarrow> dedup_lookup t session seq ack index = Inr None
     | Inr (Gate_Hit r) \<Rightarrow> dedup_lookup t session seq ack index = Inr (Some r)
     | Inr Gate_Expired \<Rightarrow>
         (case dedup_lookup t session seq ack index of Inl (F_ExpiredIdentity _ _ _ _) \<Rightarrow> True | _ \<Rightarrow> False)
     | Inr Gate_Overloaded \<Rightarrow> dedup_lookup t session seq ack index = Inl (F_SessionOverloaded session index)
     | Inl _ \<Rightarrow> False"
    by (fastforce simp: check_proposal_def dedup_lookup_def Let_def session_ok_def
        split: option.splits durable_outcome.splits if_splits)
  then show ?thesis using ok by (auto simp: session_ok_def SESSION_OUTCOME_CAP_def split: option.splits)
qed

section \<open>Admitted proposals\<close>

lemma persist_expiry_agrees:
  "prepare_plain s op now = Inr (P_Write m) \<Longrightarrow> is_mutating op \<Longrightarrow> is_persist_expiry m = is_persist op"
  by (cases op)
    (auto simp: prepare_arm_defs is_mutating_def is_persist_expiry_def is_persist_def expiry_NEVER_def Let_def result_simps
      prepare_txn_reserve_def prepare_txn_commit_local_def
      split: option.splits logical_value.splits if_splits prod.splits sum.splits local_commit_error.splits)

lemma announced_write:
  assumes "prepare_durable s op now = Inr (SP_Write m e)"
  shows "is_mutating op" "prepare_plain s op now = Inr (P_Write m)"
proof -
  have plain: "durable_plain s op now = Inr (SP_Write m e)" and free: "\<not> op_blocked s op"
    using assms by (auto simp: prepare_durable_def split: if_splits)
  show "is_mutating op"
    using plain durable_read_no_write [of op s now m e]
    by (cases op) (auto simp: durable_plain_def is_mutating_def)
  show "prepare_plain s op now = Inr (P_Write m)"
    using prepare_agrees [OF assms] free by (simp add: prepare_def)
qed

lemma announced_fresh:
  assumes "tablet_inv t" "prepare_operation t op now = Inr (SP_Write m expected)"
    and "predictable (rt_store t) op now"
    and "me_operation (rm_envelope c) = m" "rm_expected c = expected" "rm_now c = now"
  shows "\<exists>s'. apply_fresh t index c = (t\<lparr>rt_store := s'\<rparr>, Inr (Some expected))"
proof -
  have announced: "prepare_durable (rt_store t) op now = Inr (SP_Write m expected)"
    using assms(2) by (simp add: prepare_operation_def)
  then obtain s' out where "apply_mutation (rt_store t) m now = (s', Inr out)"
      "outcome_for m out (is_persist op) = Some expected"
    using prediction_applies assms(1,3) by (metis tablet_inv_def)
  moreover have "is_persist_expiry m = is_persist op"
    using announced_write [OF announced] persist_expiry_agrees by blast
  ultimately show ?thesis using assms(4-6) by (auto simp: apply_fresh_def)
qed

lemma proposed_command_fields [simp]:
  "me_operation (rm_envelope (proposed_command t identity idempotency now m expected)) = m"
  "rm_expected (proposed_command t identity idempotency now m expected) = expected"
  "rm_now (proposed_command t identity idempotency now m expected) = now"
  "me_namespace (rm_envelope (proposed_command t identity idempotency now m expected)) = rt_namespace t"
  "me_tablet (rm_envelope (proposed_command t identity idempotency now m expected)) = auth_tablet (rt_authority t)"
  "envelope_authority (rm_envelope (proposed_command t identity idempotency now m expected)) = rt_authority t"
  by (simp_all add: proposed_command_def envelope_new_def envelope_authority_def)

lemma proposed_command_identity [simp]:
  "me_client (rm_envelope (proposed_command t (Some (client, ack)) idempotency now m expected)) = client"
  "rm_ack_floor (proposed_command t (Some (client, ack)) idempotency now m expected) = ack"
  by (simp_all add: proposed_command_def envelope_new_def)

lemma propose_command_cases:
  assumes "propose_caller_side t fenced op (Some (client, ack)) idempotency now = PO_Command c"
  obtains m expected where "check_proposal t (ri_session client) (ri_seq client) ack = Inr Gate_Admit"
    "prepare_operation t op now = Inr (SP_Write m expected)"
    "c = proposed_command t (Some (client, ack)) idempotency now m expected"
  using assms
  by (auto simp: propose_caller_side_def propose_prepared_def
      split: sum.splits proposal_gate.splits if_splits store_prepared.splits)

lemma gate_admit_fresh:
  "check_proposal t session seq ack = Inr Gate_Admit \<Longrightarrow> dedup_lookup t session seq ack index = Inr None"
  by (auto simp: check_proposal_def dedup_lookup_def Let_def
      split: option.splits if_splits durable_outcome.splits)

lemma installed_gate:
  assumes "ack < ri_seq client" "me_client (rm_envelope c) = client" "rm_ack_floor c = ack"
    and "dedup_lookup t (ri_session client) (ri_seq client) ack index = Inr None"
  shows "check_proposal (install_outcome t index c r) (ri_session client) (ri_seq client) ack = Inr (Gate_Hit r)"
  using assms
  by (auto simp: check_proposal_def install_outcome_def dedup_lookup_def Let_def session_default_def
      split: option.splits if_splits durable_outcome.splits)


section \<open>Copies\<close>

text \<open>
  C30: The state a split or merge copies survives the copy.  A reachable tablet that installs the copy
  another reachable tablet exported answers reads and duplicate requests as the exporting tablet did: the
  same stored object under every key, the same verdict of the leader's gate for every session, sequence
  number and acknowledgement, whatever it held before; exporting it again gives the same sessions.
\<close>

theorem topology_copy_keeps_data_and_dedup:
  assumes "tablet_run t" "tablet_run parent"
  shows "let child = install_topology_copy t (export_topology_copy parent) in
    get_stored (rt_store child) k = get_stored (rt_store parent) k \<and>
    check_proposal child session seq ack = check_proposal parent session seq ack \<and>
    dedup_lookup child session seq ack index = dedup_lookup parent session seq ack index \<and>
    snd (export_topology_copy child) = snd (export_topology_copy parent)"
proof -
  let ?child = "install_topology_copy t (export_topology_copy parent)"
  note inv = tablet_run_inv [OF assms(1)] tablet_run_inv [OF assms(2)]
  have sessions: "rt_sessions ?child = rt_sessions parent"
    using inv(2) by (intro installed_sessions) (simp add: tablet_inv_def)
  then have "snd (export_topology_copy ?child) = snd (export_topology_copy parent)"
    by (simp add: export_topology_copy_def [of ?child] export_topology_copy_def [of parent, THEN arg_cong [of _ _ snd]])
  then show ?thesis
    using installed_objects(1) [of t parent k] inv dedup_lookup_cong [OF sessions] check_proposal_cong [OF sessions]
    by (simp add: tablet_inv_def)
qed

section \<open>Witnesses and a counterexample\<close>

definition sample_tablet :: "unit replicated_tablet" where
  "sample_tablet = tablet_new () 1 7 \<lparr>auth_tablet = 7, auth_epoch = 1, auth_guard = 1\<rparr>"

definition sample_request :: "session_id \<Rightarrow> (request_identity \<times> request_seq) option" where
  "sample_request session = Some (\<lparr>ri_session = session, ri_seq = 1\<rparr>, 0)"

definition sample_command :: "session_id \<Rightarrow> replicated_mutation" where
  "sample_command session =
    proposed_command sample_tablet (sample_request session) None 5 (M_CounterAdd [1] 1) (R_CounterUpdated 1 1)"

definition sample_pointer :: "u64 \<Rightarrow> applied_pointer" where
  "sample_pointer index = \<lparr>ap_term = 1, ap_leader = 1, ap_index = index\<rparr>"

lemma sample_tablet_run: "tablet_run sample_tablet"
  unfolding sample_tablet_def by (rule tablet_run_new)

lemmas tablet_eval = sample_tablet_def sample_request_def sample_command_def sample_pointer_def
  tablet_new_def tablet_is_control_def CONTROL_TABLET_RAW_def ANONYMOUS_SESSION_def proposed_command_def
  envelope_new_def envelope_authority_def check_against_def apply_entry_def apply_envelope_def
  apply_command_def apply_fresh_def dedup_lookup_def outcome_for_def is_persist_expiry_def
  outcome_for_semantic_def Let_def store_eval arm_eval arith_defs

text \<open>The sample tablet after the first command.\<close>

definition sample_applied :: "unit replicated_tablet" where
  "sample_applied = fst (apply_entry sample_tablet (sample_pointer 1) (Normal (CC_Tablet (sample_command 5))))"

lemma sample_proposed:
  "propose_caller_side sample_tablet False (O_CounterAdd [1] 1) (sample_request session) None 5 =
    PO_Command (sample_command session)"
  by (simp add: propose_caller_side_def propose_prepared_def prepare_operation_def check_proposal_def
      prepare_eval predict_counter_add_def tablet_eval)

lemma sample_step:
  "apply_entry sample_tablet (sample_pointer 1) (Normal (CC_Tablet (sample_command 5))) =
    (sample_applied, Inr (Some (R_CounterUpdated 1 1)))"
  unfolding sample_applied_def by (simp add: tablet_eval)


lemma sample_applied_run: "tablet_run sample_applied"
  unfolding sample_applied_def by (intro tablet_run_entry sample_tablet_run)


theorem committed_effects_happen_once_witness:
  "apply_entry sample_applied (sample_pointer 4) (Normal (CC_Tablet (sample_command 5))) =
    (sample_applied\<lparr>rt_applied := Some (sample_pointer 4)\<rparr>, Inr (Some (R_CounterUpdated 1 1)))"
proof -
  have "identified (sample_command 5) 5 1" by (simp add: identified_def tablet_eval)
  moreover obtain t'' where retry: "apply_entry sample_applied (sample_pointer 4) (Normal (CC_Tablet (sample_command 5))) =
      (t'', Inr (Some (R_CounterUpdated 1 1)))"
    by (simp add: tablet_eval sample_applied_def install_outcome_def session_default_def advance_floor_def)
  ultimately show ?thesis
    using committed_effects_happen_once [of sample_tablet "[]" "sample_pointer 1" "sample_command 5" "[]"
        sample_applied "[Some (R_CounterUpdated 1 1)]" 5 1 "sample_command 5" "sample_pointer 4" t'']
    by (simp add: sample_step)
qed

theorem gate_agrees_with_apply_witness:
  "check_proposal sample_applied 5 1 0 = Inr (Gate_Hit (R_CounterUpdated 1 1)) \<and>
   dedup_lookup sample_applied 5 1 0 9 = Inr (Some (R_CounterUpdated 1 1)) \<and>
   check_proposal sample_applied 5 1 1 = Inr Gate_Expired \<and>
   check_proposal sample_applied 5 2 1 = Inr Gate_Admit \<and> dedup_lookup sample_applied 5 2 1 9 = Inr None"
proof -
  have "check_proposal sample_applied 5 1 0 = Inr (Gate_Hit (R_CounterUpdated 1 1))"
    "check_proposal sample_applied 5 1 1 = Inr Gate_Expired" "check_proposal sample_applied 5 2 1 = Inr Gate_Admit"
    by (simp_all add: check_proposal_def tablet_eval sample_applied_def install_outcome_def
        session_default_def advance_floor_def retained_after_def SESSION_OUTCOME_CAP_def word_le_nat_alt)
  then show ?thesis
    using gate_agrees_with_apply [OF sample_applied_run, of 5 1 0 9] gate_agrees_with_apply [OF sample_applied_run, of 5 2 1 9]
    by simp
qed

theorem topology_copy_keeps_data_and_dedup_witness:
  "let child = install_topology_copy sample_tablet (export_topology_copy sample_applied) in
    get_stored (rt_store child) [1] = get_stored (rt_store sample_applied) [1] \<and>
    get_stored (rt_store sample_applied) [1] \<noteq> None \<and>
    check_proposal child 5 1 0 = check_proposal sample_applied 5 1 0"
proof -
  have "get_stored (rt_store sample_applied) [1] \<noteq> None"
    by (simp add: tablet_eval sample_applied_def install_outcome_def)
  then show ?thesis
    using topology_copy_keeps_data_and_dedup [OF sample_tablet_run sample_applied_run, of "[1]" 5 1 0]
    by (simp add: Let_def)
qed

end
