(* ===== verification/Object_Codec.thy ===== *)
theory Object_Codec
  imports Codec_Rules Objects
begin

text \<open>
  The byte codecs of the object model (\<open>crates/kivi-state/src/object.rs\<close>): chunk and fabric references,
  escrow shares, bounded counters, permits, semaphores, leases and stream shards.  Every part is
  a \<open>codec\<close>; the decoders of semaphores and streams also reject what the encoders never write:
  too many entries, a repeated permit, offsets that do not grow.
\<close>

declare enc_seq.simps [simp del]

section \<open>References, shares and permits\<close>

definition encode_chunked_ref :: "chunked_ref \<Rightarrow> bytes option" where
  "encode_chunked_ref r = enc_seq [Some (cr_manifest r), Some (encode_u64 (cr_logical_len r))]"

definition decode_chunked_ref :: "chunked_ref decoder" where
  "decode_chunked_ref = (\<lambda>input.
    dec_next (decode_chunk 32) input 0 (\<lambda>raw at.
    dec_next decode_u64 input at (\<lambda>logical_len at.
      Inr (\<lparr>cr_manifest = raw, cr_logical_len = logical_len\<rparr>, at))))"

definition encode_fabric_ref :: "fabric_ref \<Rightarrow> bytes option" where
  "encode_fabric_ref r =
    enc_seq [Some (encode_u64 (fr_id r)), Some (encode_u64 (fr_logical_len r)), Some (encode_u64 (fr_version r))]"

definition decode_fabric_ref :: "fabric_ref decoder" where
  "decode_fabric_ref = (\<lambda>input.
    dec_next decode_u64 input 0 (\<lambda>i at.
    dec_next decode_u64 input at (\<lambda>logical_len at.
    dec_next decode_u64 input at (\<lambda>version at.
      Inr (\<lparr>fr_id = i, fr_logical_len = logical_len, fr_version = version\<rparr>, at)))))"

definition encode_escrow_share :: "escrow_share \<Rightarrow> bytes option" where
  "encode_escrow_share s =
    enc_seq [Some (encode_u64 (es_holder s)), Some (encode_i64 (es_min s)), Some (encode_i64 (es_max s))]"

definition decode_escrow_share :: "escrow_share decoder" where
  "decode_escrow_share = (\<lambda>input.
    dec_next decode_u64 input 0 (\<lambda>holder at.
    dec_next decode_i64 input at (\<lambda>lo at.
    dec_next decode_i64 input at (\<lambda>hi at.
      Inr (\<lparr>es_holder = holder, es_min = lo, es_max = hi\<rparr>, at)))))"

definition encode_bounded :: "bounded_counter_state \<Rightarrow> bytes option" where
  "encode_bounded st =
    enc_seq [Some (encode_i64 (bc_value st)), Some (encode_u64 (bc_capacity st)), encode_escrow_share (bc_share st)]"

definition decode_bounded :: "bounded_counter_state decoder" where
  "decode_bounded = (\<lambda>input.
    dec_next decode_i64 input 0 (\<lambda>v at.
    dec_next decode_u64 input at (\<lambda>capacity at.
    dec_next decode_escrow_share input at (\<lambda>share at.
      Inr (\<lparr>bc_value = v, bc_capacity = capacity, bc_share = share\<rparr>, at)))))"

definition encode_permit :: "permit_record \<Rightarrow> bytes option" where
  "encode_permit p = enc_seq [Some (encode_u64 (pr_owner p)), Some (encode_u64 (pr_qty p))]"

definition decode_permit :: "permit_record decoder" where
  "decode_permit = (\<lambda>input.
    dec_next decode_u64 input 0 (\<lambda>owner at.
    dec_next decode_u64 input at (\<lambda>qty at.
      Inr (\<lparr>pr_owner = owner, pr_qty = qty\<rparr>, at))))"

section \<open>Semaphores\<close>

definition encode_semaphore :: "semaphore_state \<Rightarrow> bytes option" where
  "encode_semaphore st =
    enc_seq ([Some (encode_u64 (sem_capacity st)), Some (encode_u32 (len_u32 (length (sem_permits st))))]
      @ concat (map (\<lambda>(i, p). [Some i, encode_permit p]) (sem_permits st)))"

fun decode_permits ::
  "nat \<Rightarrow> (permit_id, permit_record) bmap \<Rightarrow> bytes \<Rightarrow> nat \<Rightarrow>
   ((permit_id, permit_record) bmap \<Rightarrow> nat \<Rightarrow> codec_error + 'b) \<Rightarrow> codec_error + 'b" where
  "decode_permits 0 permits input at k = k permits at"
| "decode_permits (Suc n) permits input at k =
    dec_next (decode_chunk 16) input at (\<lambda>i at.
    dec_next decode_permit input at (\<lambda>p at.
      if bt_get permits i \<noteq> None then Inl (InvalidTag ''semaphore-permit-id'' 0xFD)
      else decode_permits n (bt_insert i p permits) input at k))"

definition decode_semaphore :: "semaphore_state decoder" where
  "decode_semaphore = (\<lambda>input.
    dec_next decode_u64 input 0 (\<lambda>capacity at.
    dec_next decode_u32 input at (\<lambda>count at.
      if MAX_SEMAPHORE_PERMITS < unat count then Inl (InvalidTag ''semaphore-permits'' 0xFE)
      else decode_permits (unat count) [] input at (\<lambda>permits at.
        Inr (\<lparr>sem_capacity = capacity, sem_permits = permits\<rparr>, at)))))"

section \<open>Leases\<close>

definition encode_lease_holder :: "lease_holder \<Rightarrow> bytes option" where
  "encode_lease_holder h =
    enc_seq [Some (encode_u64 (lh_owner h)), Some (encode_u64 (lh_fencing h)), Some (encode_i64 (lh_expires_at h))]"

definition decode_lease_holder :: "lease_holder decoder" where
  "decode_lease_holder = (\<lambda>input.
    dec_next decode_u64 input 0 (\<lambda>owner at.
    dec_next decode_u64 input at (\<lambda>fencing at.
    dec_next decode_i64 input at (\<lambda>expires_at at.
      Inr (\<lparr>lh_owner = owner, lh_fencing = fencing, lh_expires_at = expires_at\<rparr>, at)))))"

definition encode_lease :: "lease_state \<Rightarrow> bytes option" where
  "encode_lease st =
    enc_seq ((case ls_holder st of None \<Rightarrow> [Some [0]] | Some h \<Rightarrow> [Some [1], encode_lease_holder h])
      @ [Some (encode_u64 (ls_next_fencing st))])"

definition decode_lease :: "lease_state decoder" where
  "decode_lease = (\<lambda>input.
    dec_next decode_u8 input 0 (\<lambda>tag at.
      if tag = 0 then
        dec_next decode_u64 input at (\<lambda>next at. Inr (\<lparr>ls_holder = None, ls_next_fencing = next\<rparr>, at))
      else if tag = 1 then
        dec_next decode_lease_holder input at (\<lambda>h at.
        dec_next decode_u64 input at (\<lambda>next at. Inr (\<lparr>ls_holder = Some h, ls_next_fencing = next\<rparr>, at)))
      else Inl (InvalidTag ''lease-holder'' tag)))"

section \<open>Streams\<close>

definition encode_stream_entry :: "stream_entry \<Rightarrow> bytes option" where
  "encode_stream_entry e =
    enc_seq [Some (encode_u64 (se_offset e)), encode_bytes (se_partition e), encode_bytes (se_payload e)]"

definition decode_stream_entry :: "stream_entry decoder" where
  "decode_stream_entry = (\<lambda>input.
    dec_next decode_u64 input 0 (\<lambda>offset at.
    dec_next decode_byte_vec input at (\<lambda>part at.
    dec_next decode_byte_vec input at (\<lambda>payload at.
      Inr (\<lparr>se_offset = offset, se_partition = part, se_payload = payload\<rparr>, at)))))"

definition encode_stream :: "stream_shard_state \<Rightarrow> bytes option" where
  "encode_stream st =
    enc_seq ([Some (ss_stream st), Some (encode_u32 (ss_shard st)), Some (encode_u64 (ss_next_offset st)),
        Some (encode_u32 (len_u32 (length (ss_entries st))))]
      @ map encode_stream_entry (ss_entries st))"

fun decode_stream_entries ::
  "nat \<Rightarrow> u64 option \<Rightarrow> bytes \<Rightarrow> nat \<Rightarrow> (stream_entry list \<Rightarrow> nat \<Rightarrow> codec_error + 'b) \<Rightarrow> codec_error + 'b" where
  "decode_stream_entries 0 previous input at k = k [] at"
| "decode_stream_entries (Suc n) previous input at k =
    dec_next decode_stream_entry input at (\<lambda>e at.
      if MAX_STREAM_ENTRY_BYTES < length (se_payload e) then Inl (InvalidTag ''stream-entry'' 0xFD)
      else if (case previous of None \<Rightarrow> False | Some prev \<Rightarrow> se_offset e \<le> prev)
      then Inl (InvalidTag ''stream-offset'' 0xFC)
      else decode_stream_entries n (Some (se_offset e)) input at (\<lambda>es at. k (e # es) at))"

definition decode_stream :: "stream_shard_state decoder" where
  "decode_stream = (\<lambda>input.
    dec_next (decode_chunk 16) input 0 (\<lambda>stream at.
    dec_next decode_u32 input at (\<lambda>shard at.
    dec_next decode_u64 input at (\<lambda>next_offset at.
    dec_next decode_u32 input at (\<lambda>count at.
      if MAX_STREAM_SHARD_ENTRIES < unat count then Inl (InvalidTag ''stream-entries'' 0xFE)
      else decode_stream_entries (unat count) None input at (\<lambda>entries at.
        Inr (\<lparr>ss_stream = stream, ss_shard = shard, ss_next_offset = next_offset, ss_entries = entries\<rparr>, at)))))))"

section \<open>Fixed parts\<close>

lemma codes_chunked_ref [codes_intros]:
  "length (cr_manifest c) = 32 \<Longrightarrow> codes (encode_chunked_ref c) decode_chunked_ref c"
  unfolding encode_chunked_ref_def decode_chunked_ref_def
  by (rule codes_start parses_next parses_eq codes_intros | simp)+

lemma codes_fabric_ref [codes_intros]: "codes (encode_fabric_ref f) decode_fabric_ref f"
  unfolding encode_fabric_ref_def decode_fabric_ref_def
  by (rule codes_start parses_next parses_eq codes_intros | simp)+

lemma codes_escrow_share [codes_intros]: "codes (encode_escrow_share e) decode_escrow_share e"
  unfolding encode_escrow_share_def decode_escrow_share_def
  by (rule codes_start parses_next parses_eq codes_intros | simp)+

lemma codes_bounded [codes_intros]: "codes (encode_bounded b) decode_bounded b"
  unfolding encode_bounded_def decode_bounded_def
  by (rule codes_start parses_next parses_eq codes_intros | simp)+

lemma codes_permit [codes_intros]: "codes (encode_permit p) decode_permit p"
  unfolding encode_permit_def decode_permit_def
  by (rule codes_start parses_next parses_eq codes_intros | simp)+

lemma codes_lease_holder [codes_intros]: "codes (encode_lease_holder h) decode_lease_holder h"
  unfolding encode_lease_holder_def decode_lease_holder_def
  by (rule codes_start parses_next parses_eq codes_intros | simp)+

lemma within_refs [stays_intros]:
  "within decode_chunked_ref" "within decode_fabric_ref" "within decode_escrow_share" "within decode_permit"
  "within decode_lease_holder"
  unfolding decode_chunked_ref_def decode_fabric_ref_def decode_escrow_share_def decode_permit_def
    decode_lease_holder_def
  by (rule stays_intros)+

lemma within_bounded [stays_intros]: "within decode_bounded"
  unfolding decode_bounded_def by (rule stays_intros)+

lemma codes_lease [codes_intros]: "codes (encode_lease st) decode_lease st"
  unfolding encode_lease_def decode_lease_def
  by (cases "ls_holder st") (simp, (rule codes_start_tag parses_next parses_eq codes_intros | simp)+)+

lemma within_lease [stays_intros]: "within decode_lease"
  unfolding decode_lease_def by (rule stays_intros)+

section \<open>Counted parts\<close>

lemma parses_permits:
  assumes "\<forall>(i, p) \<in> set ps. length i = 16" "distinct (map fst ps)" "\<forall>i \<in> fst ` set ps. bt_get acc i = None"
    and "parses es (k (foldl (\<lambda>m e. bt_insert (fst e) (snd e) m) acc ps)) x"
  shows "parses (concat (map (\<lambda>(i, p). [Some i, encode_permit p]) ps) @ es)
    (\<lambda>input at. decode_permits (length ps) acc input at (\<lambda>permits at'. k permits input at')) x"
  using assms
proof (induction ps arbitrary: acc)
  case (Cons e ps)
  obtain i p where e: "e = (i, p)" by (cases e)
  have "parses (concat (map (\<lambda>(i, p). [Some i, encode_permit p]) ps) @ es)
      (\<lambda>input at. decode_permits (length ps) (bt_insert i p acc) input at (\<lambda>permits at'. k permits input at')) x"
    by (rule Cons.IH) (use Cons.prems in \<open>auto simp: e image_iff\<close>)
  then show ?case using Cons.prems
    by (simp add: e) (rule parses_next codes_intros | simp)+
qed simp

lemma stays_permits [stays_intros]:
  "(\<And>m. stays (k m)) \<Longrightarrow> stays (\<lambda>input at. decode_permits n acc input at (\<lambda>permits at'. k permits input at'))"
proof (induction n arbitrary: acc)
  case (Suc n)
  then show ?case by simp (rule stays_intros | simp)+
qed simp

definition semaphore_fits :: "semaphore_state \<Rightarrow> bool" where
  "semaphore_fits st \<longleftrightarrow> bt_wf (sem_permits st) \<and> (\<forall>(i, p) \<in> set (sem_permits st). length i = 16) \<and>
    length (sem_permits st) \<le> MAX_SEMAPHORE_PERMITS"

lemma codes_semaphore [codes_intros]: "semaphore_fits st \<Longrightarrow> codes (encode_semaphore st) decode_semaphore st"
proof -
  assume wf: "semaphore_fits st"
  then have count: "unat (len_u32 (length (sem_permits st))) = length (sem_permits st)"
    by (intro unat_len_u32) (simp add: semaphore_fits_def MAX_SEMAPHORE_PERMITS_def)
  have "parses (concat (map (\<lambda>(i, p). [Some i, encode_permit p]) (sem_permits st)) @ [])
      (\<lambda>input at. decode_permits (length (sem_permits st)) [] input at (\<lambda>permits at.
        Inr (\<lparr>sem_capacity = sem_capacity st, sem_permits = permits\<rparr>, at))) st"
    using wf by (intro parses_permits parses_eq) (auto simp: semaphore_fits_def bt_rebuild bt_wf_distinct bt_get_def)
  then show ?thesis
    using wf unfolding encode_semaphore_def decode_semaphore_def append_Cons append_Nil
    by - (rule codes_start parses_next codes_intros | simp add: count semaphore_fits_def)+
qed

lemma within_semaphore [stays_intros]: "within decode_semaphore"
  unfolding decode_semaphore_def by (rule stays_intros)+

lemma codes_stream_entry [codes_intros]:
  "length (se_partition e) \<le> MAX_FRAME_BYTES \<Longrightarrow> length (se_payload e) \<le> MAX_FRAME_BYTES \<Longrightarrow>
   codes (encode_stream_entry e) decode_stream_entry e"
  unfolding encode_stream_entry_def decode_stream_entry_def
  by (rule codes_start parses_next parses_eq codes_intros | simp)+

lemma within_stream_entry [stays_intros]: "within decode_stream_entry"
  unfolding decode_stream_entry_def by (rule stays_intros)+

definition stream_entry_fits :: "stream_entry \<Rightarrow> bool" where
  "stream_entry_fits e \<longleftrightarrow> length (se_partition e) \<le> MAX_FRAME_BYTES \<and> length (se_payload e) \<le> MAX_STREAM_ENTRY_BYTES"

lemma parses_stream_entries:
  assumes "\<forall>e \<in> set es. stream_entry_fits e" "sorted_wrt (<) (map se_offset es)"
    and "\<forall>e \<in> set es. \<forall>prev. previous = Some prev \<longrightarrow> prev < se_offset e" "parses fs (k es) x"
  shows "parses (map encode_stream_entry es @ fs)
    (\<lambda>input at. decode_stream_entries (length es) previous input at (\<lambda>es at'. k es input at')) x"
  using assms
proof (induction es arbitrary: k previous)
  case (Cons e es)
  have rest: "parses (map encode_stream_entry es @ fs) (\<lambda>input at. decode_stream_entries (length es) (Some (se_offset e))
      input at (\<lambda>es at'. k (e # es) input at')) x"
    using Cons.IH [where k = "\<lambda>es. k (e # es)"] Cons.prems by simp
  have first: "codes (encode_stream_entry e) decode_stream_entry e" "\<not> MAX_STREAM_ENTRY_BYTES < length (se_payload e)"
    using Cons.prems(1) by (auto simp: stream_entry_fits_def MAX_FRAME_BYTES_def MAX_STREAM_ENTRY_BYTES_def intro!: codes_stream_entry)
  have order: "(case previous of None \<Rightarrow> False | Some prev \<Rightarrow> se_offset e \<le> prev) = False"
    using Cons.prems(3) by (auto split: option.splits simp: not_le)
  show ?case
    unfolding list.map length_Cons decode_stream_entries.simps append_Cons
    by (rule parses_next [OF first(1)]) (use rest first(2) in \<open>simp add: order\<close>)
qed simp

lemma stays_stream_entries [stays_intros]:
  "(\<And>es. stays (k es)) \<Longrightarrow>
   stays (\<lambda>input at. decode_stream_entries n previous input at (\<lambda>es at'. k es input at'))"
proof (induction n arbitrary: k previous)
  case (Suc n)
  have "stays (\<lambda>input at. decode_stream_entries n previous' input at (\<lambda>es at'. k (e # es) input at'))" for e previous'
    using Suc.IH [where k = "\<lambda>es. k (e # es)"] Suc.prems by simp
  then show ?case by simp (rule stays_intros | simp)+
qed simp

definition stream_fits :: "stream_shard_state \<Rightarrow> bool" where
  "stream_fits st \<longleftrightarrow> length (ss_stream st) = 16 \<and> length (ss_entries st) \<le> MAX_STREAM_SHARD_ENTRIES \<and>
    (\<forall>e \<in> set (ss_entries st). stream_entry_fits e) \<and> sorted_wrt (<) (map se_offset (ss_entries st))"

lemma codes_stream [codes_intros]: "stream_fits st \<Longrightarrow> codes (encode_stream st) decode_stream st"
proof -
  assume wf: "stream_fits st"
  then have count: "unat (len_u32 (length (ss_entries st))) = length (ss_entries st)"
    by (intro unat_len_u32) (simp add: stream_fits_def MAX_STREAM_SHARD_ENTRIES_def)
  have "parses (map encode_stream_entry (ss_entries st) @ [])
      (\<lambda>input at. decode_stream_entries (length (ss_entries st)) None input at (\<lambda>entries at.
        Inr (\<lparr>ss_stream = ss_stream st, ss_shard = ss_shard st, ss_next_offset = ss_next_offset st,
          ss_entries = entries\<rparr>, at))) st"
    using wf by (intro parses_stream_entries parses_eq) (auto simp: stream_fits_def)
  then show ?thesis
    using wf unfolding encode_stream_def decode_stream_def append_Cons append_Nil
    by - (rule codes_start parses_next codes_intros | simp add: count stream_fits_def)+
qed

lemma within_stream [stays_intros]: "within decode_stream"
  unfolding decode_stream_def by (rule stays_intros)+

end
