(* ===== verification/Mutation_Codec.thy ===== *)
theory Mutation_Codec
  imports Object_Codec Ops
begin

text \<open>
  The byte codecs of transactions' writes (\<open>crates/kivi-state/src/txn.rs\<close>) and of mutations
  (\<open>crates/kivi-state/src/mutation.rs\<close>): what the log and the replicas exchange.  Tags are the numbers
  of the \<open>TAG_*\<close> constants.
\<close>

declare enc_seq.simps [simp del]

section \<open>Transaction writes\<close>

definition encode_txn_expect :: "txn_expect \<Rightarrow> bytes option" where
  "encode_txn_expect e =
    (case e of
       Any \<Rightarrow> enc_seq [Some [0]]
     | Absent \<Rightarrow> enc_seq [Some [1]]
     | Version v \<Rightarrow> enc_seq [Some [2], Some (encode_u64 v)])"

definition decode_txn_expect :: "txn_expect decoder" where
  "decode_txn_expect = (\<lambda>input.
    dec_next decode_u8 input 0 (\<lambda>tag at.
      if tag = 0 then Inr (Any, at)
      else if tag = 1 then Inr (Absent, at)
      else if tag = 2 then dec_next decode_u64 input at (\<lambda>v at. Inr (Version v, at))
      else Inl (InvalidTag ''txn-expect'' tag)))"

definition encode_write_kind :: "txn_write_kind \<Rightarrow> bytes option" where
  "encode_write_kind w =
    (case w of
       W_Put v \<Rightarrow> enc_seq [Some [1], encode_bytes v]
     | W_Delete \<Rightarrow> enc_seq [Some [2]]
     | W_CounterAdd d \<Rightarrow> enc_seq [Some [3], Some (encode_i64 d)]
     | W_PutChunked m n \<Rightarrow> enc_seq [Some [4], Some m, Some (encode_u64 n)]
     | W_PutFabric i n v \<Rightarrow> enc_seq [Some [8], Some (encode_u64 i), Some (encode_u64 n), Some (encode_u64 v)]
     | W_CommutativeAdd d \<Rightarrow> enc_seq [Some [5], Some (encode_i64 d)]
     | W_BoundedAdd d \<Rightarrow> enc_seq [Some [6], Some (encode_i64 d)]
     | W_EscrowSetShare lo hi \<Rightarrow> enc_seq [Some [7], Some (encode_i64 lo), Some (encode_i64 hi)])"

definition decode_write_kind :: "txn_write_kind decoder" where
  "decode_write_kind = (\<lambda>input.
    dec_next decode_u8 input 0 (\<lambda>tag at.
      if tag = 1 then dec_next decode_byte_vec input at (\<lambda>v at. Inr (W_Put v, at))
      else if tag = 2 then Inr (W_Delete, at)
      else if tag = 3 then dec_next decode_i64 input at (\<lambda>d at. Inr (W_CounterAdd d, at))
      else if tag = 4 then
        dec_next (decode_chunk 32) input at (\<lambda>m at. dec_next decode_u64 input at (\<lambda>n at. Inr (W_PutChunked m n, at)))
      else if tag = 8 then
        dec_next decode_u64 input at (\<lambda>i at. dec_next decode_u64 input at (\<lambda>n at.
        dec_next decode_u64 input at (\<lambda>v at. Inr (W_PutFabric i n v, at))))
      else if tag = 5 then dec_next decode_i64 input at (\<lambda>d at. Inr (W_CommutativeAdd d, at))
      else if tag = 6 then dec_next decode_i64 input at (\<lambda>d at. Inr (W_BoundedAdd d, at))
      else if tag = 7 then
        dec_next decode_i64 input at (\<lambda>lo at. dec_next decode_i64 input at (\<lambda>hi at. Inr (W_EscrowSetShare lo hi, at)))
      else Inl (InvalidTag ''txn-write'' tag)))"

definition encode_txn_write :: "txn_write \<Rightarrow> bytes option" where
  "encode_txn_write w = enc_seq [encode_bytes (tw_key w), encode_txn_expect (tw_expect w), encode_write_kind (tw_kind w)]"

definition decode_txn_write :: "txn_write decoder" where
  "decode_txn_write = (\<lambda>input.
    dec_next decode_byte_vec input 0 (\<lambda>k at.
    dec_next decode_txn_expect input at (\<lambda>expect at.
    dec_next decode_write_kind input at (\<lambda>kind at.
      Inr (\<lparr>tw_key = k, tw_kind = kind, tw_expect = expect\<rparr>, at)))))"

section \<open>Mutations\<close>

text \<open>A count of writes that does not fit is written as \<open>u16::MAX\<close>.\<close>

definition count_u16 :: "nat \<Rightarrow> u16" where
  "count_u16 n = (if n < 2 ^ 16 then of_nat n else - 1)"

definition encode_mutation :: "mutation \<Rightarrow> bytes option" where
  "encode_mutation m =
    (case m of
       M_PutBytes k v \<Rightarrow> enc_seq [Some [1], encode_bytes k, encode_bytes v]
     | M_Delete k \<Rightarrow> enc_seq [Some [2], encode_bytes k]
     | M_CounterAdd k d \<Rightarrow> enc_seq [Some [3], encode_bytes k, Some (encode_i64 d)]
     | M_SetExpiry k e \<Rightarrow> enc_seq [Some [4], encode_bytes k, Some (encode_expiry e)]
     | M_ReplaceChunkedRoot k m n \<Rightarrow> enc_seq [Some [5], encode_bytes k, Some m, Some (encode_u64 n)]
     | M_SpliceBytes k off p \<Rightarrow> enc_seq [Some [6], encode_bytes k, Some (encode_u64 off), encode_bytes p]
     | M_PutBytesWithExpiry k v e \<Rightarrow> enc_seq [Some [7], encode_bytes k, encode_bytes v, Some (encode_expiry e)]
     | M_ReplaceChunkedRootWithExpiry k m n e \<Rightarrow>
         enc_seq [Some [8], encode_bytes k, Some m, Some (encode_u64 n), Some (encode_expiry e)]
     | M_TxnPrepare t c k x w d \<Rightarrow>
         enc_seq [Some [9], Some t, Some (encode_u64 c), encode_bytes k, encode_txn_expect x, encode_write_kind w, Some d]
     | M_TxnFinalize t k c w d \<Rightarrow>
         enc_seq [Some [10], Some t, encode_bytes k, Some (encode_bool c), encode_txn_write w, Some d]
     | M_TxnCommitLocal t ws \<Rightarrow>
         enc_seq ([Some [24], Some t, Some (encode_u16 (count_u16 (length ws)))] @ map encode_txn_write ws)
     | M_CommutativeAdd k d \<Rightarrow> enc_seq [Some [11], encode_bytes k, Some (encode_i64 d)]
     | M_BoundedCreate k c h \<Rightarrow> enc_seq [Some [12], encode_bytes k, Some (encode_u64 c), Some (encode_u64 h)]
     | M_BoundedAdd k d \<Rightarrow> enc_seq [Some [13], encode_bytes k, Some (encode_i64 d)]
     | M_EscrowSetShare k lo hi \<Rightarrow> enc_seq [Some [14], encode_bytes k, Some (encode_i64 lo), Some (encode_i64 hi)]
     | M_SemaphoreCreate k c \<Rightarrow> enc_seq [Some [15], encode_bytes k, Some (encode_u64 c)]
     | M_SemaphoreAcquire k p ow q \<Rightarrow>
         enc_seq [Some [16], encode_bytes k, Some p, Some (encode_u64 ow), Some (encode_u64 q)]
     | M_SemaphoreRelease k p \<Rightarrow> enc_seq [Some [17], encode_bytes k, Some p]
     | M_LeaseAcquire k ow f e \<Rightarrow>
         enc_seq [Some [18], encode_bytes k, Some (encode_u64 ow), Some (encode_u64 f), Some (encode_i64 e)]
     | M_LeaseRenew k ow f e \<Rightarrow>
         enc_seq [Some [19], encode_bytes k, Some (encode_u64 ow), Some (encode_u64 f), Some (encode_i64 e)]
     | M_LeaseRelease k ow f \<Rightarrow> enc_seq [Some [20], encode_bytes k, Some (encode_u64 ow), Some (encode_u64 f)]
     | M_StreamCreate k s n \<Rightarrow> enc_seq [Some [21], encode_bytes k, Some s, Some (encode_u32 n)]
     | M_StreamAppend k part p \<Rightarrow> enc_seq [Some [22], encode_bytes k, encode_bytes part, encode_bytes p]
     | M_StreamTrim k through \<Rightarrow> enc_seq [Some [23], encode_bytes k, Some (encode_u64 through)]
     | M_ReplaceFabricRoot k i n v \<Rightarrow>
         enc_seq [Some [25], encode_bytes k, Some (encode_u64 i), Some (encode_u64 n), Some (encode_u64 v)]
     | M_ReplaceFabricRootWithExpiry k i n v e \<Rightarrow>
         enc_seq [Some [26], encode_bytes k, Some (encode_u64 i), Some (encode_u64 n), Some (encode_u64 v),
           Some (encode_expiry e)])"

text \<open>The arms of the decoder behind the tag; most of them start with the key.\<close>

definition decode_keyed_mutation ::
  "u8 \<Rightarrow> key \<Rightarrow> bytes \<Rightarrow> nat \<Rightarrow> codec_error + (mutation \<times> nat)" where
  "decode_keyed_mutation tag k = (\<lambda>input at.
     if tag = 1 then dec_next decode_byte_vec input at (\<lambda>v at. Inr (M_PutBytes k v, at))
     else if tag = 2 then Inr (M_Delete k, at)
     else if tag = 3 then dec_next decode_i64 input at (\<lambda>d at. Inr (M_CounterAdd k d, at))
     else if tag = 4 then dec_next decode_expiry input at (\<lambda>e at. Inr (M_SetExpiry k e, at))
     else if tag = 5 then dec_next (decode_chunk 32) input at (\<lambda>m at.
       dec_next decode_u64 input at (\<lambda>n at. Inr (M_ReplaceChunkedRoot k m n, at)))
     else if tag = 6 then dec_next decode_u64 input at (\<lambda>off at.
       dec_next decode_byte_vec input at (\<lambda>p at. Inr (M_SpliceBytes k off p, at)))
     else if tag = 7 then dec_next decode_byte_vec input at (\<lambda>v at.
       dec_next decode_expiry input at (\<lambda>e at. Inr (M_PutBytesWithExpiry k v e, at)))
     else if tag = 8 then dec_next (decode_chunk 32) input at (\<lambda>m at.
       dec_next decode_u64 input at (\<lambda>n at.
       dec_next decode_expiry input at (\<lambda>e at. Inr (M_ReplaceChunkedRootWithExpiry k m n e, at))))
     else if tag = 11 then dec_next decode_i64 input at (\<lambda>d at. Inr (M_CommutativeAdd k d, at))
     else if tag = 12 then dec_next decode_u64 input at (\<lambda>c at.
       dec_next decode_u64 input at (\<lambda>h at. Inr (M_BoundedCreate k c h, at)))
     else if tag = 13 then dec_next decode_i64 input at (\<lambda>d at. Inr (M_BoundedAdd k d, at))
     else if tag = 14 then dec_next decode_i64 input at (\<lambda>lo at.
       dec_next decode_i64 input at (\<lambda>hi at. Inr (M_EscrowSetShare k lo hi, at)))
     else if tag = 15 then dec_next decode_u64 input at (\<lambda>c at. Inr (M_SemaphoreCreate k c, at))
     else if tag = 16 then dec_next (decode_chunk 16) input at (\<lambda>p at.
       dec_next decode_u64 input at (\<lambda>ow at. dec_next decode_u64 input at (\<lambda>q at. Inr (M_SemaphoreAcquire k p ow q, at))))
     else if tag = 17 then dec_next (decode_chunk 16) input at (\<lambda>p at. Inr (M_SemaphoreRelease k p, at))
     else if tag = 18 then dec_next decode_u64 input at (\<lambda>ow at. dec_next decode_u64 input at (\<lambda>f at.
       dec_next decode_i64 input at (\<lambda>e at. Inr (M_LeaseAcquire k ow f e, at))))
     else if tag = 19 then dec_next decode_u64 input at (\<lambda>ow at. dec_next decode_u64 input at (\<lambda>f at.
       dec_next decode_i64 input at (\<lambda>e at. Inr (M_LeaseRenew k ow f e, at))))
     else if tag = 20 then dec_next decode_u64 input at (\<lambda>ow at.
       dec_next decode_u64 input at (\<lambda>f at. Inr (M_LeaseRelease k ow f, at)))
     else if tag = 21 then dec_next (decode_chunk 16) input at (\<lambda>s at.
       dec_next decode_u32 input at (\<lambda>n at. Inr (M_StreamCreate k s n, at)))
     else if tag = 22 then dec_next decode_byte_vec input at (\<lambda>part at.
       dec_next decode_byte_vec input at (\<lambda>p at. Inr (M_StreamAppend k part p, at)))
     else if tag = 23 then dec_next decode_u64 input at (\<lambda>through at. Inr (M_StreamTrim k through, at))
     else if tag = 25 then dec_next decode_u64 input at (\<lambda>i at. dec_next decode_u64 input at (\<lambda>n at.
       dec_next decode_u64 input at (\<lambda>v at. Inr (M_ReplaceFabricRoot k i n v, at))))
     else if tag = 26 then dec_next decode_u64 input at (\<lambda>i at. dec_next decode_u64 input at (\<lambda>n at.
       dec_next decode_u64 input at (\<lambda>v at.
       dec_next decode_expiry input at (\<lambda>e at. Inr (M_ReplaceFabricRootWithExpiry k i n v e, at)))))
     else Inl (InvalidTag ''mutation'' tag))"

text \<open>Unknown tags are refused before the key is read.\<close>

definition keyed_tag :: "u8 \<Rightarrow> bool" where
  "keyed_tag tag \<longleftrightarrow>
    tag \<in> {1, 2, 3, 4, 5, 6, 7, 8, 11, 12, 13, 14, 15, 16, 17, 18, 19, 20, 21, 22, 23, 25, 26}"

definition decode_mutation :: "mutation decoder" where
  "decode_mutation = (\<lambda>input.
    dec_next decode_u8 input 0 (\<lambda>tag at.
      if tag = 9 then
        dec_next (decode_chunk 16) input at (\<lambda>t at. dec_next decode_u64 input at (\<lambda>c at.
        dec_next decode_byte_vec input at (\<lambda>k at. dec_next decode_txn_expect input at (\<lambda>x at.
        dec_next decode_write_kind input at (\<lambda>w at. dec_next (decode_chunk 32) input at (\<lambda>d at.
          Inr (M_TxnPrepare t c k x w d, at)))))))
      else if tag = 10 then
        dec_next (decode_chunk 16) input at (\<lambda>t at. dec_next decode_byte_vec input at (\<lambda>k at.
        dec_next decode_bool input at (\<lambda>c at. dec_next decode_txn_write input at (\<lambda>w at.
        dec_next (decode_chunk 32) input at (\<lambda>d at. Inr (M_TxnFinalize t k c w d, at))))))
      else if tag = 24 then
        dec_next (decode_chunk 16) input at (\<lambda>t at. dec_next decode_u16 input at (\<lambda>count at.
          if count = 0 \<or> MAX_TXN_KEYS < unat count then Inl (InvalidTag ''mutation'' 24)
          else decode_items decode_txn_write (unat count) input at (\<lambda>ws at. Inr (M_TxnCommitLocal t ws, at))))
      else if keyed_tag tag then
        dec_next decode_byte_vec input at (\<lambda>k at. decode_keyed_mutation tag k input at)
      else Inl (InvalidTag ''mutation'' tag)))"

section \<open>Read-back\<close>

lemma codes_txn_expect [codes_intros]: "codes (encode_txn_expect e) decode_txn_expect e"
  unfolding encode_txn_expect_def decode_txn_expect_def
  by (cases e) (simp, (rule codes_start_tag parses_next parses_eq codes_intros | simp)+)+

fun write_kind_wf :: "txn_write_kind \<Rightarrow> bool" where
  "write_kind_wf (W_Put v) = (length v \<le> MAX_FRAME_BYTES)"
| "write_kind_wf (W_PutChunked m n) = (length m = 32)"
| "write_kind_wf _ = True"

lemma codes_write_kind [codes_intros]: "write_kind_wf w \<Longrightarrow> codes (encode_write_kind w) decode_write_kind w"
  unfolding encode_write_kind_def decode_write_kind_def
  by (cases w) (simp, (rule codes_start_tag parses_next parses_eq codes_intros | simp)+)+

definition txn_write_wf :: "txn_write \<Rightarrow> bool" where
  "txn_write_wf w \<longleftrightarrow> length (tw_key w) \<le> MAX_FRAME_BYTES \<and> write_kind_wf (tw_kind w)"

lemma codes_txn_write [codes_intros]: "txn_write_wf w \<Longrightarrow> codes (encode_txn_write w) decode_txn_write w"
  unfolding encode_txn_write_def decode_txn_write_def txn_write_wf_def
  by (rule codes_start parses_next parses_eq codes_intros | simp)+

lemma within_txn [stays_intros]: "within decode_txn_expect" "within decode_write_kind"
  unfolding decode_txn_expect_def decode_write_kind_def by (rule stays_intros)+

lemma within_txn_write [stays_intros]: "within decode_txn_write"
  unfolding decode_txn_write_def by (rule stays_intros)+

fun mutation_wf :: "mutation \<Rightarrow> bool" where
  "mutation_wf (M_PutBytes k v) = (length k \<le> MAX_FRAME_BYTES \<and> length v \<le> MAX_FRAME_BYTES)"
| "mutation_wf (M_Delete k) = (length k \<le> MAX_FRAME_BYTES)"
| "mutation_wf (M_CounterAdd k _) = (length k \<le> MAX_FRAME_BYTES)"
| "mutation_wf (M_SetExpiry k _) = (length k \<le> MAX_FRAME_BYTES)"
| "mutation_wf (M_ReplaceChunkedRoot k m _) = (length k \<le> MAX_FRAME_BYTES \<and> length m = 32)"
| "mutation_wf (M_ReplaceFabricRoot k _ _ _) = (length k \<le> MAX_FRAME_BYTES)"
| "mutation_wf (M_SpliceBytes k _ p) = (length k \<le> MAX_FRAME_BYTES \<and> length p \<le> MAX_FRAME_BYTES)"
| "mutation_wf (M_PutBytesWithExpiry k v _) = (length k \<le> MAX_FRAME_BYTES \<and> length v \<le> MAX_FRAME_BYTES)"
| "mutation_wf (M_ReplaceChunkedRootWithExpiry k m _ _) = (length k \<le> MAX_FRAME_BYTES \<and> length m = 32)"
| "mutation_wf (M_ReplaceFabricRootWithExpiry k _ _ _ _) = (length k \<le> MAX_FRAME_BYTES)"
| "mutation_wf (M_TxnPrepare t _ k _ w d) =
    (length t = 16 \<and> length k \<le> MAX_FRAME_BYTES \<and> write_kind_wf w \<and> length d = 32)"
| "mutation_wf (M_TxnFinalize t k _ w d) =
    (length t = 16 \<and> length k \<le> MAX_FRAME_BYTES \<and> txn_write_wf w \<and> length d = 32)"
| "mutation_wf (M_TxnCommitLocal t ws) =
    (length t = 16 \<and> ws \<noteq> [] \<and> length ws \<le> MAX_TXN_KEYS \<and> list_all txn_write_wf ws)"
| "mutation_wf (M_CommutativeAdd k _) = (length k \<le> MAX_FRAME_BYTES)"
| "mutation_wf (M_BoundedCreate k _ _) = (length k \<le> MAX_FRAME_BYTES)"
| "mutation_wf (M_BoundedAdd k _) = (length k \<le> MAX_FRAME_BYTES)"
| "mutation_wf (M_EscrowSetShare k _ _) = (length k \<le> MAX_FRAME_BYTES)"
| "mutation_wf (M_SemaphoreCreate k _) = (length k \<le> MAX_FRAME_BYTES)"
| "mutation_wf (M_SemaphoreAcquire k p _ _) = (length k \<le> MAX_FRAME_BYTES \<and> length p = 16)"
| "mutation_wf (M_SemaphoreRelease k p) = (length k \<le> MAX_FRAME_BYTES \<and> length p = 16)"
| "mutation_wf (M_LeaseAcquire k _ _ _) = (length k \<le> MAX_FRAME_BYTES)"
| "mutation_wf (M_LeaseRenew k _ _ _) = (length k \<le> MAX_FRAME_BYTES)"
| "mutation_wf (M_LeaseRelease k _ _) = (length k \<le> MAX_FRAME_BYTES)"
| "mutation_wf (M_StreamCreate k s _) = (length k \<le> MAX_FRAME_BYTES \<and> length s = 16)"
| "mutation_wf (M_StreamAppend k part p) =
    (length k \<le> MAX_FRAME_BYTES \<and> length part \<le> MAX_FRAME_BYTES \<and> length p \<le> MAX_FRAME_BYTES)"
| "mutation_wf (M_StreamTrim k _) = (length k \<le> MAX_FRAME_BYTES)"

text \<open>The arms behind the tag and the key.\<close>

lemma codes_keyed:
  assumes "keyed_tag tag" "length k \<le> MAX_FRAME_BYTES" "parses es (decode_keyed_mutation tag k) m"
  shows "codes (enc_seq (Some [tag] # encode_bytes k # es)) decode_mutation m"
proof -
  have tag: "tag \<noteq> 9" "tag \<noteq> 10" "tag \<noteq> 24" using assms(1) by (auto simp: keyed_tag_def)
  show ?thesis
    unfolding decode_mutation_def
    by (rule codes_start_tag) (simp add: tag assms(1), rule parses_next, rule codes_blob [OF assms(2)], rule assms(3))
qed

lemma unat_count_u16: "n < 2 ^ 16 \<Longrightarrow> unat (count_u16 n) = n"
  by (simp add: count_u16_def unsigned_of_nat take_bit_nat_eq_self)

lemma codes_commit_local:
  assumes "mutation_wf (M_TxnCommitLocal t ws)"
  shows "codes (encode_mutation (M_TxnCommitLocal t ws)) decode_mutation (M_TxnCommitLocal t ws)"
proof -
  have count: "unat (count_u16 (length ws)) = length ws" and nonzero: "count_u16 (length ws) \<noteq> 0"
    using assms unat_count_u16 [of "length ws"] by (auto simp: MAX_TXN_KEYS_def)
  have "parses (map encode_txn_write ws @ [])
      (\<lambda>input at. decode_items decode_txn_write (length ws) input at (\<lambda>ws at. Inr (M_TxnCommitLocal t ws, at)))
      (M_TxnCommitLocal t ws)"
    using assms by (intro parses_items parses_eq) (auto simp: list_all_iff intro: codes_txn_write)
  then show ?thesis
    using assms nonzero unfolding encode_mutation_def decode_mutation_def
    by - (simp, (rule codes_start_tag parses_next codes_intros | simp add: count)+)
qed

lemma codes_mutation [codes_intros]: "mutation_wf m \<Longrightarrow> codes (encode_mutation m) decode_mutation m"
proof (cases m)
  case (M_TxnCommitLocal t ws)
  then show "mutation_wf m \<Longrightarrow> ?thesis" using codes_commit_local by simp
next
  case (M_TxnPrepare t c k x w d)
  then show "mutation_wf m \<Longrightarrow> ?thesis"
    unfolding encode_mutation_def decode_mutation_def
    by - (simp, (rule codes_start_tag parses_next parses_eq codes_intros | simp)+)
next
  case (M_TxnFinalize t k c w d)
  then show "mutation_wf m \<Longrightarrow> ?thesis"
    unfolding encode_mutation_def decode_mutation_def
    by - (simp, (rule codes_start_tag parses_next parses_eq codes_intros | simp)+)
qed (simp add: encode_mutation_def, rule codes_keyed, simp add: keyed_tag_def, simp,
  simp add: decode_keyed_mutation_def, (rule parses_next parses_eq codes_intros | simp)+)+

lemma stays_keyed [stays_intros]: "stays (decode_keyed_mutation tag k)"
  unfolding decode_keyed_mutation_def by (rule stays_intros)+

lemma within_mutation [stays_intros]: "within decode_mutation"
  unfolding decode_mutation_def by (rule stays_intros)+

end
