(* ===== verification/Outcome_Codec.thy ===== *)
theory Outcome_Codec
  imports Mutation_Codec
begin

text \<open>
  The byte codecs of errors, results and durable outcomes (\<open>crates/kivi-state/src/ops.rs\<close>): what a
  replica retains for a retry and what a proposal announces.
\<close>

section \<open>Optional parts\<close>

definition encode_option :: "('a \<Rightarrow> bytes option) \<Rightarrow> 'a option \<Rightarrow> bytes option list" where
  "encode_option enc v = (case v of None \<Rightarrow> [Some [0]] | Some x \<Rightarrow> [Some [1], enc x])"

definition decode_option ::
  "'a decoder \<Rightarrow> bytes \<Rightarrow> nat \<Rightarrow> ('a option \<Rightarrow> nat \<Rightarrow> codec_error + 'b) \<Rightarrow> codec_error + 'b" where
  "decode_option dec input at k =
    dec_next decode_bool input at (\<lambda>present at.
      if present then dec_next dec input at (\<lambda>v at. k (Some v) at) else k None at)"

lemma codes_presence: "codes (Some [0]) decode_bool False" "codes (Some [1]) decode_bool True"
  by (simp_all add: codes_def decode_bool_def decode_u8_def)

lemma parses_option:
  assumes "\<And>x. v = Some x \<Longrightarrow> codes (enc x) dec x" "parses es (k v) r"
  shows "parses (encode_option enc v @ es) (\<lambda>input at. decode_option dec input at (\<lambda>v at. k v input at)) r"
proof (cases v)
  case None
  have "parses (Some [0] # es) (\<lambda>input at. decode_option dec input at (\<lambda>v at. k v input at)) r"
    unfolding decode_option_def by (rule parses_next, rule codes_presence) (use assms(2) None in simp)
  then show ?thesis by (simp add: None encode_option_def)
next
  case (Some x)
  have "parses (enc x # es) (\<lambda>input at. dec_next dec input at (\<lambda>v at. k (Some v) input at)) r"
    by (rule parses_next, rule assms(1) [OF Some]) (use assms(2) Some in simp)
  then have "parses (Some [1] # enc x # es) (\<lambda>input at. decode_option dec input at (\<lambda>v at. k v input at)) r"
    unfolding decode_option_def by - (rule parses_next, rule codes_presence, simp)
  then show ?thesis by (simp add: Some encode_option_def)
qed

lemmas parses_option_last = parses_option [of _ _ _ "[]", simplified append_Nil2]

lemma stays_option [stays_intros]:
  "within dec \<Longrightarrow> (\<And>v. stays (k v)) \<Longrightarrow> stays (\<lambda>input at. decode_option dec input at (\<lambda>v at. k v input at))"
  unfolding decode_option_def by (rule stays_intros | simp)+

section \<open>Errors\<close>

definition encode_object_type :: "object_type \<Rightarrow> bytes option" where
  "encode_object_type t = enc_seq [Some [case t of
     T_Bytes \<Rightarrow> 1 | T_StrictCounter \<Rightarrow> 2 | T_CommutativeCounter \<Rightarrow> 3 | T_BoundedCounter \<Rightarrow> 4
   | T_Semaphore \<Rightarrow> 5 | T_Lease \<Rightarrow> 6 | T_StreamShard \<Rightarrow> 7]]"

definition decode_object_type :: "object_type decoder" where
  "decode_object_type = (\<lambda>input.
    dec_next decode_u8 input 0 (\<lambda>tag at.
      if tag = 1 then Inr (T_Bytes, at)
      else if tag = 2 then Inr (T_StrictCounter, at)
      else if tag = 3 then Inr (T_CommutativeCounter, at)
      else if tag = 4 then Inr (T_BoundedCounter, at)
      else if tag = 5 then Inr (T_Semaphore, at)
      else if tag = 6 then Inr (T_Lease, at)
      else if tag = 7 then Inr (T_StreamShard, at)
      else Inl (InvalidTag ''object-type'' tag)))"

definition encode_op_error :: "op_error \<Rightarrow> bytes option" where
  "encode_op_error e =
    (case e of
       E_WrongType expected found \<Rightarrow> enc_seq [Some [1], encode_object_type expected, encode_object_type found]
     | E_CounterOverflow \<Rightarrow> enc_seq [Some [2]]
     | E_StaleRangeBase \<Rightarrow> enc_seq [Some [3]]
     | E_TxnConflict \<Rightarrow> enc_seq [Some [4]]
     | E_BoundedExceeded \<Rightarrow> enc_seq [Some [5]]
     | E_SemaphoreExhausted \<Rightarrow> enc_seq [Some [6]]
     | E_LeaseConflict \<Rightarrow> enc_seq [Some [7]]
     | E_StaleFencing \<Rightarrow> enc_seq [Some [8]]
     | E_StreamFull \<Rightarrow> enc_seq [Some [9]]
     | E_NotFound \<Rightarrow> enc_seq [Some [10]])"

definition decode_op_error :: "op_error decoder" where
  "decode_op_error = (\<lambda>input.
    dec_next decode_u8 input 0 (\<lambda>tag at.
      if tag = 1 then dec_next decode_object_type input at (\<lambda>expected at.
        dec_next decode_object_type input at (\<lambda>found at. Inr (E_WrongType expected found, at)))
      else if tag = 2 then Inr (E_CounterOverflow, at)
      else if tag = 3 then Inr (E_StaleRangeBase, at)
      else if tag = 4 then Inr (E_TxnConflict, at)
      else if tag = 5 then Inr (E_BoundedExceeded, at)
      else if tag = 6 then Inr (E_SemaphoreExhausted, at)
      else if tag = 7 then Inr (E_LeaseConflict, at)
      else if tag = 8 then Inr (E_StaleFencing, at)
      else if tag = 9 then Inr (E_StreamFull, at)
      else if tag = 10 then Inr (E_NotFound, at)
      else Inl (InvalidTag ''op-error'' tag)))"

lemma codes_object_type [codes_intros]: "codes (encode_object_type t) decode_object_type t"
  unfolding encode_object_type_def decode_object_type_def
  by (cases t) (simp, (rule codes_start_tag parses_eq | simp)+)+

lemma codes_op_error [codes_intros]: "codes (encode_op_error e) decode_op_error e"
  unfolding encode_op_error_def decode_op_error_def
  by (cases e) (simp, (rule codes_start_tag parses_next parses_eq codes_intros | simp)+)+

lemma within_object_type [stays_intros]: "within decode_object_type"
  unfolding decode_object_type_def by (rule stays_intros)+

lemma within_op_error [stays_intros]: "within decode_op_error"
  unfolding decode_op_error_def by (rule stays_intros)+

section \<open>Results\<close>

abbreviation enc_i64 :: "i64 \<Rightarrow> bytes option" where "enc_i64 x \<equiv> Some (encode_i64 x)"
abbreviation enc_u64 :: "u64 \<Rightarrow> bytes option" where "enc_u64 x \<equiv> Some (encode_u64 x)"

definition encode_share :: "i64 \<times> i64 \<Rightarrow> bytes option" where
  "encode_share s = enc_seq [enc_i64 (fst s), enc_i64 (snd s)]"

definition decode_share :: "(i64 \<times> i64) decoder" where
  "decode_share = (\<lambda>input.
    dec_next decode_i64 input 0 (\<lambda>lo at. dec_next decode_i64 input at (\<lambda>hi at. Inr ((lo, hi), at))))"

definition encode_version_opt :: "object_version option \<Rightarrow> bytes option" where
  "encode_version_opt v = enc_seq (encode_option enc_u64 v)"

definition decode_version_opt :: "object_version option decoder" where
  "decode_version_opt = (\<lambda>input. decode_option decode_u64 input 0 (\<lambda>v at. Inr (v, at)))"

definition encode_result :: "operation_result \<Rightarrow> bytes option" where
  "encode_result r =
    (case r of
       R_Value v \<Rightarrow> enc_seq (Some [1] # encode_option encode_bytes v)
     | R_Stored v \<Rightarrow> enc_seq [Some [2], enc_u64 v]
     | R_Deleted b \<Rightarrow> enc_seq [Some [3], Some (encode_bool b)]
     | R_Exists b \<Rightarrow> enc_seq [Some [4], Some (encode_bool b)]
     | R_Counter v \<Rightarrow> enc_seq (Some [5] # encode_option enc_i64 v)
     | R_CounterUpdated v ver \<Rightarrow> enc_seq [Some [6], enc_i64 v, enc_u64 ver]
     | R_ExpirySet b \<Rightarrow> enc_seq [Some [7], Some (encode_bool b)]
     | R_ExpiryPersisted b \<Rightarrow> enc_seq [Some [8], Some (encode_bool b)]
     | R_Expiry e \<Rightarrow> enc_seq (Some [9] # encode_option (\<lambda>e. Some (encode_expiry e)) e)
     | R_ChunkedValue m n \<Rightarrow> enc_seq [Some [10], Some m, enc_u64 n]
     | R_FabricValue i n v \<Rightarrow> enc_seq [Some [33], enc_u64 i, enc_u64 n, enc_u64 v]
     | R_Length v \<Rightarrow> enc_seq (Some [11] # encode_option enc_u64 v)
     | R_Version v \<Rightarrow> enc_seq (Some [16] # encode_option enc_u64 v)
     | R_ConditionalSet b v \<Rightarrow> enc_seq (Some [12] # Some (encode_bool b) # encode_option enc_u64 v)
     | R_TxnPrepared \<Rightarrow> enc_seq [Some [13]]
     | R_TxnConflict \<Rightarrow> enc_seq [Some [14]]
     | R_TxnFinalized b v \<Rightarrow> enc_seq (Some [15] # Some (encode_bool b) # encode_option enc_u64 v)
     | R_CommutativeApplied \<Rightarrow> enc_seq [Some [17]]
     | R_CommutativeValue v \<Rightarrow> enc_seq (Some [18] # encode_option enc_i64 v)
     | R_BoundedUpdated v ver \<Rightarrow> enc_seq [Some [19], enc_i64 v, enc_u64 ver]
     | R_BoundedValue v c s \<Rightarrow>
         enc_seq (Some [20] # encode_option enc_i64 v @ encode_option enc_u64 c @ encode_option encode_share s)
     | R_SemaphoreAcquired \<Rightarrow> enc_seq [Some [21]]
     | R_SemaphoreReleased b \<Rightarrow> enc_seq [Some [22], Some (encode_bool b)]
     | R_SemaphoreLoad n c \<Rightarrow> enc_seq [Some [23], enc_u64 n, enc_u64 c]
     | R_LeaseAcquired f e \<Rightarrow> enc_seq [Some [24], enc_u64 f, enc_i64 e]
     | R_LeaseRenewed f e \<Rightarrow> enc_seq [Some [25], enc_u64 f, enc_i64 e]
     | R_LeaseReleased b \<Rightarrow> enc_seq [Some [26], Some (encode_bool b)]
     | R_LeaseInfo h f \<Rightarrow> enc_seq (Some [27] # encode_option encode_lease_holder h @ [enc_u64 f])
     | R_StreamCreated \<Rightarrow> enc_seq [Some [28]]
     | R_StreamAppended off \<Rightarrow> enc_seq [Some [29], enc_u64 off]
     | R_StreamEntries es next \<Rightarrow>
         enc_seq ([Some [30], Some (encode_u32 (len_u32 (length es)))] @ map encode_stream_entry es @ [enc_u64 next])
     | R_StreamTrimmed n \<Rightarrow> enc_seq [Some [31], enc_u64 n]
     | R_TxnLocalCommitted vs \<Rightarrow>
         enc_seq ([Some [32], Some (encode_u16 (count_u16 (length vs)))] @ map encode_version_opt vs))"

definition decode_result_body :: "u8 \<Rightarrow> bytes \<Rightarrow> nat \<Rightarrow> codec_error + (operation_result \<times> nat)" where
  "decode_result_body tag = (\<lambda>input at.
     if tag = 1 then decode_option decode_byte_vec input at (\<lambda>v at. Inr (R_Value v, at))
     else if tag = 2 then dec_next decode_u64 input at (\<lambda>v at. Inr (R_Stored v, at))
     else if tag = 3 then dec_next decode_bool input at (\<lambda>b at. Inr (R_Deleted b, at))
     else if tag = 4 then dec_next decode_bool input at (\<lambda>b at. Inr (R_Exists b, at))
     else if tag = 5 then decode_option decode_i64 input at (\<lambda>v at. Inr (R_Counter v, at))
     else if tag = 6 then dec_next decode_i64 input at (\<lambda>v at.
       dec_next decode_u64 input at (\<lambda>ver at. Inr (R_CounterUpdated v ver, at)))
     else if tag = 7 then dec_next decode_bool input at (\<lambda>b at. Inr (R_ExpirySet b, at))
     else if tag = 8 then dec_next decode_bool input at (\<lambda>b at. Inr (R_ExpiryPersisted b, at))
     else if tag = 9 then decode_option decode_expiry input at (\<lambda>e at. Inr (R_Expiry e, at))
     else if tag = 10 then dec_next (decode_chunk 32) input at (\<lambda>m at.
       dec_next decode_u64 input at (\<lambda>n at. Inr (R_ChunkedValue m n, at)))
     else if tag = 33 then dec_next decode_u64 input at (\<lambda>i at. dec_next decode_u64 input at (\<lambda>n at.
       dec_next decode_u64 input at (\<lambda>v at. Inr (R_FabricValue i n v, at))))
     else if tag = 11 then decode_option decode_u64 input at (\<lambda>v at. Inr (R_Length v, at))
     else if tag = 16 then decode_option decode_u64 input at (\<lambda>v at. Inr (R_Version v, at))
     else if tag = 12 then dec_next decode_bool input at (\<lambda>b at.
       decode_option decode_u64 input at (\<lambda>v at. Inr (R_ConditionalSet b v, at)))
     else if tag = 13 then Inr (R_TxnPrepared, at)
     else if tag = 14 then Inr (R_TxnConflict, at)
     else if tag = 15 then dec_next decode_bool input at (\<lambda>b at.
       decode_option decode_u64 input at (\<lambda>v at. Inr (R_TxnFinalized b v, at)))
     else if tag = 17 then Inr (R_CommutativeApplied, at)
     else if tag = 18 then decode_option decode_i64 input at (\<lambda>v at. Inr (R_CommutativeValue v, at))
     else if tag = 19 then dec_next decode_i64 input at (\<lambda>v at.
       dec_next decode_u64 input at (\<lambda>ver at. Inr (R_BoundedUpdated v ver, at)))
     else if tag = 20 then decode_option decode_i64 input at (\<lambda>v at.
       decode_option decode_u64 input at (\<lambda>c at.
       decode_option decode_share input at (\<lambda>s at. Inr (R_BoundedValue v c s, at))))
     else if tag = 21 then Inr (R_SemaphoreAcquired, at)
     else if tag = 22 then dec_next decode_bool input at (\<lambda>b at. Inr (R_SemaphoreReleased b, at))
     else if tag = 23 then dec_next decode_u64 input at (\<lambda>n at.
       dec_next decode_u64 input at (\<lambda>c at. Inr (R_SemaphoreLoad n c, at)))
     else if tag = 24 then dec_next decode_u64 input at (\<lambda>f at.
       dec_next decode_i64 input at (\<lambda>e at. Inr (R_LeaseAcquired f e, at)))
     else if tag = 25 then dec_next decode_u64 input at (\<lambda>f at.
       dec_next decode_i64 input at (\<lambda>e at. Inr (R_LeaseRenewed f e, at)))
     else if tag = 26 then dec_next decode_bool input at (\<lambda>b at. Inr (R_LeaseReleased b, at))
     else if tag = 27 then decode_option decode_lease_holder input at (\<lambda>h at.
       dec_next decode_u64 input at (\<lambda>f at. Inr (R_LeaseInfo h f, at)))
     else if tag = 28 then Inr (R_StreamCreated, at)
     else if tag = 29 then dec_next decode_u64 input at (\<lambda>off at. Inr (R_StreamAppended off, at))
     else if tag = 30 then dec_next decode_u32 input at (\<lambda>count at.
       if MAX_STREAM_SHARD_ENTRIES + 1 < unat count then Inl (InvalidTag ''operation-result'' 30)
       else decode_items decode_stream_entry (unat count) input at (\<lambda>es at.
         dec_next decode_u64 input at (\<lambda>next at. Inr (R_StreamEntries es next, at))))
     else if tag = 31 then dec_next decode_u64 input at (\<lambda>n at. Inr (R_StreamTrimmed n, at))
     else if tag = 32 then dec_next decode_u16 input at (\<lambda>count at.
       if MAX_TXN_KEYS < unat count then Inl (InvalidTag ''operation-result'' 32)
       else decode_items decode_version_opt (unat count) input at (\<lambda>vs at. Inr (R_TxnLocalCommitted vs, at)))
     else Inl (InvalidTag ''operation-result'' tag))"

definition decode_result :: "operation_result decoder" where
  "decode_result = (\<lambda>input. dec_next decode_u8 input 0 (\<lambda>tag at. decode_result_body tag input at))"

definition encode_outcome :: "durable_outcome \<Rightarrow> bytes option" where
  "encode_outcome d =
    (case d of
       D_Completed r \<Rightarrow> enc_seq [Some [1], encode_result r]
     | D_Rejected e \<Rightarrow> enc_seq [Some [2], encode_op_error e]
     | D_VersionExhausted \<Rightarrow> enc_seq [Some [3]])"

definition decode_outcome :: "durable_outcome decoder" where
  "decode_outcome = (\<lambda>input.
    dec_next decode_u8 input 0 (\<lambda>tag at.
      if tag = 1 then dec_next decode_result input at (\<lambda>r at. Inr (D_Completed r, at))
      else if tag = 2 then dec_next decode_op_error input at (\<lambda>e at. Inr (D_Rejected e, at))
      else if tag = 3 then Inr (D_VersionExhausted, at)
      else Inl (InvalidTag ''durable-outcome'' tag)))"

section \<open>Read-back\<close>

lemma codes_share [codes_intros]: "codes (encode_share s) decode_share s"
  unfolding encode_share_def decode_share_def
  by (rule codes_start parses_next parses_eq codes_intros | simp)+

lemma codes_version_opt [codes_intros]: "codes (encode_version_opt v) decode_version_opt v"
  unfolding encode_version_opt_def decode_version_opt_def
  by (rule codes_seq, rule parses_option_last, rule codes_intros, rule parses_done)

lemma within_share [stays_intros]: "within decode_share"
  unfolding decode_share_def by (rule stays_intros)+

lemma within_version_opt [stays_intros]: "within decode_version_opt"
  unfolding decode_version_opt_def by (rule within_body, (rule stays_intros)+)

fun result_wf :: "operation_result \<Rightarrow> bool" where
  "result_wf (R_Value v) = (case v of None \<Rightarrow> True | Some bs \<Rightarrow> length bs \<le> MAX_FRAME_BYTES)"
| "result_wf (R_ChunkedValue m _) = (length m = 32)"
| "result_wf (R_StreamEntries es _) = (length es \<le> MAX_STREAM_SHARD_ENTRIES + 1 \<and>
    list_all (\<lambda>e. length (se_partition e) \<le> MAX_FRAME_BYTES \<and> length (se_payload e) \<le> MAX_FRAME_BYTES) es)"
| "result_wf (R_TxnLocalCommitted vs) = (length vs \<le> MAX_TXN_KEYS)"
| "result_wf _ = True"

lemma parses_stream_result:
  assumes "result_wf (R_StreamEntries es next)"
  shows "parses (Some (encode_u32 (len_u32 (length es))) # map encode_stream_entry es @ [enc_u64 next])
    (decode_result_body 30) (R_StreamEntries es next)"
proof -
  have count: "unat (len_u32 (length es)) = length es"
    using assms by (intro unat_len_u32) (simp add: MAX_STREAM_SHARD_ENTRIES_def)
  have "parses (map encode_stream_entry es @ [enc_u64 next])
      (\<lambda>input at. decode_items decode_stream_entry (length es) input at (\<lambda>es at.
        dec_next decode_u64 input at (\<lambda>next at. Inr (R_StreamEntries es next, at)))) (R_StreamEntries es next)"
    using assms
    by (intro parses_items parses_next [OF codes_int(4)] parses_eq) (auto simp: list_all_iff intro: codes_stream_entry)
  then show ?thesis
    using assms by (simp add: decode_result_body_def) (rule parses_next, rule codes_int, simp add: count)
qed

lemma parses_local_result:
  assumes "result_wf (R_TxnLocalCommitted vs)"
  shows "parses (Some (encode_u16 (count_u16 (length vs))) # map encode_version_opt vs)
    (decode_result_body 32) (R_TxnLocalCommitted vs)"
proof -
  have count: "unat (count_u16 (length vs)) = length vs"
    using assms by (intro unat_count_u16) (simp add: MAX_TXN_KEYS_def)
  have "parses (map encode_version_opt vs @ [])
      (\<lambda>input at. decode_items decode_version_opt (length vs) input at (\<lambda>vs at. Inr (R_TxnLocalCommitted vs, at)))
      (R_TxnLocalCommitted vs)"
    by (intro parses_items parses_eq) (auto intro: codes_version_opt)
  then show ?thesis
    using assms by (simp add: decode_result_body_def) (rule parses_next, rule codes_int, simp add: count)
qed

lemma codes_result [codes_intros]: "result_wf r \<Longrightarrow> codes (encode_result r) decode_result r"
proof (cases r)
  case (R_StreamEntries es nx)
  then show "result_wf r \<Longrightarrow> ?thesis"
    unfolding encode_result_def decode_result_def
    by simp (rule codes_start_tag, rule parses_stream_result, simp)
next
  case (R_TxnLocalCommitted vs)
  then show "result_wf r \<Longrightarrow> ?thesis"
    unfolding encode_result_def decode_result_def
    by simp (rule codes_start_tag, rule parses_local_result, simp)
qed (simp add: encode_result_def decode_result_def, rule codes_start_tag, simp add: decode_result_body_def,
  (rule parses_next parses_option parses_option_last parses_eq codes_intros | simp)+)+

lemma stays_result [stays_intros]: "stays (decode_result_body tag)"
  unfolding decode_result_body_def by (rule stays_intros)+

lemma within_result [stays_intros]: "within decode_result"
  unfolding decode_result_def by (rule stays_intros)+

fun outcome_wf :: "durable_outcome \<Rightarrow> bool" where
  "outcome_wf (D_Completed r) = result_wf r"
| "outcome_wf _ = True"

lemma codes_outcome [codes_intros]: "outcome_wf d \<Longrightarrow> codes (encode_outcome d) decode_outcome d"
  unfolding encode_outcome_def decode_outcome_def
  by (cases d) (simp, (rule codes_start_tag parses_next parses_eq codes_intros | simp)+)+

lemma within_outcome [stays_intros]: "within decode_outcome"
  unfolding decode_outcome_def by (rule stays_intros)+

end
