(* ===== verification/Command_Codec.thy ===== *)
theory Command_Codec
  imports State_Machine Outcome_Codec Control_Codec
begin

text \<open>
  The bytes of a log entry: the mutation envelope (\<open>crates/kivi-state/src/envelope.rs\<close>), the replicated
  mutation (\<open>crates/kivi-consensus/src/mutation.rs\<close>), the read fence and the consensus command
  (\<open>command.rs\<close>) that carries one of a replicated mutation, a control mutation or a read fence.

  An encoder is \<^term>\<open>None\<close> where an assertion on the length of a blob panics.  The lemmas show that every
  well-formed command is read back exactly, and that no proper prefix of a command's bytes and no
  command with bytes behind it decodes.
\<close>

declare enc_seq.simps [simp del]

section \<open>Encoded lengths\<close>

definition txn_expect_encoded_len :: "txn_expect \<Rightarrow> nat" where
  "txn_expect_encoded_len x = (case x of Any \<Rightarrow> 1 | Absent \<Rightarrow> 1 | Version _ \<Rightarrow> 1 + 8)"

fun write_kind_encoded_len :: "txn_write_kind \<Rightarrow> nat" where
  "write_kind_encoded_len (W_Put v) = 1 + 4 + length v"
| "write_kind_encoded_len W_Delete = 1"
| "write_kind_encoded_len (W_CounterAdd _) = 1 + 8"
| "write_kind_encoded_len (W_CommutativeAdd _) = 1 + 8"
| "write_kind_encoded_len (W_BoundedAdd _) = 1 + 8"
| "write_kind_encoded_len (W_PutChunked _ _) = 1 + 32 + 8"
| "write_kind_encoded_len (W_PutFabric _ _ _) = 1 + 8 + 8 + 8"
| "write_kind_encoded_len (W_EscrowSetShare _ _) = 1 + 8 + 8"

definition txn_write_encoded_len :: "txn_write \<Rightarrow> nat" where
  "txn_write_encoded_len w =
    (4 + length (tw_key w)) + txn_expect_encoded_len (tw_expect w) + write_kind_encoded_len (tw_kind w)"

fun mutation_encoded_len :: "mutation \<Rightarrow> nat" where
  "mutation_encoded_len (M_PutBytes k v) = 1 + (4 + length k) + (4 + length v)"
| "mutation_encoded_len (M_Delete k) = 1 + (4 + length k)"
| "mutation_encoded_len (M_CounterAdd k _) = 1 + (4 + length k) + 8"
| "mutation_encoded_len (M_CommutativeAdd k _) = 1 + (4 + length k) + 8"
| "mutation_encoded_len (M_BoundedAdd k _) = 1 + (4 + length k) + 8"
| "mutation_encoded_len (M_SemaphoreCreate k _) = 1 + (4 + length k) + 8"
| "mutation_encoded_len (M_StreamTrim k _) = 1 + (4 + length k) + 8"
| "mutation_encoded_len (M_SetExpiry k e) = 1 + (4 + length k) + expiry_encoded_len e"
| "mutation_encoded_len (M_ReplaceChunkedRoot k _ _) = 1 + (4 + length k) + 32 + 8"
| "mutation_encoded_len (M_ReplaceFabricRoot k _ _ _) = 1 + (4 + length k) + 8 + 8 + 8"
| "mutation_encoded_len (M_SpliceBytes k _ p) = 1 + (4 + length k) + 8 + (4 + length p)"
| "mutation_encoded_len (M_PutBytesWithExpiry k v e) = 1 + (4 + length k) + (4 + length v) + expiry_encoded_len e"
| "mutation_encoded_len (M_ReplaceChunkedRootWithExpiry k _ _ e) = 1 + (4 + length k) + 32 + 8 + expiry_encoded_len e"
| "mutation_encoded_len (M_ReplaceFabricRootWithExpiry k _ _ _ e) =
    1 + (4 + length k) + 8 + 8 + 8 + expiry_encoded_len e"
| "mutation_encoded_len (M_TxnPrepare _ _ k x w _) =
    1 + 16 + 8 + (4 + length k) + txn_expect_encoded_len x + write_kind_encoded_len w + 32"
| "mutation_encoded_len (M_TxnFinalize _ k _ tw _) = 1 + 16 + (4 + length k) + 1 + txn_write_encoded_len tw + 32"
| "mutation_encoded_len (M_TxnCommitLocal _ ws) = 1 + 16 + 2 + sum_list (map txn_write_encoded_len ws)"
| "mutation_encoded_len (M_BoundedCreate k _ _) = 1 + (4 + length k) + 8 + 8"
| "mutation_encoded_len (M_EscrowSetShare k _ _) = 1 + (4 + length k) + 8 + 8"
| "mutation_encoded_len (M_SemaphoreAcquire k _ _ _) = 1 + (4 + length k) + 16 + 8 + 8"
| "mutation_encoded_len (M_SemaphoreRelease k _) = 1 + (4 + length k) + 16"
| "mutation_encoded_len (M_LeaseAcquire k _ _ _) = 1 + (4 + length k) + 8 + 8 + 8"
| "mutation_encoded_len (M_LeaseRenew k _ _ _) = 1 + (4 + length k) + 8 + 8 + 8"
| "mutation_encoded_len (M_LeaseRelease k _ _) = 1 + (4 + length k) + 8 + 8"
| "mutation_encoded_len (M_StreamCreate k _ _) = 1 + (4 + length k) + 16 + 4"
| "mutation_encoded_len (M_StreamAppend k part p) = 1 + (4 + length k) + (4 + length part) + (4 + length p)"

section \<open>Envelopes\<close>

datatype envelope_error = EE_UnsupportedVersion u16 | EE_OperationTooLarge nat nat

definition envelope_validate :: "mutation_envelope \<Rightarrow> envelope_error + unit" where
  "envelope_validate e =
    (if me_version e \<noteq> MUTATION_ENVELOPE_VERSION then Inl (EE_UnsupportedVersion (me_version e))
     else let len = mutation_encoded_len (me_operation e) in
       if MAX_FRAME_BYTES < len then Inl (EE_OperationTooLarge len MAX_FRAME_BYTES) else Inr ())"

definition envelope_encoded_len :: "mutation_envelope \<Rightarrow> nat" where
  "envelope_encoded_len e =
    2 + 8 + 8 + 8 + 8 + 16 + 8 + 1 + (case me_idempotency e of None \<Rightarrow> 0 | Some _ \<Rightarrow> 16) +
    mutation_encoded_len (me_operation e)"

definition encode_idempotency :: "u128 option \<Rightarrow> bytes option" where
  "encode_idempotency i =
    (case i of None \<Rightarrow> enc_seq [Some [0]] | Some k \<Rightarrow> enc_seq [Some [1], Some (encode_u128 k)])"

definition decode_idempotency :: "u128 option decoder" where
  "decode_idempotency = (\<lambda>input.
    dec_next decode_u8 input 0 (\<lambda>tag at.
      if tag = 0 then Inr (None, at)
      else if tag = 1 then dec_next decode_u128 input at (\<lambda>k at. Inr (Some k, at))
      else Inl (InvalidTag ''idempotency'' tag)))"

definition encode_envelope :: "mutation_envelope \<Rightarrow> bytes option" where
  "encode_envelope e = enc_seq
    [Some (encode_u16 (me_version e)), enc_u64 (me_namespace e), enc_u64 (me_tablet e), enc_u64 (me_epoch e),
     enc_u64 (me_guard e), Some (encode_u128 (ri_session (me_client e))), enc_u64 (ri_seq (me_client e)),
     encode_idempotency (me_idempotency e), encode_mutation (me_operation e)]"

definition decode_envelope :: "mutation_envelope decoder" where
  "decode_envelope = (\<lambda>input.
    dec_next decode_u16 input 0 (\<lambda>version at.
    dec_next decode_u64 input at (\<lambda>namespace at.
    dec_next decode_u64 input at (\<lambda>tablet at.
    dec_next decode_u64 input at (\<lambda>epoch at.
    dec_next decode_u64 input at (\<lambda>guard at.
    dec_next decode_u128 input at (\<lambda>session at.
    dec_next decode_u64 input at (\<lambda>seq at.
    dec_next decode_idempotency input at (\<lambda>idempotency at.
    dec_next decode_mutation input at (\<lambda>m at.
      Inr (\<lparr>me_version = version, me_namespace = namespace, me_tablet = tablet, me_epoch = epoch,
        me_guard = guard, me_client = \<lparr>ri_session = session, ri_seq = seq\<rparr>, me_idempotency = idempotency,
        me_operation = m\<rparr>, at)))))))))))"

section \<open>Replicated mutations\<close>

datatype replicated_mutation_error =
    RME_UnsupportedVersion u16
  | RME_Truncated
  | RME_Oversized nat nat
  | RME_BadEnvelope
  | RME_BadExpected
  | RME_TrailingBytes

definition REPLICATED_MUTATION_VERSION :: u16 where
  "REPLICATED_MUTATION_VERSION = 2"

definition push_blob :: "bytes \<Rightarrow> bytes" where
  "push_blob bs = encode_u32 (len_u32 (length bs)) @ bs"

definition take_blob :: "bytes \<Rightarrow> replicated_mutation_error + (bytes \<times> bytes)" where
  "take_blob input =
    (if length input < 4 then Inl RME_Truncated
     else let len = unat (le_at 0 4 input :: u32) in
       if length input < 4 + len then Inl (RME_Oversized len (length input))
       else Inr (take len (drop 4 input), drop (4 + len) input))"

definition encode_replicated :: "replicated_mutation \<Rightarrow> bytes option" where
  "encode_replicated r =
    (case (encode_envelope (rm_envelope r), encode_result (rm_expected r)) of
       (Some envelope, Some expected) \<Rightarrow>
         Some (encode_u16 REPLICATED_MUTATION_VERSION @ encode_i64 (rm_now r) @ encode_u64 (rm_ack_floor r) @
           push_blob envelope @ push_blob expected)
     | _ \<Rightarrow> None)"

definition decode_replicated :: "bytes \<Rightarrow> replicated_mutation_error + replicated_mutation" where
  "decode_replicated input =
    (if length input < 18 then Inl RME_Truncated
     else let version = le_at 0 2 input in
       if version \<noteq> REPLICATED_MUTATION_VERSION then Inl (RME_UnsupportedVersion version)
       else and_then (take_blob (drop 18 input)) (\<lambda>(envelope_bytes, rest).
         and_then (take_blob rest) (\<lambda>(expected_bytes, rest).
         if rest \<noteq> [] then Inl RME_TrailingBytes
         else and_then (map_err (\<lambda>_. RME_BadEnvelope) (decode_exact decode_envelope envelope_bytes)) (\<lambda>envelope.
           and_then (map_err (\<lambda>_. RME_BadExpected) (decode_exact decode_result expected_bytes)) (\<lambda>expected.
             Inr \<lparr>rm_envelope = envelope, rm_expected = expected, rm_now = le_at 2 8 input,
               rm_ack_floor = le_at 10 8 input\<rparr>)))))"

section \<open>Commands\<close>

definition CONSENSUS_COMMAND_VERSION :: u16 where
  "CONSENSUS_COMMAND_VERSION = 1"

definition ALR_FENCE_SYNC_VERSION :: u16 where
  "ALR_FENCE_SYNC_VERSION = 1"

datatype consensus_command_error =
    CCE_UnsupportedVersion u16
  | CCE_Truncated
  | CCE_BadTag u8
  | CCE_TrailingBytes
  | CCE_BadTablet
  | CCE_BadControl
  | CCE_BadSync

definition encode_fence_sync :: "alr_fence_sync \<Rightarrow> bytes" where
  "encode_fence_sync s =
    encode_u16 ALR_FENCE_SYNC_VERSION @ encode_u64 (af_tablet (afs_fence s)) @ encode_u64 (af_batch (afs_fence s)) @
    encode_u64 (af_requester (afs_fence s)) @ encode_u64 (afs_formation_applied s)"

definition decode_fence_sync :: "bytes \<Rightarrow> consensus_command_error + alr_fence_sync" where
  "decode_fence_sync input =
    (if length input < 34 then Inl CCE_Truncated
     else let version = le_at 0 2 input; body = drop 2 input in
       if version \<noteq> ALR_FENCE_SYNC_VERSION then Inl (CCE_UnsupportedVersion version)
       else if length body \<noteq> 32 then Inl (if length body < 32 then CCE_Truncated else CCE_TrailingBytes)
       else Inr \<lparr>afs_fence = \<lparr>af_tablet = le_at 0 8 body, af_batch = le_at 8 8 body, af_requester = le_at 16 8 body\<rparr>,
         afs_formation_applied = le_at 24 8 body\<rparr>)"

definition command_body :: "(socket_addr \<Rightarrow> bytes) \<Rightarrow> consensus_command \<Rightarrow> (u8 \<times> bytes) option" where
  "command_body to_str c =
    (case c of
       CC_Tablet r \<Rightarrow> map_option (Pair 0) (encode_replicated r)
     | CC_Control m \<Rightarrow> Some (1, encode_control_mutation to_str m)
     | CC_ReadSync s \<Rightarrow> Some (2, encode_fence_sync s))"

definition encode_command :: "(socket_addr \<Rightarrow> bytes) \<Rightarrow> consensus_command \<Rightarrow> bytes option" where
  "encode_command to_str c =
    map_option (\<lambda>(tag, body). encode_u16 CONSENSUS_COMMAND_VERSION @ [tag] @ body) (command_body to_str c)"

fun tablet_fault :: "replicated_mutation_error \<Rightarrow> consensus_command_error" where
  "tablet_fault RME_Truncated = CCE_Truncated"
| "tablet_fault (RME_Oversized _ _) = CCE_Truncated"
| "tablet_fault _ = CCE_BadTablet"

fun control_fault :: "control_mutation_error \<Rightarrow> consensus_command_error" where
  "control_fault CME_Truncated = CCE_Truncated"
| "control_fault (CME_Oversized _ _) = CCE_Truncated"
| "control_fault _ = CCE_BadControl"

fun sync_fault :: "consensus_command_error \<Rightarrow> consensus_command_error" where
  "sync_fault CCE_Truncated = CCE_Truncated"
| "sync_fault (CCE_UnsupportedVersion found) = CCE_UnsupportedVersion found"
| "sync_fault _ = CCE_BadSync"

definition decode_command ::
  "(bytes \<Rightarrow> socket_addr option) \<Rightarrow> bytes \<Rightarrow> consensus_command_error + consensus_command" where
  "decode_command parse input =
    (if length input < 3 then Inl CCE_Truncated
     else let version = le_at 0 2 input; tag = input ! 2; body = drop 3 input in
       if version \<noteq> CONSENSUS_COMMAND_VERSION then Inl (CCE_UnsupportedVersion version)
       else if tag = 0 then map_ok CC_Tablet (map_err tablet_fault (decode_replicated body))
       else if tag = 1 then map_ok CC_Control (map_err control_fault (decode_control_mutation parse body))
       else if tag = 2 then map_ok CC_ReadSync (map_err sync_fault (decode_fence_sync body))
       else Inl (CCE_BadTag tag))"

section \<open>Lengths\<close>

lemma enc_seq_Nil_iff: "enc_seq [] = Some bs \<longleftrightarrow> bs = []"
  by (auto simp: enc_seq.simps)

lemmas length_rules = codec_simps enc_seq_Nil_iff

lemma length_expiry: "length (encode_expiry e) = expiry_encoded_len e"
  by (simp add: encode_expiry_def expiry_encoded_len_def codec_simps split: option.splits)

lemma length_txn_expect: "encode_txn_expect x = Some bs \<Longrightarrow> length bs = txn_expect_encoded_len x"
  by (auto simp: encode_txn_expect_def txn_expect_encoded_len_def length_rules split: txn_expect.splits)

lemma length_write_kind: "encode_write_kind w = Some bs \<Longrightarrow> write_kind_wf w \<Longrightarrow> length bs = write_kind_encoded_len w"
  by (cases w) (auto simp: encode_write_kind_def length_rules)

lemma length_txn_write: "encode_txn_write w = Some bs \<Longrightarrow> txn_write_wf w \<Longrightarrow> length bs = txn_write_encoded_len w"
  by (auto simp: encode_txn_write_def txn_write_encoded_len_def txn_write_wf_def length_rules
      dest!: length_txn_expect length_write_kind)

lemma length_txn_writes:
  "enc_seq (map encode_txn_write ws) = Some bs \<Longrightarrow> list_all txn_write_wf ws \<Longrightarrow>
   length bs = sum_list (map txn_write_encoded_len ws)"
  by (induction ws arbitrary: bs) (auto simp: length_rules dest: length_txn_write)

lemma length_encode_mutation: "encode_mutation m = Some bs \<Longrightarrow> mutation_wf m \<Longrightarrow> length bs = mutation_encoded_len m"
  by (cases m) (auto simp: encode_mutation_def length_rules length_expiry
      dest!: length_txn_expect length_write_kind length_txn_write length_txn_writes)

interpretation mutation: codec mutation_wf mutation_encoded_len encode_mutation decode_mutation
  by (rule codec_from_rules) (auto intro: codes_mutation within_mutation length_encode_mutation)

section \<open>Reading envelopes back\<close>

lemma codes_idempotency [codes_intros]: "codes (encode_idempotency i) decode_idempotency i"
  unfolding encode_idempotency_def decode_idempotency_def
  by (cases i) (simp, (rule codes_start_tag parses_next parses_eq codes_intros | simp)+)+

lemma within_idempotency [stays_intros]: "within decode_idempotency"
  unfolding decode_idempotency_def by (rule stays_intros)+

lemma codes_envelope: "mutation_wf (me_operation e) \<Longrightarrow> codes (encode_envelope e) decode_envelope e"
  unfolding encode_envelope_def decode_envelope_def
  by (rule codes_start parses_next parses_eq codes_intros | simp)+

lemma within_envelope: "within decode_envelope"
  unfolding decode_envelope_def by (rule stays_intros)+

lemma length_envelope:
  "encode_envelope e = Some bs \<Longrightarrow> mutation_wf (me_operation e) \<Longrightarrow> length bs = envelope_encoded_len e"
  by (auto simp: encode_envelope_def envelope_encoded_len_def encode_idempotency_def length_rules
      dest: length_encode_mutation split: option.splits)

interpretation envelope: codec "\<lambda>e. mutation_wf (me_operation e)" envelope_encoded_len encode_envelope decode_envelope
  by (rule codec_from_rules) (auto intro: codes_envelope within_envelope length_envelope)

section \<open>Reading replicated mutations back\<close>

definition replicated_wf :: "replicated_mutation \<Rightarrow> bool" where
  "replicated_wf r \<longleftrightarrow>
    is_ok (envelope_validate (rm_envelope r)) \<and> mutation_wf (me_operation (rm_envelope r)) \<and>
    result_wf (rm_expected r) \<and> length (the (encode_result (rm_expected r))) < 2 ^ 32"

lemma take_blob_push: "length bs < 2 ^ 32 \<Longrightarrow> take_blob (push_blob bs @ rest) = Inr (bs, rest)"
  by (simp add: take_blob_def push_blob_def field_reads codec_simps unat_len_u32)

lemma take_blob_append: "take_blob input = Inr (bs, rest) \<Longrightarrow> take_blob (input @ extra) = Inr (bs, rest @ extra)"
  by (auto simp: take_blob_def Let_def le_at_def split: if_splits)

lemma codes_exact: "codes e dec x \<Longrightarrow> \<exists>bs. e = Some bs \<and> decode_exact dec bs = Inr x"
  by (auto simp: codes_def decode_exact_def dest: spec [of _ "[]"])

lemma validated_length:
  assumes "is_ok (envelope_validate e)" "mutation_wf (me_operation e)" "encode_envelope e = Some bs"
  shows "length bs < 2 ^ 32"
  using assms
  by (auto simp: envelope_validate_def Let_def length_envelope envelope_encoded_len_def MAX_FRAME_BYTES_def result_simps
      split: if_splits option.splits)

lemma le_at_i64 [field_reads]: "le_at 0 8 (encode_i64 a @ ys) = a"
  by (simp add: le_at_def encode_i64_def from_le_to_le take_bit_word_eq_self)

lemma decode_replicated_encode:
  assumes "replicated_wf r"
  shows "\<exists>bs. encode_replicated r = Some bs \<and> decode_replicated bs = Inr r"
proof -
  have parts: "is_ok (envelope_validate (rm_envelope r))" "mutation_wf (me_operation (rm_envelope r))" "result_wf (rm_expected r)"
    using assms by (simp_all add: replicated_wf_def)
  obtain e where e: "encode_envelope (rm_envelope r) = Some e" "decode_exact decode_envelope e = Inr (rm_envelope r)"
    using codes_exact [OF codes_envelope [OF parts(2)]] by blast
  obtain x where x: "encode_result (rm_expected r) = Some x" "decode_exact decode_result x = Inr (rm_expected r)"
    using codes_exact [OF codes_result [OF parts(3)]] by blast
  have "length e < 2 ^ 32" "length x < 2 ^ 32"
    using validated_length [OF parts(1,2) e(1)] assms x(1) by (simp_all add: replicated_wf_def)
  then show ?thesis
    using take_blob_push [of x "[]"]
    by (simp add: encode_replicated_def decode_replicated_def e x take_blob_push field_reads codec_simps
        REPLICATED_MUTATION_VERSION_def)
qed

section \<open>Reading commands back\<close>

fun command_wf :: "(socket_addr \<Rightarrow> bytes) \<Rightarrow> (bytes \<Rightarrow> socket_addr option) \<Rightarrow> consensus_command \<Rightarrow> bool" where
  "command_wf to_str parse (CC_Tablet r) = replicated_wf r"
| "command_wf to_str parse (CC_Control m) \<longleftrightarrow>
    control_mutation_wf to_str parse m \<and> length (snd (control_body to_str m)) < 2 ^ 32"
| "command_wf to_str parse (CC_ReadSync s) = True"

lemma decode_fence_sync_encode: "decode_fence_sync (encode_fence_sync s) = Inr s"
  by (simp add: decode_fence_sync_def encode_fence_sync_def ALR_FENCE_SYNC_VERSION_def field_reads codec_simps)

lemma decode_command_header:
  "decode_command parse (encode_u16 CONSENSUS_COMMAND_VERSION @ [tag] @ body) =
    (if tag = 0 then map_ok CC_Tablet (map_err tablet_fault (decode_replicated body))
     else if tag = 1 then map_ok CC_Control (map_err control_fault (decode_control_mutation parse body))
     else if tag = 2 then map_ok CC_ReadSync (map_err sync_fault (decode_fence_sync body))
     else Inl (CCE_BadTag tag))"
  by (simp add: decode_command_def field_reads codec_simps nth_append)

lemma decode_command_encode:
  assumes "command_wf to_str parse c"
  shows "\<exists>bs. encode_command to_str c = Some bs \<and> decode_command parse bs = Inr c"
proof (cases c)
  case (CC_Tablet r)
  then obtain bs where "encode_replicated r = Some bs" "decode_replicated bs = Inr r"
    using assms decode_replicated_encode by auto
  then show ?thesis
    using decode_command_header [of parse 0 bs] by (simp add: CC_Tablet encode_command_def command_body_def)
next
  case (CC_Control m)
  then show ?thesis
    using assms decode_command_header [of parse 1 "encode_control_mutation to_str m"]
    by (simp add: encode_command_def command_body_def decode_control_mutation_encode)
next
  case (CC_ReadSync s)
  then show ?thesis
    using decode_command_header [of parse 2 "encode_fence_sync s"]
    by (simp add: encode_command_def command_body_def decode_fence_sync_encode)
qed

text \<open>A command that decodes stops decoding when bytes are added behind it.\<close>

lemma le_at_prefix: "k + n \<le> length input \<Longrightarrow> le_at k n (input @ extra) = le_at k n input"
  by (simp add: le_at_def)

lemma decode_replicated_longer:
  assumes "decode_replicated input = Inr r" "extra \<noteq> []"
  shows "decode_replicated (input @ extra) = Inl RME_TrailingBytes"
proof -
  obtain e rest x where ok: "18 \<le> length input" "le_at 0 2 input = REPLICATED_MUTATION_VERSION"
    and blobs: "take_blob (drop 18 input) = Inr (e, rest)" "take_blob rest = Inr (x, [])"
    using assms(1) by (auto simp: decode_replicated_def Let_def result_simps split: if_splits)
  from blobs [THEN take_blob_append, of extra] show ?thesis
    using ok assms(2) by (simp add: decode_replicated_def le_at_prefix)
qed

lemma decode_control_longer:
  assumes "decode_control_mutation parse input = Inr m" "extra \<noteq> []"
  shows "decode_control_mutation parse (input @ extra) = Inl CME_TrailingBytes"
proof -
  have "7 \<le> length input" "le_at 0 2 input = CONTROL_MUTATION_VERSION"
    "length input = 7 + unat (le_at 3 4 input :: u32)"
    using assms(1) by (auto simp: decode_control_mutation_def Let_def split: if_splits)
  then show ?thesis using assms(2) by (simp add: decode_control_mutation_def le_at_prefix)
qed

lemma decode_fence_longer:
  assumes "decode_fence_sync input = Inr s" "extra \<noteq> []"
  shows "decode_fence_sync (input @ extra) = Inl CCE_TrailingBytes"
proof -
  have "length input = 34" "le_at 0 2 input = ALR_FENCE_SYNC_VERSION"
    using assms(1) by (auto simp: decode_fence_sync_def Let_def split: if_splits)
  then show ?thesis using assms(2) by (cases extra) (simp_all add: decode_fence_sync_def le_at_prefix)
qed

lemma decode_command_longer:
  assumes "decode_command parse input = Inr c" "extra \<noteq> []"
  shows "\<not> is_ok (decode_command parse (input @ extra))"
proof -
  have head: "3 \<le> length input" "le_at 0 2 input = CONSENSUS_COMMAND_VERSION"
    using assms(1) by (auto simp: decode_command_def Let_def split: if_splits)
  then consider r where "input ! 2 = 0" "decode_replicated (drop 3 input) = Inr r"
    | m where "input ! 2 = 1" "decode_control_mutation parse (drop 3 input) = Inr m"
    | s where "input ! 2 = 2" "decode_fence_sync (drop 3 input) = Inr s"
    using assms(1) by (auto simp: decode_command_def Let_def result_simps split: if_splits)
  then show ?thesis
    using head assms(2)
    by cases (simp_all add: decode_command_def le_at_prefix nth_append result_simps decode_replicated_longer
        decode_control_longer decode_fence_longer)
qed

section \<open>Properties\<close>

text \<open>C31: A well-formed consensus command, whether it carries a tablet mutation, a control mutation or a read
  fence, encodes without panicking and decodes to itself; no proper prefix of its bytes decodes, and
  neither does it with bytes behind it.\<close>

theorem command_round_trip:
  assumes "command_wf to_str parse c"
  shows "\<exists>bs. encode_command to_str c = Some bs \<and> decode_command parse bs = Inr c \<and>
    (\<forall>n. is_ok (decode_command parse (take n bs)) \<longrightarrow> length bs \<le> n) \<and>
    (\<forall>extra. is_ok (decode_command parse (bs @ extra)) \<longrightarrow> extra = [])"
proof -
  obtain bs where bs: "encode_command to_str c = Some bs" "decode_command parse bs = Inr c"
    using decode_command_encode [OF assms] by blast
  have "length bs \<le> n" if "is_ok (decode_command parse (take n bs))" for n
  proof (rule ccontr)
    assume "\<not> length bs \<le> n"
    then have "drop n bs \<noteq> []" by simp
    with that decode_command_longer [of parse "take n bs" _ "drop n bs"] bs(2) show False
      by (auto simp: result_simps)
  qed
  with bs show ?thesis using decode_command_longer [OF bs(2)] by blast
qed

definition sample_increment :: consensus_command where
  "sample_increment = CC_Tablet
    \<lparr>rm_envelope = envelope_new 1 \<lparr>auth_tablet = 9, auth_epoch = 1, auth_guard = 1\<rparr>
       \<lparr>ri_session = 0x5E55, ri_seq = 1\<rparr> None (M_CounterAdd [110] 41),
     rm_expected = R_CounterUpdated 41 7, rm_now = 1000000, rm_ack_floor = 0\<rparr>"

theorem command_round_trip_witness:
  "\<exists>bs. encode_command (\<lambda>_. []) sample_increment = Some bs \<and> decode_command (\<lambda>_. None) bs = Inr sample_increment"
proof -
  have "command_wf (\<lambda>_. []) (\<lambda>_. None) sample_increment"
    by (simp add: sample_increment_def replicated_wf_def envelope_validate_def envelope_new_def
        MUTATION_ENVELOPE_VERSION_def MAX_FRAME_BYTES_def result_simps encode_result_def enc_seq.simps codec_simps)
  from command_round_trip [OF this] show ?thesis by blast
qed

end
