(* ===== verification/Canonical_Bytes.thy ===== *)
theory Canonical_Bytes
  imports Command_Codec
begin

text \<open>
  The decoders of the data path accept canonical bytes only: what a decoder of mutations, results,
  outcomes, envelopes or replicated mutations accepts is exactly the encoding of the value it returns.  So two
  replicas that hold equal commands hold equal bytes, and a relayed command can always be encoded again.

  \<open>canon\<close> states this of a decoder and \<open>emits\<close> of a decoder's body behind the parts it has read;
  the rules follow the shape of the decoders.
\<close>

declare enc_seq.simps [simp del]

section \<open>The calculus\<close>

definition canon :: "('a \<Rightarrow> bytes option) \<Rightarrow> 'a decoder \<Rightarrow> bool" where
  "canon enc dec \<longleftrightarrow>
    (\<forall>input x n. dec input = Inr (x, n) \<longrightarrow> n \<le> length input \<and> enc x = Some (take n input))"

definition emits ::
  "('a \<Rightarrow> bytes option) \<Rightarrow> bytes option list \<Rightarrow> (bytes \<Rightarrow> nat \<Rightarrow> codec_error + ('a \<times> nat)) \<Rightarrow> bool" where
  "emits enc pre body \<longleftrightarrow>
    (\<forall>input at x n p. at \<le> length input \<longrightarrow> enc_seq pre = Some p \<longrightarrow> body input at = Inr (x, n) \<longrightarrow>
      at \<le> n \<and> n \<le> length input \<and> enc x = Some (p @ take (n - at) (drop at input)))"

lemma canonD: "canon enc dec \<Longrightarrow> dec input = Inr (x, n) \<Longrightarrow> n \<le> length input \<and> enc x = Some (take n input)"
  by (simp add: canon_def)

lemma emitsD:
  "emits enc pre body \<Longrightarrow> at \<le> length input \<Longrightarrow> enc_seq pre = Some p \<Longrightarrow> body input at = Inr (x, n) \<Longrightarrow>
   at \<le> n \<and> n \<le> length input \<and> enc x = Some (p @ take (n - at) (drop at input))"
  unfolding emits_def by blast

lemma emits_done: "enc x = enc_seq pre \<Longrightarrow> emits enc pre (\<lambda>input at. Inr (x, at))"
  by (simp add: emits_def)

lemma emits_error: "emits enc pre (\<lambda>input at. Inl e)"
  by (simp add: emits_def)

lemma emits_if:
  "(c \<Longrightarrow> emits enc pre f) \<Longrightarrow> (\<not> c \<Longrightarrow> emits enc pre g) \<Longrightarrow>
   emits enc pre (\<lambda>input at. if c then f input at else g input at)"
  by (cases c) simp_all

lemma enc_seq_append:
  "enc_seq ps = Some p \<Longrightarrow> enc_seq qs = Some q \<Longrightarrow> enc_seq (ps @ qs) = Some (p @ q)"
  by (induction ps arbitrary: p) (auto simp: enc_seq.simps enc_seq_Cons_eq_Some_iff)

lemma emits_next:
  assumes dec: "canon e dec" and k: "\<And>v. emits enc (pre @ [e v]) (k v)"
  shows "emits enc pre (\<lambda>input at. dec_next dec input at (\<lambda>v at'. k v input at'))"
proof (unfold emits_def, intro allI impI)
  fix input at x n p
  assume at: "at \<le> length input" and p: "enc_seq pre = Some p"
    and run: "dec_next dec input at (\<lambda>v at'. k v input at') = Inr (x, n)"
  obtain v m where v: "dec (drop at input) = Inr (v, m)" and cont: "k v input (at + m) = Inr (x, n)"
    using run by (auto simp: dec_next_Inr_iff)
  have m: "m \<le> length (drop at input)" "e v = Some (take m (drop at input))"
    using canonD [OF dec v] by auto
  have pre: "enc_seq (pre @ [e v]) = Some (p @ take m (drop at input))"
    using enc_seq_append [OF p, of "[e v]"] m(2) by (simp add: enc_seq.simps)
  have "at + m \<le> n \<and> n \<le> length input \<and>
      enc x = Some ((p @ take m (drop at input)) @ take (n - (at + m)) (drop (at + m) input))"
    using emitsD [OF k _ pre cont] m(1) at by simp
  moreover from this have "n - at = m + (n - (at + m))" by simp
  then have "take (n - at) (drop at input) =
      take m (drop at input) @ take (n - (at + m)) (drop (at + m) input)"
    by (metis take_add drop_drop add.commute)
  ultimately show "at \<le> n \<and> n \<le> length input \<and> enc x = Some (p @ take (n - at) (drop at input))" by simp
qed

lemma canon_body: "emits enc [] body \<Longrightarrow> canon enc (\<lambda>input. body input 0)"
  using emitsD [of enc "[]" body 0] by (auto simp: canon_def enc_seq.simps)

lemma canon_start:
  "canon e dec \<Longrightarrow> (\<And>v. emits enc [e v] (k v)) \<Longrightarrow> canon enc (\<lambda>input. dec_next dec input 0 (\<lambda>v at. k v input at))"
  using canon_body [OF emits_next [of e dec enc "[]" k]] by simp

lemma emits_items:
  assumes "canon e dec" "\<And>vs. length vs = m \<Longrightarrow> emits enc (pre @ map e vs) (k vs)"
  shows "emits enc pre (\<lambda>input at. decode_items dec m input at (\<lambda>vs at'. k vs input at'))"
  using assms(2)
proof (induction m arbitrary: pre k)
  case (Suc m)
  have "emits enc (pre @ [e v]) (\<lambda>input at. decode_items dec m input at (\<lambda>vs at'. k (v # vs) input at'))" for v
    using Suc.prems [of "v # vs" for vs] by (intro Suc.IH) simp
  then show ?case by (auto intro: emits_next [OF assms(1)])
qed (use assms(2) in simp)

section \<open>Primitive decoders\<close>

named_theorems canon_intros \<open>decoders that accept canonical bytes only\<close>

lemma canon_chunk [canon_intros]: "canon Some (decode_chunk n)"
  by (auto simp: canon_def decode_chunk_def split: if_splits)

lemma canon_word:
  "8 * n = LENGTH('a::len) \<Longrightarrow>
   canon (\<lambda>x. Some (to_le n (x :: 'a word))) (\<lambda>input. map_ok (\<lambda>(bs, n). (from_le bs, n)) (decode_chunk n input))"
proof (unfold canon_def, intro allI impI)
  fix input x m
  assume size: "8 * n = LENGTH('a)" and run: "map_ok (\<lambda>(bs, n). (from_le bs, n)) (decode_chunk n input) = Inr (x :: 'a word, m)"
  have x: "n \<le> length input" "x = from_le (take n input)" "m = n"
    using run by (auto simp: decode_chunk_def result_simps split: if_splits)
  then have "to_le n x = take n input"
    using to_le_from_le [of "take n input", where 'a = 'a] size by (simp add: min_absorb2)
  then show "m \<le> length input \<and> Some (to_le n x) = Some (take m input)" using x by simp
qed

lemma canon_int [canon_intros]:
  "canon (\<lambda>x. Some (encode_u16 x)) decode_u16" "canon (\<lambda>x. Some (encode_u32 x)) decode_u32"
  "canon (\<lambda>x. Some (encode_u64 x)) decode_u64" "canon (\<lambda>x. Some (encode_i64 x)) decode_i64"
  "canon (\<lambda>x. Some (encode_u128 x)) decode_u128"
  using canon_word [of 2, where 'a = 16] canon_word [of 4, where 'a = 32] canon_word [of 8, where 'a = 64]
    canon_word [of 16, where 'a = 128]
  by (simp_all add: encode_u16_def encode_u32_def encode_u64_def encode_i64_def encode_u128_def decode_u16_def [abs_def]
      decode_u32_def [abs_def] decode_u64_def [abs_def] decode_i64_def [abs_def] decode_u128_def [abs_def])

lemma canon_tag [canon_intros]: "canon (\<lambda>t. Some [t]) decode_u8"
  by (auto simp: canon_def decode_u8_def split: list.splits)

lemma canon_bool [canon_intros]: "canon (\<lambda>b. Some (encode_bool b)) decode_bool"
  by (auto simp: canon_def decode_bool_def decode_u8_def encode_bool_def split: list.splits if_splits)

lemma canon_blob [canon_intros]: "canon encode_bytes decode_byte_vec"
proof (unfold canon_def, intro allI impI)
  fix input x n
  assume "decode_byte_vec input = Inr (x, n)"
  then obtain len where len: "decode_u32 input = Inr (len, 4)" and x: "x = take (unat len) (drop 4 input)"
    and n: "n = 4 + unat len" "n \<le> length input" "unat len \<le> MAX_FRAME_BYTES"
    by (auto simp: decode_byte_vec_def decode_byte_slice_def decode_u32_def decode_chunk_def result_simps Let_def
        split: if_splits)
  have "encode_u32 len = take 4 input" using canonD [OF canon_int(2) len] by simp
  moreover have "length x = unat len" using x n by simp
  ultimately show "n \<le> length input \<and> encode_bytes x = Some (take n input)"
    using n x by (simp add: encode_bytes_def take_add)
qed

lemma canon_expiry [canon_intros]: "canon (\<lambda>e. Some (encode_expiry e)) decode_expiry"
proof -
  have "canon (\<lambda>e. Some (encode_expiry e)) (\<lambda>input. dec_next decode_u8 input 0 (\<lambda>tag at.
      if tag = 0 then Inr (None, at)
      else if tag = 1 then dec_next decode_i64 input at (\<lambda>at at2. Inr (Some at, at2))
      else Inl (InvalidTag ''expiry'' tag)))"
    by (rule canon_start canon_intros emits_if emits_next emits_error emits_done
        | simp add: encode_expiry_def enc_seq.simps)+
  then show ?thesis by (simp add: decode_expiry_def [abs_def])
qed

section \<open>Optional parts\<close>

lemma emits_option:
  assumes "canon e dec" "\<And>v. emits enc (pre @ encode_option e v) (k v)"
  shows "emits enc pre (\<lambda>input at. decode_option dec input at (\<lambda>v at. k v input at))"
  unfolding decode_option_def
proof (rule emits_next [OF canon_bool], rule emits_if)
  fix present
  assume present
  have "emits enc (pre @ [Some (encode_bool present)] @ [e v]) (k (Some v))" for v
    using assms(2) [of "Some v"] \<open>present\<close> by (simp add: encode_option_def encode_bool_def)
  then show "emits enc (pre @ [Some (encode_bool present)]) (\<lambda>input at. dec_next dec input at (\<lambda>v at. k (Some v) input at))"
    by (intro emits_next [OF assms(1)]) simp
next
  fix present
  assume "\<not> present"
  then show "emits enc (pre @ [Some (encode_bool present)]) (\<lambda>input at. k None input at)"
    using assms(2) [of None] by (simp add: encode_option_def encode_bool_def)
qed

section \<open>Mutations\<close>

lemma canon_txn_expect [canon_intros]: "canon encode_txn_expect decode_txn_expect"
  unfolding decode_txn_expect_def
  by (rule canon_start canon_intros emits_if emits_next emits_error emits_done | simp add: encode_txn_expect_def)+

lemma canon_write_kind [canon_intros]: "canon encode_write_kind decode_write_kind"
  unfolding decode_write_kind_def
  by (rule canon_start canon_intros emits_if emits_next emits_error emits_done | simp add: encode_write_kind_def)+

lemma canon_txn_write [canon_intros]: "canon encode_txn_write decode_txn_write"
  unfolding decode_txn_write_def
  by (rule canon_start canon_intros emits_if emits_next emits_error emits_done | simp add: encode_txn_write_def)+

lemma emits_keyed: "emits encode_mutation [Some [tag], encode_bytes k] (decode_keyed_mutation tag k)"
  unfolding decode_keyed_mutation_def
  by (rule canon_intros emits_if emits_next emits_error emits_done | simp add: encode_mutation_def)+

lemma count_u16_unat: "count_u16 (unat c) = c"
  using unsigned_less [of c, where 'a = nat] by (simp add: count_u16_def)

lemma len_u32_unat: "len_u32 (unat c) = c"
  using unsigned_less [of c, where 'a = nat] by (simp add: len_u32_def)

lemma canon_mutation [canon_intros]: "canon encode_mutation decode_mutation"
  unfolding decode_mutation_def
  by (rule canon_start canon_intros emits_if emits_items emits_next emits_error emits_keyed [simplified] emits_done
      | simp add: encode_mutation_def count_u16_unat | rule emits_keyed)+

section \<open>Results and outcomes\<close>

lemma canon_object_type [canon_intros]: "canon encode_object_type decode_object_type"
  unfolding decode_object_type_def
  by (rule canon_start canon_intros emits_if emits_next emits_error emits_done | simp add: encode_object_type_def)+

lemma canon_op_error [canon_intros]: "canon encode_op_error decode_op_error"
  unfolding decode_op_error_def
  by (rule canon_start canon_intros emits_if emits_next emits_error emits_done | simp add: encode_op_error_def)+

lemma canon_share [canon_intros]: "canon encode_share decode_share"
  unfolding decode_share_def
  by (rule canon_start canon_intros emits_next emits_done | simp add: encode_share_def)+

lemma canon_version_opt [canon_intros]: "canon encode_version_opt decode_version_opt"
  unfolding decode_version_opt_def
  by (rule canon_body, rule emits_option, rule canon_intros, rule emits_done) (simp add: encode_version_opt_def)

lemma canon_lease_holder [canon_intros]: "canon encode_lease_holder decode_lease_holder"
  unfolding decode_lease_holder_def
  by (rule canon_start canon_intros emits_next emits_done | simp add: encode_lease_holder_def)+

lemma canon_stream_entry [canon_intros]: "canon encode_stream_entry decode_stream_entry"
  unfolding decode_stream_entry_def
  by (rule canon_start canon_intros emits_next emits_done | simp add: encode_stream_entry_def)+

lemma emits_result: "emits encode_result [Some [tag]] (decode_result_body tag)"
  unfolding decode_result_body_def
  by (rule canon_intros emits_if emits_items emits_option emits_next emits_error emits_done
      | simp add: encode_result_def count_u16_unat len_u32_unat)+

lemma canon_result [canon_intros]: "canon encode_result decode_result"
  unfolding decode_result_def by (rule canon_start, rule canon_intros, rule emits_result)

lemma canon_outcome [canon_intros]: "canon encode_outcome decode_outcome"
  unfolding decode_outcome_def
  by (rule canon_start canon_intros emits_if emits_next emits_error emits_done | simp add: encode_outcome_def)+

section \<open>Envelopes and commands\<close>

lemma canon_idempotency [canon_intros]: "canon encode_idempotency decode_idempotency"
  unfolding decode_idempotency_def
  by (rule canon_start canon_intros emits_if emits_next emits_error emits_done | simp add: encode_idempotency_def)+

lemma canon_envelope: "canon encode_envelope decode_envelope"
  unfolding decode_envelope_def
  by (rule canon_start canon_intros emits_next emits_done | simp add: encode_envelope_def)+

lemma canon_exact: "canon enc dec \<Longrightarrow> decode_exact dec input = Inr x \<Longrightarrow> enc x = Some input"
  by (auto simp: decode_exact_def result_simps dest: canonD split: if_splits)

text \<open>Fields at fixed offsets.\<close>

lemma encode_le_at:
  "2 \<le> length input \<Longrightarrow> encode_u16 (le_at 0 2 input) = take 2 input"
  "4 \<le> length input \<Longrightarrow> encode_u32 (le_at 0 4 input) = take 4 input"
  "k + 8 \<le> length input \<Longrightarrow> encode_u64 (le_at k 8 input) = take 8 (drop k input)"
  "k + 8 \<le> length input \<Longrightarrow> encode_i64 (le_at k 8 input) = take 8 (drop k input)"
  using to_le_from_le [of "take 2 input", where 'a = 16] to_le_from_le [of "take 4 input", where 'a = 32]
    to_le_from_le [of "take 8 (drop k input)", where 'a = 64]
  by (simp_all add: encode_u16_def encode_u32_def encode_u64_def encode_i64_def le_at_def min_absorb2)

lemma take_blob_canon: "take_blob input = Inr (bs, rest) \<Longrightarrow> push_blob bs @ rest = input"
proof -
  assume run: "take_blob input = Inr (bs, rest)"
  let ?len = "le_at 0 4 input :: u32"
  have fields: "4 + unat ?len \<le> length input" "bs = take (unat ?len) (drop 4 input)" "rest = drop (4 + unat ?len) input"
    using run by (auto simp: take_blob_def Let_def split: if_splits)
  then have "push_blob bs = take 4 input @ take (unat ?len) (drop 4 input)"
    using encode_le_at(2) [of input] by (simp add: push_blob_def min_absorb2 len_u32_unat)
  also have "\<dots> = take (4 + unat ?len) input" by (simp add: take_add)
  finally show ?thesis using fields(3) by simp
qed

lemma split_header: "take 2 input @ take 8 (drop 2 input) @ take 8 (drop 10 input) @ drop 18 input = input"
proof -
  have "take 18 input = take 2 input @ take 8 (drop 2 input) @ take 8 (drop 10 input)"
    using take_add [of 2 16 input] take_add [of 8 8 "drop 2 input"] by simp
  then show ?thesis by (metis append.assoc append_take_drop_id)
qed

lemma decode_replicated_canon:
  assumes "decode_replicated input = Inr r"
  shows "encode_replicated r = Some input"
proof -
  obtain e x rest where len: "18 \<le> length input" and version: "le_at 0 2 input = REPLICATED_MUTATION_VERSION"
    and blobs: "take_blob (drop 18 input) = Inr (e, rest)" "take_blob rest = Inr (x, [])"
    and r: "decode_exact decode_envelope e = Inr (rm_envelope r)" "decode_exact decode_result x = Inr (rm_expected r)"
      "rm_now r = le_at 2 8 input" "rm_ack_floor r = le_at 10 8 input"
    using assms by (auto simp: decode_replicated_def Let_def result_simps split: if_splits)
  have "push_blob e @ push_blob x = drop 18 input"
    using take_blob_canon [OF blobs(1)] take_blob_canon [OF blobs(2)] by simp
  moreover have "encode_u16 REPLICATED_MUTATION_VERSION = take 2 input"
    using encode_le_at(1) [of input] len version by simp
  ultimately show ?thesis
    using len split_header [of input] canon_exact [OF canon_envelope r(1)] canon_exact [OF canon_result r(2)]
    by (simp add: encode_replicated_def r(3,4) encode_le_at)
qed

lemma decode_fence_sync_canon:
  assumes "decode_fence_sync input = Inr s"
  shows "encode_fence_sync s = input"
proof -
  have len: "length input = 34" and version: "le_at 0 2 input = ALR_FENCE_SYNC_VERSION"
    and s: "af_tablet (afs_fence s) = le_at 0 8 (drop 2 input)" "af_batch (afs_fence s) = le_at 8 8 (drop 2 input)"
      "af_requester (afs_fence s) = le_at 16 8 (drop 2 input)" "afs_formation_applied s = le_at 24 8 (drop 2 input)"
    using assms by (auto simp: decode_fence_sync_def Let_def split: if_splits)
  have "encode_u16 ALR_FENCE_SYNC_VERSION = take 2 input" using encode_le_at(1) [of input] len version by simp
  moreover have "take 8 (drop 18 input) @ take 8 (drop 26 input) = drop 18 input"
    using take_add [of 8 8 "drop 18 input"] len by simp
  ultimately show ?thesis
    using len split_header [of input] by (simp add: encode_fence_sync_def s encode_le_at)
qed

section \<open>Properties\<close>

text \<open>C32: The command decoder accepts canonical bytes only: whenever it returns a tablet command or a read
  fence, encoding that command again gives exactly the bytes it was read from.\<close>

theorem accepted_commands_canonical:
  assumes "decode_command parse input = Inr c" "\<not> (\<exists>m. c = CC_Control m)"
  shows "encode_command to_str c = Some input"
proof -
  have head: "3 \<le> length input" "le_at 0 2 input = CONSENSUS_COMMAND_VERSION"
    using assms(1) by (auto simp: decode_command_def Let_def split: if_splits)
  have split: "encode_u16 CONSENSUS_COMMAND_VERSION @ [input ! 2] @ drop 3 input = input"
    using encode_le_at(1) [of input] id_take_nth_drop [of 2 input] head by (simp add: eval_nat_numeral)
  consider r where "input ! 2 = 0" "c = CC_Tablet r" "decode_replicated (drop 3 input) = Inr r"
    | s where "input ! 2 = 2" "c = CC_ReadSync s" "decode_fence_sync (drop 3 input) = Inr s"
    using assms head by (auto simp: decode_command_def Let_def result_simps split: if_splits)
  then show ?thesis
    using split
    by cases (simp_all add: encode_command_def command_body_def decode_replicated_canon decode_fence_sync_canon)
qed

definition sample_fence :: alr_fence_sync where
  "sample_fence = \<lparr>afs_fence = \<lparr>af_tablet = 9, af_batch = 4, af_requester = 2\<rparr>, afs_formation_applied = 7\<rparr>"

definition sample_fence_bytes :: bytes where
  "sample_fence_bytes = [1, 0, 2, 1, 0, 9, 0, 0, 0, 0, 0, 0, 0, 4, 0, 0, 0, 0, 0, 0, 0, 2, 0, 0, 0, 0, 0, 0, 0,
    7, 0, 0, 0, 0, 0, 0, 0]"

theorem accepted_commands_canonical_witness:
  "encode_command (\<lambda>_. []) (CC_ReadSync sample_fence) = Some sample_fence_bytes"
proof (rule accepted_commands_canonical)
  show "decode_command (\<lambda>_. None) sample_fence_bytes = Inr (CC_ReadSync sample_fence)"
    by (simp add: decode_command_def decode_fence_sync_def le_at_def sample_fence_bytes_def sample_fence_def
        CONSENSUS_COMMAND_VERSION_def ALR_FENCE_SYNC_VERSION_def)
qed simp

end
