(* ===== verification/Index_Keys.thy ===== *)
theory Index_Keys
  imports Codec_Rules Objects "HOL-Library.Sublist"
begin

text \<open>
  The keys of secondary indexes (\<open>crates/kivi-state/src/index.rs\<close>): escaped fields, entry keys of
  non-unique and unique indexes, term prefixes and their successors, projection keys, entry values and
  the projection record.

  The lemmas show that decoding inverts encoding exactly, that the encoding preserves the order of
  (index, term, primary), and that the range from a prefix to its successor is the set of keys with
  that prefix.
\<close>

section \<open>Escaped fields\<close>

definition INDEX_FORMAT_TAG :: bytes where
  "INDEX_FORMAT_TAG = [75, 73, 86, 73, 45, 73, 68, 88, 49]"

definition INDEX_ENCODING_VERSION :: u16 where
  "INDEX_ENCODING_VERSION = 1"

type_synonym index_id = u64

datatype index_kind = NonUnique | Unique

datatype index_codec_error = IC_NotAnIndexKey | IC_Truncated

fun push_escaped :: "bytes \<Rightarrow> bytes" where
  "push_escaped [] = [0]"
| "push_escaped (b # field) = (if b = 0 then 0 # 0xFF # push_escaped field else b # push_escaped field)"

text \<open>The position of the code is the rest of the input.\<close>

fun take_escaped :: "bytes \<Rightarrow> index_codec_error + (bytes \<times> bytes)" where
  "take_escaped [] = Inl IC_Truncated"
| "take_escaped (b # input) =
    (if b \<noteq> 0 then map_ok (\<lambda>(field, rest). (b # field, rest)) (take_escaped input)
     else case input of
       [] \<Rightarrow> Inr ([], [])
     | c # input' \<Rightarrow>
         if c = 0xFF then map_ok (\<lambda>(field, rest). (0 # field, rest)) (take_escaped input')
         else Inr ([], c # input'))"

section \<open>Keys\<close>

definition to_be :: "u64 \<Rightarrow> bytes" where
  "to_be w = rev (to_le 8 w)"

definition from_be :: "bytes \<Rightarrow> u64" where
  "from_be bs = from_le (rev bs)"

definition term_prefix :: "index_id \<Rightarrow> bytes \<Rightarrow> bytes" where
  "term_prefix index tm = INDEX_FORMAT_TAG @ to_be index @ [0] @ push_escaped tm"

definition encode_non_unique_key :: "index_id \<Rightarrow> bytes \<Rightarrow> bytes \<Rightarrow> bytes" where
  "encode_non_unique_key index tm primary =
    INDEX_FORMAT_TAG @ to_be index @ [0] @ push_escaped tm @ push_escaped primary"

definition encode_unique_key :: "index_id \<Rightarrow> bytes \<Rightarrow> bytes" where
  "encode_unique_key index tm = INDEX_FORMAT_TAG @ to_be index @ [0] @ push_escaped tm"

text \<open>The loop pops from the end; here the list is reversed first.\<close>

fun prefix_successor_rev :: "bytes \<Rightarrow> bytes option" where
  "prefix_successor_rev [] = None"
| "prefix_successor_rev (b # bs) = (if b \<noteq> 0xFF then Some (rev ((b + 1) # bs)) else prefix_successor_rev bs)"

definition prefix_successor :: "bytes \<Rightarrow> bytes option" where
  "prefix_successor p = prefix_successor_rev (rev p)"

definition index_header :: "bytes \<Rightarrow> bool" where
  "index_header input \<longleftrightarrow> \<not> (length input < 18 \<or> take 9 input \<noteq> INDEX_FORMAT_TAG \<or> input ! 17 \<noteq> 0)"

definition header_index :: "bytes \<Rightarrow> index_id" where
  "header_index input = from_be (take 8 (drop 9 input))"

definition term_prefix_parts :: "bytes \<Rightarrow> (index_id \<times> bytes) option" where
  "term_prefix_parts input =
    (if \<not> index_header input then None
     else case take_escaped (drop 18 input) of
       Inl _ \<Rightarrow> None
     | Inr (tm, rest) \<Rightarrow> if rest \<noteq> [] then None else Some (header_index input, tm))"

definition decode_non_unique_key :: "bytes \<Rightarrow> index_codec_error + (index_id \<times> bytes \<times> bytes)" where
  "decode_non_unique_key input =
    (if \<not> index_header input then Inl IC_NotAnIndexKey
     else and_then (take_escaped (drop 18 input)) (\<lambda>(tm, at).
       and_then (take_escaped at) (\<lambda>(primary, rest).
         if rest \<noteq> [] then Inl IC_NotAnIndexKey else Inr (header_index input, tm, primary))))"

definition encode_non_unique_value :: "object_version \<Rightarrow> bytes" where
  "encode_non_unique_value version = to_be version"

definition encode_unique_value :: "object_version \<Rightarrow> bytes \<Rightarrow> bytes" where
  "encode_unique_value version primary = to_be version @ primary"

definition decode_entry_value :: "bytes \<Rightarrow> index_codec_error + (object_version \<times> bytes)" where
  "decode_entry_value input =
    (if length input < 8 then Inl IC_Truncated else Inr (from_be (take 8 input), drop 8 input))"

definition PROJECTION_PREFIX :: bytes where
  "PROJECTION_PREFIX = [107, 105, 118, 105, 47, 112, 114, 111, 106, 47]"

definition projection_key :: "bytes \<Rightarrow> key" where
  "projection_key primary = 0xFF # PROJECTION_PREFIX @ primary"

definition parse_projection_primary :: "bytes \<Rightarrow> bytes option" where
  "parse_projection_primary k =
    (if length k \<le> 11 \<or> k ! 0 \<noteq> 0xFF \<or> take 10 (drop 1 k) \<noteq> PROJECTION_PREFIX then None
     else Some (drop 11 k))"

definition parse_index_primary :: "bytes \<Rightarrow> bytes option" where
  "parse_index_primary k =
    (case decode_non_unique_key k of Inl _ \<Rightarrow> None | Inr (_, _, primary) \<Rightarrow> Some primary)"

definition is_index_key :: "bytes \<Rightarrow> bool" where
  "is_index_key k \<longleftrightarrow> 9 \<le> length k \<and> take 9 k = INDEX_FORMAT_TAG"

section \<open>Projection records\<close>

type_synonym index_projections = "(index_id, bytes list) bmap"

definition encode_term :: "bytes \<Rightarrow> bytes" where
  "encode_term tm = to_le 4 (len_u32 (length tm)) @ tm"

definition encode_projection :: "index_id \<times> bytes list \<Rightarrow> bytes" where
  "encode_projection e = to_le 8 (fst e) @ to_le 4 (len_u32 (length (snd e))) @ concat (map encode_term (snd e))"

definition projections_encode :: "index_projections \<Rightarrow> bytes" where
  "projections_encode ps =
    to_le 2 INDEX_ENCODING_VERSION @ to_le 4 (len_u32 (length ps)) @ concat (map encode_projection ps)"

definition take_u32 :: "bytes \<Rightarrow> index_codec_error + (u32 \<times> bytes)" where
  "take_u32 input = (if length input < 4 then Inl IC_Truncated else Inr (from_le (take 4 input), drop 4 input))"

fun decode_terms :: "nat \<Rightarrow> bytes \<Rightarrow> index_codec_error + (bytes list \<times> bytes)" where
  "decode_terms 0 input = Inr ([], input)"
| "decode_terms (Suc n) input =
    and_then (take_u32 input) (\<lambda>(len, rest).
      if length rest < unat len then Inl IC_Truncated
      else map_ok (\<lambda>(tms, rest'). (take (unat len) rest # tms, rest')) (decode_terms n (drop (unat len) rest)))"

fun decode_projections :: "nat \<Rightarrow> index_projections \<Rightarrow> bytes \<Rightarrow> index_codec_error + (index_projections \<times> bytes)" where
  "decode_projections 0 ps input = Inr (ps, input)"
| "decode_projections (Suc n) ps input =
    (if length input < 8 then Inl IC_Truncated
     else and_then (take_u32 (drop 8 input)) (\<lambda>(count, rest).
       and_then (decode_terms (unat count) rest) (\<lambda>(tms, rest').
         decode_projections n (bt_insert (from_le (take 8 input)) tms ps) rest')))"

definition projections_decode :: "bytes \<Rightarrow> index_codec_error + index_projections" where
  "projections_decode input =
    (if length input < 2 then Inl IC_Truncated
     else if (from_le (take 2 input) :: u16) \<noteq> INDEX_ENCODING_VERSION then Inl IC_NotAnIndexKey
     else and_then (take_u32 (drop 2 input)) (\<lambda>(indexes, rest).
       and_then (decode_projections (unat indexes) [] rest) (\<lambda>(ps, rest').
         if rest' \<noteq> [] then Inl IC_NotAnIndexKey else Inr ps)))"

section \<open>Decoding inverts encoding\<close>

lemma push_escaped_not_Nil [simp]: "push_escaped field \<noteq> []"
  by (cases field) auto

lemma take_escaped_push:
  "\<not> key_is_system rest \<Longrightarrow> take_escaped (push_escaped field @ rest) = Inr (field, rest)"
  by (induction field) (auto simp: key_is_system_def SYSTEM_PREFIX_def split: list.splits)

lemma take_escaped_canonical:
  "take_escaped input = Inr (field, rest) \<Longrightarrow> input = push_escaped field @ rest \<and> \<not> key_is_system rest"
proof (induction input arbitrary: field rule: take_escaped.induct)
  case (2 b input)
  then show ?case
    by (cases input) (auto simp: key_is_system_def SYSTEM_PREFIX_def result_simps split: if_splits)
qed simp

lemma take_escaped_iff:
  "take_escaped input = Inr (field, rest) \<longleftrightarrow> input = push_escaped field @ rest \<and> \<not> key_is_system rest"
  using take_escaped_canonical take_escaped_push by blast

lemma key_is_system_Nil [simp]: "\<not> key_is_system []"
  by (simp add: key_is_system_def)

lemma key_is_system_push [simp]: "key_is_system (push_escaped field) = key_is_system field"
  by (cases field) (auto simp: key_is_system_def SYSTEM_PREFIX_def)

lemma length_to_be [simp]: "length (to_be w) = 8"
  by (simp add: to_be_def)

lemma from_be_to_be [simp]: "from_be (to_be w) = w"
  by (simp add: from_be_def to_be_def from_le_to_le take_bit_word_eq_self)

lemma length_INDEX_FORMAT_TAG [simp]: "length INDEX_FORMAT_TAG = 9"
  by (simp add: INDEX_FORMAT_TAG_def)

text \<open>What the decoders accept as a header is what the encoders write.\<close>

lemma to_be_from_be: "length bs = 8 \<Longrightarrow> to_be (from_be bs) = bs"
  using to_le_from_le [of "rev bs", where 'a = 64] by (simp add: to_be_def from_be_def)

lemma index_header_iff:
  "index_header input \<longleftrightarrow> input = INDEX_FORMAT_TAG @ to_be (header_index input) @ [0] @ drop 18 input"
proof
  assume header: "index_header input"
  have "drop 17 input = input ! 17 # drop 18 input"
    using header Cons_nth_drop_Suc [of 17 input] by (simp add: index_header_def)
  then have "input = take 9 input @ take 8 (drop 9 input) @ [input ! 17] @ drop 18 input"
    using append_take_drop_id [of 9 input] append_take_drop_id [of 8 "drop 9 input"] by simp
  moreover have "to_be (header_index input) = take 8 (drop 9 input)"
    using header unfolding header_index_def by (intro to_be_from_be) (auto simp: index_header_def)
  ultimately show "input = INDEX_FORMAT_TAG @ to_be (header_index input) @ [0] @ drop 18 input"
    using header by (simp add: index_header_def)
next
  assume eq: "input = INDEX_FORMAT_TAG @ to_be (header_index input) @ [0] @ drop 18 input"
  have "length input = 18 + (length input - 18)" using arg_cong [OF eq, of length] by simp
  then show "index_header input"
    by (subst eq) (simp add: index_header_def nth_append)
qed

lemma index_header_append [simp]:
  "index_header (INDEX_FORMAT_TAG @ to_be index @ 0 # rest)"
  "header_index (INDEX_FORMAT_TAG @ to_be index @ 0 # rest) = index"
  "drop 18 (INDEX_FORMAT_TAG @ to_be index @ 0 # rest) = rest"
  by (simp_all add: index_header_def header_index_def nth_append)

lemma decode_non_unique_iff:
  "decode_non_unique_key input = Inr (index, tm, primary) \<longleftrightarrow>
    input = encode_non_unique_key index tm primary \<and> \<not> key_is_system primary"
proof
  assume "decode_non_unique_key input = Inr (index, tm, primary)"
  then obtain at where header: "index_header input" "header_index input = index"
      and parts: "take_escaped (drop 18 input) = Inr (tm, at)" "take_escaped at = Inr (primary, [])"
    by (auto simp: decode_non_unique_key_def result_simps split: if_splits)
  have "drop 18 input = push_escaped tm @ push_escaped primary" "\<not> key_is_system primary"
    using take_escaped_canonical [OF parts(1)] take_escaped_canonical [OF parts(2)] by auto
  then show "input = encode_non_unique_key index tm primary \<and> \<not> key_is_system primary"
    using header index_header_iff [of input] by (simp add: encode_non_unique_key_def)
next
  assume "input = encode_non_unique_key index tm primary \<and> \<not> key_is_system primary"
  then show "decode_non_unique_key input = Inr (index, tm, primary)"
    using take_escaped_push [of "push_escaped primary" tm] take_escaped_push [of "[]" primary]
    by (simp add: encode_non_unique_key_def decode_non_unique_key_def)
qed

lemma term_prefix_parts_iff:
  "term_prefix_parts input = Some (index, tm) \<longleftrightarrow> input = term_prefix index tm"
proof
  assume "term_prefix_parts input = Some (index, tm)"
  then have "index_header input" "header_index input = index" "take_escaped (drop 18 input) = Inr (tm, [])"
    by (auto simp: term_prefix_parts_def split: if_splits sum.splits)
  then show "input = term_prefix index tm"
    using index_header_iff [of input] take_escaped_canonical by (fastforce simp: term_prefix_def)
next
  assume "input = term_prefix index tm"
  then show "term_prefix_parts input = Some (index, tm)"
    using take_escaped_push [of "[]" tm] by (simp add: term_prefix_def term_prefix_parts_def)
qed

lemma projection_round_trip:
  "parse_projection_primary k = Some primary \<longleftrightarrow> k = projection_key primary \<and> primary \<noteq> []"
proof
  assume parse: "parse_projection_primary k = Some primary"
  then have k: "11 < length k" "k ! 0 = 0xFF" "take 10 (drop 1 k) = PROJECTION_PREFIX" "drop 11 k = primary"
    by (auto simp: parse_projection_primary_def split: if_splits)
  have "k = k ! 0 # drop 1 k" using k(1) by (cases k) auto
  moreover have "drop 1 k = take 10 (drop 1 k) @ drop 11 k" using append_take_drop_id [of 10 "drop 1 k"] by simp
  ultimately show "k = projection_key primary \<and> primary \<noteq> []" using k by (auto simp: projection_key_def)
qed (auto simp: parse_projection_primary_def projection_key_def PROJECTION_PREFIX_def)

section \<open>The encoding preserves order\<close>

lemma less_append_last:
  "length xs = length ys \<Longrightarrow> xs @ [a] < ys @ [b] \<longleftrightarrow> xs < ys \<or> xs = ys \<and> a < b"
  for xs ys :: bytes
  by (induction xs ys rule: list_induct2) auto

lemma less_append_same: "xs @ ys < xs @ zs \<longleftrightarrow> ys < zs"
  for xs :: bytes
  by (induction xs) auto

lemma less_append_length:
  "length xs = length ys \<Longrightarrow> xs @ us < ys @ vs \<longleftrightarrow> xs < ys \<or> xs = ys \<and> us < vs"
  for xs ys :: bytes
  by (induction xs ys rule: list_induct2) auto

lemma to_le_inject:
  "unat w < 256 ^ n \<Longrightarrow> unat v < 256 ^ n \<Longrightarrow> n \<le> 8 \<Longrightarrow> to_le n w = to_le n v \<longleftrightarrow> w = v"
  for w v :: u64
proof -
  assume small: "unat w < 256 ^ n" "unat v < 256 ^ n" and "n \<le> 8"
  have "take_bit (8 * n) x = x" if "unat x < 256 ^ n" for x :: u64
    using that by (simp add: word_unat_eq_iff unsigned_take_bit_eq take_bit_nat_eq_self_iff power_mult)
  then show ?thesis using small from_le_to_le [of n w] from_le_to_le [of n v] by metis
qed

lemma less_div_mod:
  "a < b \<longleftrightarrow> a div n < b div n \<or> a div n = b div n \<and> a mod n < b mod n" if "0 < n" for a b n :: nat
proof (cases "a div n" "b div n" rule: linorder_cases)
  case less
  then show ?thesis by (metis div_le_mono leD linorder_le_less_linear)
next
  case equal
  then show ?thesis using div_mult_mod_eq [of a n] div_mult_mod_eq [of b n] by (metis nat_add_left_cancel_less less_irrefl)
next
  case greater
  then show ?thesis by (metis div_le_mono leD less_imp_le_nat less_not_refl3)
qed

lemma to_le_less:
  "unat w < 256 ^ n \<Longrightarrow> unat v < 256 ^ n \<Longrightarrow> n \<le> 8 \<Longrightarrow> rev (to_le n w) < rev (to_le n v) \<longleftrightarrow> w < v"
  for w v :: u64
proof (induction n arbitrary: w v)
  case (Suc n)
  let ?h = "\<lambda>x::u64. drop_bit 8 x" and ?l = "\<lambda>x::u64. ucast x :: u8"
  have halves: "unat (?h x) = unat x div 256" "unat (?l x) = unat x mod 256" for x
    by (simp_all add: drop_bit_eq_div unat_div_distrib unsigned_ucast_eq take_bit_eq_mod)
  have small: "unat (?h x) < 256 ^ n" if "unat x < 256 ^ Suc n" for x
    using that by (simp add: halves less_mult_imp_div_less)
  have "w < v \<longleftrightarrow> ?h w < ?h v \<or> ?h w = ?h v \<and> ?l w < ?l v"
    unfolding word_less_nat_alt word_unat_eq_iff halves by (rule less_div_mod) simp
  then show ?case
    using Suc small to_le_inject [of "?h w" n "?h v"] by (simp add: less_append_last)
qed (simp add: unat_eq_zero)

lemma to_be_less: "to_be w < to_be v \<longleftrightarrow> w < v"
  using to_le_less [of w 8 v] unsigned_less [of w] unsigned_less [of v] by (simp add: to_be_def)

lemma unat_byte: "x \<noteq> 0xFF \<Longrightarrow> unat x < 255" for x :: u8
proof -
  have "unat x < 256" using unsigned_less [of x] by simp
  then show "x \<noteq> 0xFF \<Longrightarrow> unat x < 255" by (auto simp: word_unat_eq_iff)
qed

lemma byte_less_FF: "x \<noteq> 0xFF \<Longrightarrow> x < 0xFF \<and> \<not> 0xFF < x" for x :: u8
  using unat_byte [of x] by (simp add: word_less_nat_alt)

lemma not_system_less: "\<not> key_is_system k \<Longrightarrow> k < 0xFF # r \<and> \<not> 0xFF # r < k"
  by (cases k) (auto simp: key_is_system_def SYSTEM_PREFIX_def byte_less_FF)

lemma push_escaped_less:
  "\<not> key_is_system r \<Longrightarrow> \<not> key_is_system q \<Longrightarrow>
   push_escaped a @ r < push_escaped b @ q \<longleftrightarrow> a < b \<or> a = b \<and> r < q"
proof (induction a arbitrary: b)
  case Nil
  then show ?case using not_system_less [of r] by (cases b) (auto simp: word_gt_0)
next
  case (Cons x a)
  then show ?case using not_system_less [of q] by (cases b) (auto simp: word_gt_0)
qed

lemma entry_key_less:
  assumes "\<not> key_is_system p" "\<not> key_is_system q"
  shows "encode_non_unique_key i t p < encode_non_unique_key j u q \<longleftrightarrow>
    i < j \<or> i = j \<and> (t < u \<or> t = u \<and> p < q)"
proof -
  have "push_escaped p < push_escaped q \<longleftrightarrow> p < q" using push_escaped_less [of "[]" "[]" p q] by simp
  moreover have "to_be i = to_be j \<longleftrightarrow> i = j" by (metis from_be_to_be)
  ultimately show ?thesis
    using assms by (simp add: encode_non_unique_key_def less_append_same less_append_length to_be_less push_escaped_less)
qed

section \<open>Prefix ranges\<close>

lemma byte_less_Suc: "x \<noteq> 0xFF \<Longrightarrow> c < x + 1 \<longleftrightarrow> c \<le> x" for x c :: u8
  using unat_byte [of x] by (auto simp: word_less_nat_alt word_le_nat_alt unat_word_ariths)

lemma byte_less_same: "x \<noteq> 0xFF \<Longrightarrow> x < x + 1" for x :: u8
  by (simp add: byte_less_Suc)

lemma prefix_successor_snoc:
  "prefix_successor (p @ [b]) = (if b \<noteq> 0xFF then Some (p @ [b + 1]) else prefix_successor p)"
  by (simp add: prefix_successor_def)

lemma Nil_less_iff: "[] < k \<longleftrightarrow> k \<noteq> []" for k :: bytes
  by (cases k) auto

lemma append_le: "p \<le> p @ r" "\<not> p @ r < p" for p r :: bytes
  by (induction p) auto

lemma prefix_le: "prefix p k \<Longrightarrow> p \<le> k" for p k :: bytes
  by (auto elim!: prefixE simp: append_le)

lemma cons_between: "c # x \<le> a # l \<and> a # l < c # y \<longleftrightarrow> c = a \<and> x \<le> l \<and> l < y" for x y l :: bytes
  by auto

text \<open>Between \<open>p @ [b]\<close> and \<open>p @ [b + 1]\<close> lie the keys that start with \<open>p @ [b]\<close>.\<close>

lemma last_byte_range:
  "b \<noteq> 0xFF \<Longrightarrow> p @ [b] \<le> k \<and> k < p @ [b + 1] \<longleftrightarrow> prefix (p @ [b]) k"
  for p k :: bytes
proof (induction p arbitrary: k)
  case Nil
  show ?case
  proof (cases k)
    case (Cons a l)
    have "[b] \<le> a # l \<longleftrightarrow> b \<le> a" by (cases "b = a") (auto simp: order_le_less Nil_less_iff)
    moreover have "a # l < [b + 1] \<longleftrightarrow> a \<le> b" using byte_less_Suc [OF Nil, of a] by simp
    ultimately show ?thesis using Cons by auto
  qed simp
next
  case step: (Cons c p)
  show ?case
  proof (cases k)
    case (Cons a l)
    then show ?thesis using step.IH [OF step.prems, of l] by (simp only: append_Cons cons_between Cons_prefix_Cons)
  qed simp
qed

lemma prefix_range:
  "prefix p k \<longleftrightarrow> p \<le> k \<and> (case prefix_successor p of None \<Rightarrow> True | Some e \<Rightarrow> k < e)"
  for p k :: bytes
proof (induction p rule: rev_induct)
  case Nil
  then show ?case by (simp add: prefix_successor_def)
next
  case (snoc b p)
  show ?case
  proof (cases "b = 0xFF")
    case False
    then show ?thesis using last_byte_range [of b p k] by (simp add: prefix_successor_snoc)
  next
    case True
    have "prefix (p @ [b]) k \<longleftrightarrow> prefix p k \<and> p @ [b] \<le> k"
    proof (cases "prefix p k")
      case True
      then obtain r where "k = p @ r" by (auto elim: prefixE)
      then show ?thesis using \<open>b = 0xFF\<close> byte_less_FF by (cases r) (auto simp: less_append_same order_le_less prefix_Cons append_le Nil_less_iff)
    next
      case False
      then show ?thesis by (auto dest: append_prefixD)
    qed
    moreover have "p @ [b] \<le> k \<Longrightarrow> p \<le> k" by (meson order_trans prefix_le prefixI)
    ultimately show ?thesis using snoc.IH True by (auto simp: prefix_successor_snoc)
  qed
qed

text \<open>
  The prefix of one term is also a prefix of the entries of every term that continues it with a zero
  byte, because the escape of a zero starts with the terminator.
\<close>

lemma prefix_push_escaped:
  "\<not> key_is_system r \<Longrightarrow> prefix (push_escaped t) (push_escaped u @ r) \<longleftrightarrow> u = t \<or> (\<exists>v. u = t @ 0 # v)"
proof (induction t arbitrary: u)
  case Nil
  then show ?case by (cases u) auto
next
  case (Cons x t)
  then show ?case by (cases u; cases r) (auto simp: key_is_system_def SYSTEM_PREFIX_def)
qed

lemma term_window_contents:
  assumes "\<not> key_is_system q"
  shows "prefix (term_prefix i t) (encode_non_unique_key j u q) \<longleftrightarrow> i = j \<and> (u = t \<or> (\<exists>v. u = t @ 0 # v))"
proof -
  have "to_be i = to_be j \<longleftrightarrow> i = j" by (metis from_be_to_be)
  moreover have "prefix (to_be i @ a) (to_be j @ b) \<longleftrightarrow> to_be i = to_be j \<and> prefix a b" for a b
    by (auto simp: prefix_def)
  ultimately show ?thesis
    using assms prefix_push_escaped [of "push_escaped q" t u] by (simp add: term_prefix_def encode_non_unique_key_def)
qed

section \<open>Projection records\<close>

lemma from_le_to_le_u32: "from_le (to_le 4 x) = (x :: u32)"
  by (simp add: from_le_to_le take_bit_word_eq_self)

lemma take_u32_append: "take_u32 (to_le 4 x @ rest) = Inr (x, rest)"
  by (simp add: take_u32_def from_le_to_le_u32)

lemma decode_terms_encode:
  "\<forall>tm \<in> set tms. length tm < 2 ^ 32 \<Longrightarrow>
   decode_terms (length tms) (concat (map encode_term tms) @ rest) = Inr (tms, rest)"
  by (induction tms) (simp_all add: encode_term_def take_u32_append unat_len_u32)

lemma decode_projections_encode:
  "\<forall>e \<in> set ps. length (snd e) < 2 ^ 32 \<and> (\<forall>tm \<in> set (snd e). length tm < 2 ^ 32) \<Longrightarrow>
   decode_projections (length ps) acc (concat (map encode_projection ps) @ rest) =
     Inr (foldl (\<lambda>m e. bt_insert (fst e) (snd e) m) acc ps, rest)"
proof (induction ps arbitrary: acc)
  case (Cons e ps)
  have "from_le (to_le 8 (fst e)) = fst e" by (simp add: from_le_to_le take_bit_word_eq_self)
  then show ?case
    using Cons by (simp add: encode_projection_def take_u32_append unat_len_u32 decode_terms_encode)
qed simp

lemma projections_round_trip:
  assumes "bt_wf ps" "length ps < 2 ^ 32"
    and "\<forall>e \<in> set ps. length (snd e) < 2 ^ 32 \<and> (\<forall>tm \<in> set (snd e). length tm < 2 ^ 32)"
  shows "projections_decode (projections_encode ps) = Inr ps"
  using decode_projections_encode [OF assms(3), of "[]" "[]"] assms(1,2)
  by (simp add: projections_decode_def projections_encode_def take_u32_append unat_len_u32 bt_rebuild
      INDEX_ENCODING_VERSION_def from_le_to_le take_bit_word_eq_self)

section \<open>Properties\<close>

text \<open>C35: Entry keys of a non-unique index over user primaries decode to the index, term and primary they were
  made from, and byte order on the keys is the order of index, then term, then primary, so an ordered scan
  of the index namespace lists the entries of an index by term and within a term by primary.\<close>

theorem index_entries_ordered:
  assumes "\<not> key_is_system p" "\<not> key_is_system q"
  shows "decode_non_unique_key (encode_non_unique_key i t p) = Inr (i, t, p) \<and>
    (encode_non_unique_key i t p < encode_non_unique_key j u q \<longleftrightarrow>
      i < j \<or> i = j \<and> (t < u \<or> t = u \<and> p < q))"
  using assms by (simp add: decode_non_unique_iff entry_key_less)

theorem index_entries_ordered_witness:
  "decode_non_unique_key (encode_non_unique_key 3 [0, 7] [97]) = Inr (3, [0, 7], [97]) \<and>
   encode_non_unique_key 3 [0, 7] [97] < encode_non_unique_key 3 [0, 7] [98]"
proof -
  have "\<not> key_is_system [97]" "\<not> key_is_system [98]" by (simp_all add: key_is_system_def SYSTEM_PREFIX_def)
  from index_entries_ordered [OF this, of 3 "[0, 7]" 3 "[0, 7]"] show ?thesis by simp
qed

text \<open>The key window an equality query on a term reads, from the term's prefix to the prefix's
  successor, contains exactly the entries of that term and of the terms that extend it by a zero byte, of that index
  and no other.\<close>

theorem term_query_window:
  assumes "\<not> key_is_system q"
  shows "term_prefix i t \<le> encode_non_unique_key j u q \<and>
      (case prefix_successor (term_prefix i t) of
         None \<Rightarrow> True | Some stop \<Rightarrow> encode_non_unique_key j u q < stop) \<longleftrightarrow>
    i = j \<and> (u = t \<or> (\<exists>v. u = t @ 0 # v))"
  using prefix_range [of "term_prefix i t" "encode_non_unique_key j u q"] term_window_contents [OF assms, of i t j u]
  by simp

theorem term_query_window_witness:
  "term_prefix 3 [116] \<le> encode_non_unique_key 3 [116] [97] \<and>
   term_prefix 3 [116] \<le> encode_non_unique_key 3 [116, 0, 5] [97]"
proof -
  have "\<not> key_is_system [97]" by (simp add: key_is_system_def SYSTEM_PREFIX_def)
  from term_query_window [OF this, of 3 "[116]" 3 "[116]"] term_query_window [OF this, of 3 "[116]" 3 "[116, 0, 5]"]
  show ?thesis by simp
qed

end
