(* ===== verification/Scan.thy ===== *)
theory Scan
  imports Store_Invariant Object_Codec Index_Keys "HOL-Library.Product_Lexorder"
begin

text \<open>
  Bounded scans of one tablet (\<open>crates/kivi-state/src/scan.rs\<close>, the scan functions of \<open>store.rs\<close> and
  the scan descriptors of \<open>object.rs\<close>): scan windows, the page loop over the ordered index, the two
  scans over index entries, the store's statistics and the split key.  Sizes (\<open>usize\<close>) are natural
  numbers with the saturation at \<open>usize_MAX\<close> written out; \<open>SE_Panic\<close> stands for the \<open>expect\<close> of the
  page loop.

  The lemmas show that a page is a prefix of the visible keys of the window in scan order, that it
  respects its budgets, that it always makes progress, and when it is complete.
\<close>

section \<open>Windows\<close>

datatype scan_direction = Forward | Reverse

datatype scan_projection = KeysOnly | KeysAndValues

record scan_spec =
  sp_start :: "bytes option"
  sp_end :: "bytes option"
  sp_direction :: scan_direction
  sp_max_items :: nat
  sp_max_bytes :: nat
  sp_projection :: scan_projection

datatype scan_error = SE_OrderedIndexDisabled | SE_InvalidLimit | SE_EmptyRange | SE_Panic

definition empty_bounds :: "bytes option \<Rightarrow> bytes option \<Rightarrow> bool" where
  "empty_bounds lower upper =
    (case (lower, upper) of (Some lo, Some hi) \<Rightarrow> hi \<le> lo | _ \<Rightarrow> False)"

definition scan_spec_new ::
    "bytes option \<Rightarrow> bytes option \<Rightarrow> scan_direction \<Rightarrow> nat \<Rightarrow> nat \<Rightarrow> scan_projection
      \<Rightarrow> scan_error + scan_spec" where
  "scan_spec_new start end' direction max_items max_bytes projection =
    (if max_items = 0 \<or> max_bytes = 0 then Inl SE_InvalidLimit
     else if empty_bounds start end' then Inl SE_EmptyRange
     else Inr \<lparr> sp_start = start, sp_end = end', sp_direction = direction, sp_max_items = max_items,
                sp_max_bytes = max_bytes, sp_projection = projection \<rparr>)"

definition spec_contains :: "scan_spec \<Rightarrow> bytes \<Rightarrow> bool" where
  "spec_contains spec k \<longleftrightarrow>
    \<not> (case sp_start spec of None \<Rightarrow> False | Some lower \<Rightarrow> k < lower)
    \<and> (case sp_end spec of None \<Rightarrow> True | Some upper \<Rightarrow> k < upper)"

definition is_term_window :: "bytes option \<Rightarrow> bytes option \<Rightarrow> u8 \<Rightarrow> bool" where
  "is_term_window start end' direction =
    (if direction \<noteq> 0 then False
     else case (start, end') of
       (Some start, Some end') \<Rightarrow>
         (case term_prefix_parts start of
            None \<Rightarrow> False
          | Some (index, tm) \<Rightarrow>
              if start \<noteq> term_prefix index tm then False
              else if length start < length INDEX_FORMAT_TAG then False
              else prefix_successor start = Some end')
     | _ \<Rightarrow> False)"

definition index_term :: "scan_spec \<Rightarrow> (index_id \<times> bytes) option" where
  "index_term spec =
    (if sp_direction spec \<noteq> Forward then None
     else case sp_start spec of
       None \<Rightarrow> None
     | Some start \<Rightarrow>
         (case term_prefix_parts start of
            None \<Rightarrow> None
          | Some (index, tm) \<Rightarrow>
              if start \<noteq> term_prefix index tm then None
              else case sp_end spec of
                None \<Rightarrow> None
              | Some end' \<Rightarrow>
                  if prefix_successor start \<noteq> Some end' then None
                  else if length start < length INDEX_FORMAT_TAG then None
                  else Some (index, tm)))"

definition is_term_range_window :: "bytes option \<Rightarrow> bytes option \<Rightarrow> u8 \<Rightarrow> bool" where
  "is_term_range_window start end' direction =
    (if direction \<noteq> 0 then False
     else case (start, end') of
       (Some start, Some end') \<Rightarrow>
         (case (term_prefix_parts start, term_prefix_parts end') of
            (Some (index, start_term), Some (end_index, end_term)) \<Rightarrow>
              if index \<noteq> end_index then False
              else if start \<noteq> term_prefix index start_term then False
              else if end' \<noteq> term_prefix index end_term then False
              else start_term < end_term
          | _ \<Rightarrow> False)
     | _ \<Rightarrow> False)"

definition index_term_range :: "scan_spec \<Rightarrow> (index_id \<times> bytes \<times> bytes) option" where
  "index_term_range spec =
    (if sp_direction spec \<noteq> Forward then None
     else case (sp_start spec, sp_end spec) of
       (Some start, Some end') \<Rightarrow>
         (case (term_prefix_parts start, term_prefix_parts end') of
            (Some (index, start_term), Some (end_index, end_term)) \<Rightarrow>
              if index \<noteq> end_index then None
              else if start \<noteq> term_prefix index start_term then None
              else if end' \<noteq> term_prefix index end_term then None
              else if end_term \<le> start_term then None
              else Some (index, start_term, end_term)
          | _ \<Rightarrow> None)
     | _ \<Rightarrow> None)"

section \<open>Pages\<close>

datatype scanned_value =
    SV_Inline bytes
  | SV_Counter i64
  | SV_Chunked manifest_id u64
  | SV_Fabric u64 u64 u64
  | SV_Oversize u64
  | SV_Semantic object_type bytes

record scan_entry =
  en_key :: key
  en_value :: "scanned_value option"

record scan_page =
  pg_entries :: "scan_entry list"
  pg_exhausted :: bool
  pg_last_key :: "key option"

definition usize_MAX :: nat where
  "usize_MAX = 2 ^ 64 - 1"

definition usize_add :: "nat \<Rightarrow> nat \<Rightarrow> nat" where
  "usize_add a b = min (a + b) usize_MAX"

definition len_u64 :: "'a list \<Rightarrow> u64" where
  "len_u64 xs = of_nat (length xs)"

definition scan_descriptor :: "logical_value \<Rightarrow> (object_type \<times> bytes) option" where
  "scan_descriptor v =
    (case v of
       V_CommutativeCounter value \<Rightarrow> Some (T_CommutativeCounter, encode_i64 value)
     | V_BoundedCounter st \<Rightarrow> map_option (Pair T_BoundedCounter) (encode_bounded st)
     | V_Semaphore st \<Rightarrow>
         Some (T_Semaphore,
           encode_u64 (sem_capacity st) @ encode_u64 (outstanding st) @ encode_u64 (len_u64 (sem_permits st)))
     | V_Lease st \<Rightarrow> map_option (Pair T_Lease) (encode_lease st)
     | V_StreamShard sh \<Rightarrow>
         Some (T_StreamShard,
           ss_stream sh @ to_le 4 (ss_shard sh) @ encode_u64 (ss_next_offset sh)
             @ encode_u64 (len_u64 (ss_entries sh)))
     | _ \<Rightarrow> None)"

text \<open>
  What the loop does with one live object: it takes it with the projected value and the bytes used so
  far, stops before it, or panics.
\<close>

datatype projected = Taken "scanned_value option" nat | Stopped | No_descriptor

definition project_value :: "scan_spec \<Rightarrow> bool \<Rightarrow> nat \<Rightarrow> logical_value \<Rightarrow> projected" where
  "project_value spec page_empty used v =
    (case sp_projection spec of
       KeysOnly \<Rightarrow> Taken None used
     | KeysAndValues \<Rightarrow>
         (case v of
            V_Bytes value \<Rightarrow>
              if usize_add used (length value) \<le> sp_max_bytes spec
              then Taken (Some (SV_Inline value)) (usize_add used (length value))
              else if page_empty then Taken (Some (SV_Oversize (len_u64 value))) used
              else Stopped
          | V_StrictCounter c \<Rightarrow> Taken (Some (SV_Counter c)) (usize_add used 8)
          | V_Chunked r \<Rightarrow> Taken (Some (SV_Chunked (cr_manifest r) (cr_logical_len r))) used
          | V_Fabric r \<Rightarrow> Taken (Some (SV_Fabric (fr_id r) (fr_logical_len r) (fr_version r))) used
          | _ \<Rightarrow>
              (case scan_descriptor v of
                 None \<Rightarrow> No_descriptor
               | Some (object, descriptor) \<Rightarrow>
                   Taken (Some (SV_Semantic object descriptor)) (usize_add used (length descriptor)))))"

definition page_of :: "scan_entry list \<Rightarrow> bool \<Rightarrow> key option \<Rightarrow> scan_page" where
  "page_of entries stopped_on_budget last_key =
    \<lparr> pg_entries = entries, pg_exhausted = \<not> stopped_on_budget, pg_last_key = last_key \<rparr>"

section \<open>The page loop\<close>

text \<open>
  \<open>BTreeSet::range\<close> is a filter of the sorted list of keys.  The loops push a candidate and leave when
  the limit, which is positive, is reached.
\<close>

definition scan_candidates :: "key list \<Rightarrow> scan_spec \<Rightarrow> key list" where
  "scan_candidates index spec =
    (let limit = usize_add (sp_max_items spec) 1 in
     case sp_direction spec of
       Forward \<Rightarrow>
         let lower = (case sp_start spec of None \<Rightarrow> [] | Some start \<Rightarrow> start) in
         take limit
           (takeWhile (\<lambda>k. \<not> (case sp_end spec of None \<Rightarrow> False | Some upper \<Rightarrow> upper \<le> k))
             (filter (\<lambda>k. lower \<le> k) index))
     | Reverse \<Rightarrow>
         let lower = (case sp_start spec of None \<Rightarrow> [] | Some start \<Rightarrow> start) in
         take limit
           (takeWhile (\<lambda>k. \<not> k < lower)
             (rev (filter (\<lambda>k. case sp_end spec of None \<Rightarrow> True | Some upper \<Rightarrow> k < upper) index))))"

definition hidden_entry :: "key \<Rightarrow> bool" where
  "hidden_entry k \<longleftrightarrow> is_index_key k \<and> parse_index_primary k \<noteq> None"

fun scan_loop ::
    "object_store \<Rightarrow> scan_spec \<Rightarrow> wall_timestamp \<Rightarrow> key list \<Rightarrow> scan_entry list \<Rightarrow> nat \<Rightarrow> key option
      \<Rightarrow> scan_error + scan_page" where
  "scan_loop s spec now [] entries used last_key = Inr (page_of entries False last_key)"
| "scan_loop s spec now (k # ks) entries used last_key =
    (if sp_max_items spec \<le> length entries then Inr (page_of entries True last_key)
     else if key_is_system k then scan_loop s spec now ks entries used last_key
     else if hidden_entry k then scan_loop s spec now ks entries used last_key
     else if \<not> spec_contains spec k then scan_loop s spec now ks entries used last_key
     else case store_get s k now of
       None \<Rightarrow> scan_loop s spec now ks entries used last_key
     | Some obj \<Rightarrow>
         (case project_value spec (entries = []) used (so_value obj) of
            Taken value used' \<Rightarrow>
              scan_loop s spec now ks (entries @ [\<lparr> en_key = k, en_value = value \<rparr>]) used' (Some k)
          | Stopped \<Rightarrow> Inr (page_of entries True last_key)
          | No_descriptor \<Rightarrow> Inl SE_Panic))"

fun page_loop ::
    "(key \<times> stored_object) list \<Rightarrow> scan_spec \<Rightarrow> scan_entry list \<Rightarrow> nat \<Rightarrow> key option
      \<Rightarrow> scan_error + scan_page" where
  "page_loop [] spec entries used last_key = Inr (page_of entries False last_key)"
| "page_loop ((k, obj) # matched) spec entries used last_key =
    (if sp_max_items spec \<le> length entries then Inr (page_of entries True last_key)
     else case project_value spec (entries = []) used (so_value obj) of
       Taken value used' \<Rightarrow>
         page_loop matched spec (entries @ [\<lparr> en_key = k, en_value = value \<rparr>]) used' (Some k)
     | Stopped \<Rightarrow> Inr (page_of entries True last_key)
     | No_descriptor \<Rightarrow> Inl SE_Panic)"

definition page_sorted_matches :: "(key \<times> stored_object) list \<Rightarrow> scan_spec \<Rightarrow> scan_error + scan_page" where
  "page_sorted_matches matched spec = page_loop matched spec [] 0 None"

definition term_matches ::
    "object_store \<Rightarrow> wall_timestamp \<Rightarrow> (index_id \<Rightarrow> bytes \<Rightarrow> bool) \<Rightarrow> key list
      \<Rightarrow> (key \<times> bytes \<times> stored_object) list" where
  "term_matches s now accept index =
    List.map_filter (\<lambda>k.
      if key_is_system k then None
      else case decode_non_unique_key k of
        Inl _ \<Rightarrow> None
      | Inr (found, found_term, _) \<Rightarrow>
          if accept found found_term then map_option (\<lambda>obj. (k, found_term, obj)) (store_get s k now)
          else None) index"

definition scan_index_term ::
    "object_store \<Rightarrow> index_id \<times> bytes \<Rightarrow> scan_spec \<Rightarrow> wall_timestamp \<Rightarrow> scan_error + scan_page" where
  "scan_index_term s cursor spec now =
    (case ordered s of
       None \<Rightarrow> Inl SE_OrderedIndexDisabled
     | Some index \<Rightarrow>
         let matched = map (\<lambda>(k, _, obj). (k, obj))
               (term_matches s now (\<lambda>found tm. found = fst cursor \<and> tm = snd cursor) index) in
         page_sorted_matches (take (usize_add (sp_max_items spec) 1) (sort_key fst matched)) spec)"

definition scan_index_term_range ::
    "object_store \<Rightarrow> index_id \<times> bytes \<times> bytes \<Rightarrow> scan_spec \<Rightarrow> wall_timestamp \<Rightarrow> scan_error + scan_page" where
  "scan_index_term_range s cursor spec now =
    (case ordered s of
       None \<Rightarrow> Inl SE_OrderedIndexDisabled
     | Some index \<Rightarrow>
         let (i, start_term, end_term) = cursor;
             matched = term_matches s now (\<lambda>found tm. found = i \<and> \<not> (tm < start_term \<or> end_term \<le> tm)) index in
         page_sorted_matches
           (map (\<lambda>(k, _, obj). (k, obj))
             (take (usize_add (sp_max_items spec) 1) (sort_key (\<lambda>(k, tm, _). (tm, k)) matched))) spec)"

definition scan_range :: "object_store \<Rightarrow> scan_spec \<Rightarrow> wall_timestamp \<Rightarrow> scan_error + scan_page" where
  "scan_range s spec now =
    (case ordered s of
       None \<Rightarrow> Inl SE_OrderedIndexDisabled
     | Some index \<Rightarrow>
         (case index_term spec of
            Some cursor \<Rightarrow> scan_index_term s cursor spec now
          | None \<Rightarrow>
              (case index_term_range spec of
                 Some cursor \<Rightarrow> scan_index_term_range s cursor spec now
               | None \<Rightarrow> scan_loop s spec now (scan_candidates index spec) [] 0 None)))"

section \<open>Statistics and the split key\<close>

record store_stats =
  st_object_count :: nat
  st_live_count :: nat
  st_key_bytes :: u64
  st_logical_value_bytes :: u64
  st_intent_count :: nat
  st_ordered_indexed :: bool

definition stats :: "object_store \<Rightarrow> wall_timestamp \<Rightarrow> store_stats" where
  "stats s now =
    \<lparr> st_object_count = length (objects s),
      st_live_count = length (filter (\<lambda>(_, obj). \<not> so_is_expired obj now) (objects s)),
      st_key_bytes = foldl (\<lambda>sum (k, _). saturating_add sum (len_u64 k)) 0 (objects s),
      st_logical_value_bytes = foldl (\<lambda>sum (_, obj). saturating_add sum (logical_bytes (so_value obj))) 0 (objects s),
      st_intent_count = length (intents s),
      st_ordered_indexed = (ordered s \<noteq> None) \<rparr>"

definition saturating_mul :: "'a::len word \<Rightarrow> 'a word \<Rightarrow> 'a word" where
  "saturating_mul a b = (if unat a * unat b < 2 ^ LENGTH('a) then a * b else - 1)"

definition stored_size :: "object_store \<Rightarrow> key \<Rightarrow> u64 option" where
  "stored_size s k = map_option (\<lambda>obj. logical_bytes (so_value obj)) (bt_get (objects s) k)"

fun find_half :: "object_store \<Rightarrow> u64 \<Rightarrow> u64 \<Rightarrow> key list \<Rightarrow> key option" where
  "find_half s whole accumulated [] = None"
| "find_half s whole accumulated (k # ks) =
    (case stored_size s k of
       None \<Rightarrow> find_half s whole accumulated ks
     | Some bytes \<Rightarrow>
         let accumulated = saturating_add accumulated bytes in
         if whole \<le> saturating_mul accumulated 2 then Some k else find_half s whole accumulated ks)"

text \<open>The sum wraps around, as it does in an optimised build.\<close>

definition median_split_key :: "object_store \<Rightarrow> key option" where
  "median_split_key s =
    (case ordered s of
       None \<Rightarrow> None
     | Some index \<Rightarrow>
         let candidates = filter (\<lambda>k. \<not> key_is_system k \<and> \<not> is_index_key k) index in
         if length candidates < 2 then None
         else find_half s (sum_list (List.map_filter (stored_size s) candidates)) 0 (tl candidates))"

section \<open>Specification\<close>

text \<open>The keys a scan may show, in scan order, and what it shows of a value.\<close>

definition window_keys :: "object_store \<Rightarrow> scan_spec \<Rightarrow> key list" where
  "window_keys s spec =
    (let inside = filter (spec_contains spec) (bt_keys (objects s)) in
     case sp_direction spec of Forward \<Rightarrow> inside | Reverse \<Rightarrow> rev inside)"

definition scan_visible :: "object_store \<Rightarrow> wall_timestamp \<Rightarrow> key \<Rightarrow> bool" where
  "scan_visible s now k \<longleftrightarrow> \<not> key_is_system k \<and> \<not> hidden_entry k \<and> store_get s k now \<noteq> None"

definition visible_keys :: "object_store \<Rightarrow> scan_spec \<Rightarrow> wall_timestamp \<Rightarrow> key list" where
  "visible_keys s spec now = filter (scan_visible s now) (window_keys s spec)"

definition value_shown :: "scan_spec \<Rightarrow> logical_value \<Rightarrow> scanned_value option \<Rightarrow> bool" where
  "value_shown spec v shown =
    (case sp_projection spec of
       KeysOnly \<Rightarrow> shown = None
     | KeysAndValues \<Rightarrow>
         (case v of
            V_Bytes value \<Rightarrow>
              shown = Some (SV_Inline value)
              \<or> shown = Some (SV_Oversize (len_u64 value)) \<and> sp_max_bytes spec < length value
          | V_StrictCounter c \<Rightarrow> shown = Some (SV_Counter c)
          | V_Chunked r \<Rightarrow> shown = Some (SV_Chunked (cr_manifest r) (cr_logical_len r))
          | V_Fabric r \<Rightarrow> shown = Some (SV_Fabric (fr_id r) (fr_logical_len r) (fr_version r))
          | _ \<Rightarrow> (\<exists>descriptor. scan_descriptor v = Some (object_type_of v, descriptor)
                      \<and> shown = Some (SV_Semantic (object_type_of v) descriptor))))"

fun inline_bytes :: "scan_entry list \<Rightarrow> nat" where
  "inline_bytes [] = 0"
| "inline_bytes (e # es) =
    (case en_value e of Some (SV_Inline value) \<Rightarrow> length value | _ \<Rightarrow> 0) + inline_bytes es"

definition valid_spec :: "scan_spec \<Rightarrow> bool" where
  "valid_spec spec \<longleftrightarrow>
    0 < sp_max_items spec \<and> sp_max_items spec < usize_MAX
    \<and> 0 < sp_max_bytes spec \<and> sp_max_bytes spec < usize_MAX
    \<and> \<not> empty_bounds (sp_start spec) (sp_end spec)"

definition entry_shows :: "scan_spec \<Rightarrow> scan_entry \<Rightarrow> key \<times> stored_object \<Rightarrow> bool" where
  "entry_shows spec e m \<longleftrightarrow> en_key e = fst m \<and> value_shown spec (so_value (snd m)) (en_value e)"

definition visible_objects :: "object_store \<Rightarrow> scan_spec \<Rightarrow> wall_timestamp \<Rightarrow> key list \<Rightarrow> (key \<times> stored_object) list" where
  "visible_objects s spec now ks =
    List.map_filter (\<lambda>k.
      if key_is_system k \<or> hidden_entry k \<or> \<not> spec_contains spec k then None
      else map_option (Pair k) (store_get s k now)) ks"

section \<open>Projection\<close>

lemma scan_descriptor_total:
  "scan_descriptor v = None \<longleftrightarrow> (case v of V_Bytes _ \<Rightarrow> True | V_Chunked _ \<Rightarrow> True | V_Fabric _ \<Rightarrow> True | V_StrictCounter _ \<Rightarrow> True | _ \<Rightarrow> False)"
  "scan_descriptor v = Some (t, descriptor) \<Longrightarrow> t = object_type_of v"
  using codes_bounded codes_lease
  by (auto simp: scan_descriptor_def codes_def split: logical_value.splits) fastforce+

lemma project_no_panic [simp]: "project_value spec e used v \<noteq> No_descriptor"
  using scan_descriptor_total(1) [of v]
  by (auto simp: project_value_def split: scan_projection.split logical_value.splits option.splits)

lemma project_shows:
  assumes "project_value spec page_empty used v = Taken shown used'" "page_empty \<Longrightarrow> used = 0"
  shows "value_shown spec v shown"
  using assms scan_descriptor_total(2) [of v]
  by (auto simp: project_value_def value_shown_def usize_add_def split: scan_projection.splits logical_value.splits option.splits if_splits)

lemma project_used:
  assumes "project_value spec page_empty used v = Taken shown used'" "sp_max_bytes spec < usize_MAX"
    and "b \<le> used" "b \<le> sp_max_bytes spec"
  shows "b + inline_bytes [\<lparr> en_key = k, en_value = shown \<rparr>] \<le> min used' (sp_max_bytes spec)"
  using assms
  by (auto simp: project_value_def usize_add_def split: scan_projection.splits logical_value.splits option.splits if_splits)

lemma project_stops: "project_value spec page_empty used v = Stopped \<Longrightarrow> \<not> page_empty"
  by (auto simp: project_value_def split: scan_projection.splits logical_value.splits option.splits if_splits)

lemma inline_bytes_append: "inline_bytes (xs @ ys) = inline_bytes xs + inline_bytes ys"
  by (induction xs) auto

section \<open>The page of a list of matches\<close>

text \<open>What the loop makes of the matches \<open>ms\<close> behind the entries it already holds.\<close>

definition pages ::
    "scan_spec \<Rightarrow> scan_entry list \<Rightarrow> key option \<Rightarrow> (key \<times> stored_object) list \<Rightarrow> scan_page \<Rightarrow> bool" where
  "pages spec es lk ms p \<longleftrightarrow>
    (\<exists>new. pg_entries p = es @ new
      \<and> list_all2 (entry_shows spec) new (take (length new) ms)
      \<and> (pg_exhausted p \<longleftrightarrow> length new = length ms)
      \<and> pg_last_key p = (if new = [] then lk else Some (en_key (last new)))
      \<and> length new \<le> sp_max_items spec - length es
      \<and> inline_bytes (es @ new) \<le> sp_max_bytes spec
      \<and> (pg_exhausted p \<or> es @ new \<noteq> []))"

lemma page_loop_pages:
  assumes "0 < sp_max_items spec" "sp_max_bytes spec < usize_MAX"
    and "inline_bytes es \<le> used" "inline_bytes es \<le> sp_max_bytes spec" "es = [] \<Longrightarrow> used = 0"
  shows "\<exists>p. page_loop ms spec es used lk = Inr p \<and> pages spec es lk ms p"
  using assms(3-)
proof (induction ms arbitrary: es used lk)
  case Nil
  then show ?case by (simp add: pages_def page_of_def)
next
  case (Cons m ms)
  obtain k obj where m: "m = (k, obj)" by (cases m)
  show ?case
  proof (cases "sp_max_items spec \<le> length es")
    case True
    then show ?thesis using Cons.prems assms(1) by (auto simp: m pages_def page_of_def)
  next
    case room: False
    show ?thesis
    proof (cases "project_value spec (es = []) used (so_value obj)")
      case (Taken shown used')
      let ?e = "\<lparr>en_key = k, en_value = shown\<rparr>"
      have "inline_bytes (es @ [?e]) \<le> min used' (sp_max_bytes spec)"
        using project_used [OF Taken assms(2) Cons.prems(1,2)] by (simp add: inline_bytes_append)
      then obtain p where p: "page_loop ms spec (es @ [?e]) used' (Some k) = Inr p" "pages spec (es @ [?e]) (Some k) ms p"
        using Cons.IH [of "es @ [?e]" used' "Some k"] by auto
      from p(2) obtain new where new: "pg_entries p = es @ ?e # new"
          "list_all2 (entry_shows spec) new (take (length new) ms)" "pg_exhausted p \<longleftrightarrow> length new = length ms"
          "pg_last_key p = (if new = [] then Some k else Some (en_key (last new)))"
          "length new \<le> sp_max_items spec - Suc (length es)" "inline_bytes (es @ ?e # new) \<le> sp_max_bytes spec"
        unfolding pages_def by auto
      have "entry_shows spec ?e m"
        using project_shows [OF Taken] Cons.prems(3) by (simp add: entry_shows_def m)
      then have "pages spec es lk (m # ms) p"
        unfolding pages_def using new room by (intro exI [of _ "?e # new"]) auto
      then show ?thesis using p(1) Taken room by (auto simp: m)
    qed (use Cons.prems room project_stops in \<open>auto simp: m pages_def page_of_def\<close>)
  qed
qed

corollary page_sorted_matches_pages:
  "valid_spec spec \<Longrightarrow> \<exists>p. page_sorted_matches ms spec = Inr p \<and> pages spec [] None ms p"
  unfolding page_sorted_matches_def valid_spec_def by (rule page_loop_pages) auto

section \<open>The page of a window\<close>

lemma visible_objects_Nil [simp]: "visible_objects s spec now [] = []"
  by (simp add: visible_objects_def)

lemma visible_objects_Cons:
  "visible_objects s spec now (k # ks) =
    (if scan_visible s now k \<and> spec_contains spec k
     then [(k, the (store_get s k now))] else []) @ visible_objects s spec now ks"
  by (auto simp: visible_objects_def scan_visible_def List.map_filter_simps split: option.splits)

lemma visible_objects_append:
  "visible_objects s spec now (ks @ ls) = visible_objects s spec now ks @ visible_objects s spec now ls"
  by (induction ks) (simp_all add: visible_objects_Cons)

lemma fst_visible_objects:
  "map fst (visible_objects s spec now ks) = filter (\<lambda>k. scan_visible s now k \<and> spec_contains spec k) ks"
  by (induction ks) (auto simp: visible_objects_Cons)

lemma visible_objects_live:
  "(k, obj) \<in> set (visible_objects s spec now ks) \<Longrightarrow> store_get s k now = Some obj"
  by (induction ks) (auto simp: visible_objects_Cons scan_visible_def split: if_splits)

text \<open>Invisible keys are skipped, except that the loop may stop before one of them.\<close>

lemma scan_loop_skip:
  "\<not> (scan_visible s now k \<and> spec_contains spec k) \<Longrightarrow>
   scan_loop s spec now (k # ks) es used lk =
     (if sp_max_items spec \<le> length es then Inr (page_of es True lk) else scan_loop s spec now ks es used lk)"
  by (auto simp: scan_visible_def)

lemma scan_loop_visible:
  "scan_visible s now k \<Longrightarrow> spec_contains spec k \<Longrightarrow>
   scan_loop s spec now (k # ks) es used lk =
     (if sp_max_items spec \<le> length es then Inr (page_of es True lk)
      else case project_value spec (es = []) used (so_value (the (store_get s k now))) of
        Taken value used' \<Rightarrow> scan_loop s spec now ks (es @ [\<lparr> en_key = k, en_value = value \<rparr>]) used' (Some k)
      | Stopped \<Rightarrow> Inr (page_of es True lk)
      | No_descriptor \<Rightarrow> Inl SE_Panic)"
  by (auto simp: scan_visible_def)

declare scan_loop.simps(2) [simp del]

lemma page_loop_full:
  "sp_max_items spec \<le> length es \<Longrightarrow> page_loop ms spec es used lk = Inr (page_of es (ms \<noteq> []) lk)"
  by (cases ms) auto

lemma scan_loop_full:
  "sp_max_items spec \<le> length es \<Longrightarrow> scan_loop s spec now ks es used lk = Inr (page_of es (ks \<noteq> []) lk)"
  by (cases ks) (auto simp: scan_loop.simps(2))

lemma scan_loop_page_loop:
  "\<exists>p q. scan_loop s spec now ks es used lk = Inr p
    \<and> page_loop (visible_objects s spec now ks) spec es used lk = Inr q
    \<and> pg_entries p = pg_entries q \<and> pg_last_key p = pg_last_key q
    \<and> (pg_exhausted p \<longrightarrow> pg_exhausted q)
    \<and> (pg_exhausted q \<longrightarrow> pg_exhausted p \<or> sp_max_items spec \<le> length (pg_entries p))"
proof (induction ks arbitrary: es used lk)
  case (Cons k ks)
  show ?case
  proof (cases "sp_max_items spec \<le> length es")
    case True
    then show ?thesis by (simp add: scan_loop_full page_loop_full page_of_def)
  next
    case False
    then show ?thesis
      using Cons.IH
      by (cases "scan_visible s now k \<and> spec_contains spec k")
        (auto simp: visible_objects_Cons scan_loop_visible scan_loop_skip page_of_def split: projected.split)
  qed
qed (simp add: page_of_def)

lemma scan_loop_all_visible:
  "list_all (\<lambda>k. scan_visible s now k \<and> spec_contains spec k) ks \<Longrightarrow>
   scan_loop s spec now ks es used lk = page_loop (visible_objects s spec now ks) spec es used lk"
  by (induction ks arbitrary: es used lk)
    (auto simp: visible_objects_Cons scan_loop_visible split: projected.split)

lemma takeWhile_filter:
  assumes "sorted_wrt R xs" "\<And>x y. R x y \<Longrightarrow> P y \<Longrightarrow> P x"
  shows "takeWhile P xs = filter P xs"
  using assms(1)
proof (induction xs)
  case (Cons x xs)
  then show ?case using assms(2) by (cases "P x") (auto intro!: filter_False [symmetric])
qed simp

lemma index_sorted: "store_inv s \<Longrightarrow> ordered s = Some index \<Longrightarrow> index = bt_keys (objects s) \<and> sorted_wrt (<) index"
  by (auto simp: store_inv_def index_ok_def bt_wf_def bt_keys_def)

lemma sorted_rev_less: "sorted_wrt (<) (xs :: key list) \<Longrightarrow> sorted_wrt (>) (rev xs)"
  by (simp add: sorted_wrt_rev)

lemma scan_candidates_window:
  assumes "store_inv s" "ordered s = Some index"
  shows "scan_candidates index spec = take (usize_add (sp_max_items spec) 1) (window_keys s spec)"
proof -
  let ?above = "\<lambda>k. (case sp_start spec of None \<Rightarrow> [] | Some start \<Rightarrow> start) \<le> k"
  let ?below = "\<lambda>k. case sp_end spec of None \<Rightarrow> True | Some upper \<Rightarrow> k < upper"
  have sorted: "sorted_wrt (<) index" and index: "bt_keys (objects s) = index" using index_sorted [OF assms] by auto
  have contains: "spec_contains spec = (\<lambda>k. ?above k \<and> ?below k)"
    by (auto simp: spec_contains_def fun_eq_iff not_less split: option.split)
  show ?thesis
  proof (cases "sp_direction spec")
    case Forward
    have "takeWhile (\<lambda>k. \<not> (case sp_end spec of None \<Rightarrow> False | Some upper \<Rightarrow> upper \<le> k)) (filter ?above index)
        = filter (\<lambda>k. \<not> (case sp_end spec of None \<Rightarrow> False | Some upper \<Rightarrow> upper \<le> k)) (filter ?above index)"
      using sorted by (intro takeWhile_filter [of "(<)"]) (auto simp: sorted_wrt_filter not_le split: option.splits)
    then show ?thesis
      unfolding scan_candidates_def window_keys_def contains index Forward Let_def scan_direction.case
      by (auto simp: not_le intro!: arg_cong [of _ _ "take _"] filter_cong split: option.splits)
  next
    case Reverse
    have "takeWhile (\<lambda>k. \<not> k < (case sp_start spec of None \<Rightarrow> [] | Some start \<Rightarrow> start)) (rev (filter ?below index))
        = filter (\<lambda>k. \<not> k < (case sp_start spec of None \<Rightarrow> [] | Some start \<Rightarrow> start)) (rev (filter ?below index))"
      using sorted by (intro takeWhile_filter [of "(>)"]) (auto simp: sorted_wrt_rev sorted_wrt_filter split: option.splits)
    then show ?thesis
      unfolding scan_candidates_def window_keys_def contains index Reverse Let_def scan_direction.case
      by (simp add: not_less rev_filter [symmetric] conj_commute)
  qed
qed

lemma take_filter_take: "n \<le> length (filter P (take m xs)) \<Longrightarrow> take n (filter P (take m xs)) = take n (filter P xs)"
  using append_take_drop_id [of m xs] filter_append [of P "take m xs" "drop m xs"] by simp

lemma pages_keys:
  assumes "pages spec [] None ms p"
  shows "map en_key (pg_entries p) = take (length (pg_entries p)) (map fst ms)" "length (pg_entries p) \<le> length ms"
proof -
  from assms have shows': "list_all2 (entry_shows spec) (pg_entries p) (take (length (pg_entries p)) ms)"
    by (auto simp: pages_def)
  then show "length (pg_entries p) \<le> length ms" by (auto dest: list_all2_lengthD)
  have "map en_key es = map fst ns" if "list_all2 (entry_shows spec) es ns" for es ns
    using that by induction (auto simp: entry_shows_def)
  from this [OF shows'] show "map en_key (pg_entries p) = take (length (pg_entries p)) (map fst ms)"
    by (simp add: take_map)
qed

lemma pages_values:
  assumes "pages spec [] None ms p" "e \<in> set (pg_entries p)"
  shows "\<exists>obj. (en_key e, obj) \<in> set ms \<and> value_shown spec (so_value obj) (en_value e)"
proof -
  have "list_all2 (entry_shows spec) (pg_entries p) (take (length (pg_entries p)) ms)"
    using assms(1) by (auto simp: pages_def)
  moreover have "\<exists>m \<in> set ns. entry_shows spec e m" if "list_all2 (entry_shows spec) es ns" "e \<in> set es" for es ns
    using that by induction auto
  ultimately obtain m where "m \<in> set ms" "entry_shows spec e m" using assms(2) by (meson in_set_takeD)
  then show ?thesis unfolding entry_shows_def by (intro exI [of _ "snd m"]) simp
qed

lemma filter_contains_window: "filter (\<lambda>k. P k \<and> spec_contains spec k) (window_keys s spec) = filter P (window_keys s spec)"
  by (rule filter_cong) (auto simp: window_keys_def Let_def split: scan_direction.splits)

lemma usize_add_1: "n < usize_MAX \<Longrightarrow> usize_add n (Suc 0) = Suc n"
  by (simp add: usize_add_def)

lemma scan_range_page:
  assumes "store_inv s" "ordered s = Some index" "valid_spec spec"
    and "index_term spec = None" "index_term_range spec = None"
  defines "seen \<equiv> take (Suc (sp_max_items spec)) (window_keys s spec)"
  shows "\<exists>p q. scan_range s spec now = Inr p \<and> pages spec [] None (visible_objects s spec now seen) q
    \<and> pg_entries p = pg_entries q \<and> pg_last_key p = pg_last_key q
    \<and> (pg_exhausted p \<longrightarrow> pg_exhausted q)
    \<and> (pg_exhausted q \<longrightarrow> pg_exhausted p \<or> sp_max_items spec \<le> length (pg_entries p))
    \<and> (list_all (scan_visible s now) seen \<longrightarrow> pg_exhausted p = pg_exhausted q)"
proof -
  have range: "scan_range s spec now = scan_loop s spec now seen [] 0 None"
    using assms scan_candidates_window [OF assms(1,2)]
    by (simp add: scan_range_def valid_spec_def usize_add_1)
  obtain q where q: "page_loop (visible_objects s spec now seen) spec [] 0 None = Inr q"
      "pages spec [] None (visible_objects s spec now seen) q"
    using page_loop_pages [of spec "[]" 0 "visible_objects s spec now seen" None] assms(3) by (auto simp: valid_spec_def)
  have "list_all (spec_contains spec) seen"
    unfolding list_all_iff seen_def by (auto simp: window_keys_def Let_def dest!: in_set_takeD split: scan_direction.splits)
  then have "scan_loop s spec now seen [] 0 None = Inr q" if "list_all (scan_visible s now) seen"
    using scan_loop_all_visible [of s now spec seen] that q(1) by (auto simp: list_all_iff)
  then show ?thesis
    using scan_loop_page_loop [of s spec now seen "[]" 0 None] q range by auto
qed

section \<open>Correctness\<close>

lemma scan_range_visible:
  assumes inv: "store_inv s" "ordered s = Some index" "valid_spec spec"
    and plain: "index_term spec = None" "index_term_range spec = None"
  shows "\<exists>p. scan_range s spec now = Inr p
    \<and> map en_key (pg_entries p) = take (length (pg_entries p)) (visible_keys s spec now)
    \<and> (\<forall>e \<in> set (pg_entries p).
        \<exists>obj. store_get s (en_key e) now = Some obj \<and> value_shown spec (so_value obj) (en_value e))
    \<and> length (pg_entries p) \<le> sp_max_items spec \<and> inline_bytes (pg_entries p) \<le> sp_max_bytes spec
    \<and> pg_last_key p = (if pg_entries p = [] then None else Some (en_key (last (pg_entries p))))
    \<and> (pg_exhausted p \<or> pg_entries p \<noteq> [])
    \<and> (list_all (scan_visible s now) (window_keys s spec)
        \<longrightarrow> (pg_exhausted p \<longleftrightarrow> map en_key (pg_entries p) = visible_keys s spec now))"
proof -
  define seen where "seen = take (Suc (sp_max_items spec)) (window_keys s spec)"
  let ?vs = "visible_objects s spec now seen"
  obtain p q where p: "scan_range s spec now = Inr p" "pages spec [] None ?vs q" "pg_entries p = pg_entries q"
      "pg_last_key p = pg_last_key q" "pg_exhausted p \<longrightarrow> pg_exhausted q"
      "pg_exhausted q \<longrightarrow> pg_exhausted p \<or> sp_max_items spec \<le> length (pg_entries p)"
      "list_all (scan_visible s now) seen \<longrightarrow> pg_exhausted p = pg_exhausted q"
    using scan_range_page [OF inv plain, of now] unfolding seen_def by blast
  have vs: "map fst ?vs = filter (scan_visible s now) seen"
    using filter_contains_window [of "scan_visible s now" spec s] unfolding fst_visible_objects seen_def
    by (auto intro!: filter_cong simp: window_keys_def Let_def dest!: in_set_takeD split: scan_direction.splits)
  note keys = pages_keys [OF p(2), unfolded vs]
  have len: "length (pg_entries p) \<le> length (filter (scan_visible s now) seen)"
    using keys(2) vs p(3) by (metis length_map)
  have prefix: "map en_key (pg_entries p) = take (length (pg_entries p)) (visible_keys s spec now)"
    using keys(1) len unfolding p(3) [symmetric] visible_keys_def seen_def by (simp add: take_filter_take)
  have exact: "pg_exhausted p \<longleftrightarrow> map en_key (pg_entries p) = visible_keys s spec now"
    if all: "list_all (scan_visible s now) (window_keys s spec)"
  proof -
    have all_seen: "list_all (scan_visible s now) seen" using all by (auto simp: list_all_iff seen_def dest: in_set_takeD)
    have W: "visible_keys s spec now = window_keys s spec" "filter (scan_visible s now) seen = seen"
      using all all_seen unfolding visible_keys_def by (simp_all add: list_all_iff filter_id_conv)
    have "pg_exhausted p \<longleftrightarrow> length (pg_entries p) = length seen"
      using p(2,3,7) all_seen vs W(2) unfolding pages_def by (metis append_Nil length_map)
    moreover have "length (pg_entries p) \<le> sp_max_items spec" using p(2,3) by (auto simp: pages_def)
    ultimately have "pg_exhausted p \<longleftrightarrow> length (pg_entries p) = length (window_keys s spec)"
      unfolding seen_def by auto
    then show ?thesis using prefix unfolding W(1) by (metis length_map take_all_iff order_refl)
  qed
  have shown: "\<exists>obj. store_get s (en_key e) now = Some obj \<and> value_shown spec (so_value obj) (en_value e)"
    if "e \<in> set (pg_entries p)" for e
    using pages_values [OF p(2)] visible_objects_live that unfolding p(3) by blast
  have budgets: "length (pg_entries p) \<le> sp_max_items spec" "inline_bytes (pg_entries p) \<le> sp_max_bytes spec"
      "pg_last_key p = (if pg_entries p = [] then None else Some (en_key (last (pg_entries p))))"
      "pg_exhausted p \<or> pg_entries p \<noteq> []"
    using p(2,6) inv(3) unfolding p(3,4) by (auto simp: pages_def valid_spec_def)
  show ?thesis
    by (intro exI [of _ p] conjI ballI impI p(1) prefix shown budgets exact)
qed


section \<open>Scans over index entries\<close>

definition index_entry :: "(index_id \<Rightarrow> bytes \<Rightarrow> bool) \<Rightarrow> key \<Rightarrow> bool" where
  "index_entry accept k \<longleftrightarrow>
    (\<exists>i tm primary. k = encode_non_unique_key i tm primary \<and> \<not> key_is_system primary \<and> accept i tm)"

definition index_entries :: "object_store \<Rightarrow> wall_timestamp \<Rightarrow> (index_id \<Rightarrow> bytes \<Rightarrow> bool) \<Rightarrow> key list" where
  "index_entries s now accept =
    filter (\<lambda>k. index_entry accept k \<and> store_get s k now \<noteq> None) (bt_keys (objects s))"

lemma entry_key_not_system [simp]: "\<not> key_is_system (encode_non_unique_key i tm primary)"
  by (simp add: encode_non_unique_key_def INDEX_FORMAT_TAG_def key_is_system_def SYSTEM_PREFIX_def)

lemma term_matches_Nil [simp]: "term_matches s now accept [] = []"
  by (simp add: term_matches_def)

lemma term_matches_Cons:
  "term_matches s now accept (k # ks) =
    (case (decode_non_unique_key k, store_get s k now) of
       (Inr (i, tm, _), Some obj) \<Rightarrow> if accept i tm then [(k, tm, obj)] else []
     | _ \<Rightarrow> []) @ term_matches s now accept ks"
  using decode_non_unique_iff [of k] entry_key_not_system
  by (auto simp: term_matches_def List.map_filter_simps split: sum.splits option.splits)

lemma term_matches_keys:
  "map fst (term_matches s now accept ks) = filter (\<lambda>k. index_entry accept k \<and> store_get s k now \<noteq> None) ks"
proof (induction ks)
  case (Cons k ks)
  have "index_entry accept k \<longleftrightarrow> (\<exists>i tm p. decode_non_unique_key k = Inr (i, tm, p) \<and> accept i tm)"
    unfolding index_entry_def decode_non_unique_iff by auto
  then show ?case
    using Cons.IH by (cases "decode_non_unique_key k") (auto simp: term_matches_Cons split: option.split)
qed simp

lemma term_matches_mem:
  "(k, tm, obj) \<in> set (term_matches s now accept ks) \<Longrightarrow>
   store_get s k now = Some obj \<and> (\<exists>i primary. decode_non_unique_key k = Inr (i, tm, primary) \<and> accept i tm)"
  by (induction ks) (auto simp: term_matches_Cons split: sum.splits option.splits if_splits, metis)

lemma page_sorted_matches_take:
  assumes "valid_spec spec"
  shows "\<exists>p. page_sorted_matches (take (usize_add (sp_max_items spec) 1) ms) spec = Inr p
    \<and> map en_key (pg_entries p) = take (length (pg_entries p)) (map fst ms)
    \<and> (pg_exhausted p \<longleftrightarrow> map en_key (pg_entries p) = map fst ms)
    \<and> (pg_exhausted p \<or> pg_entries p \<noteq> [])
    \<and> (\<forall>e \<in> set (pg_entries p). \<exists>obj. (en_key e, obj) \<in> set ms \<and> value_shown spec (so_value obj) (en_value e))"
proof -
  let ?n = "Suc (sp_max_items spec)"
  have n: "usize_add (sp_max_items spec) 1 = ?n" using assms usize_add_1 by (simp add: valid_spec_def)
  obtain p where p: "page_sorted_matches (take ?n ms) spec = Inr p" "pages spec [] None (take ?n ms) p"
    using page_sorted_matches_pages [OF assms] by blast
  have len: "length (pg_entries p) \<le> sp_max_items spec" "pg_exhausted p \<or> pg_entries p \<noteq> []"
      "pg_exhausted p \<longleftrightarrow> length (pg_entries p) = length (take ?n ms)"
    using p(2) by (auto simp: pages_def)
  have prefix: "map en_key (pg_entries p) = take (length (pg_entries p)) (map fst ms)"
    using pages_keys(1) [OF p(2)] len(1) by (simp add: take_map [symmetric] min_def)
  have "pg_exhausted p \<longleftrightarrow> length (pg_entries p) = length ms" using len(1,3) by auto
  then have "pg_exhausted p \<longleftrightarrow> map en_key (pg_entries p) = map fst ms"
    using prefix by (metis length_map take_all_iff order_refl)
  moreover have "\<exists>obj. (en_key e, obj) \<in> set ms \<and> value_shown spec (so_value obj) (en_value e)"
    if "e \<in> set (pg_entries p)" for e
    using pages_values [OF p(2) that] by (meson in_set_takeD)
  ultimately show ?thesis using p(1) prefix len(2) unfolding n by blast
qed

text \<open>The entries a window over index entries asks for.\<close>

definition index_query :: "scan_spec \<Rightarrow> (index_id \<Rightarrow> bytes \<Rightarrow> bool) option" where
  "index_query spec =
    (case index_term spec of
       Some (i, tm) \<Rightarrow> Some (\<lambda>found found_term. found = i \<and> found_term = tm)
     | None \<Rightarrow>
         (case index_term_range spec of
            Some (i, start_term, end_term) \<Rightarrow>
              Some (\<lambda>found found_term. found = i \<and> start_term \<le> found_term \<and> found_term < end_term)
          | None \<Rightarrow> None))"

lemma term_prefix_parts_prefix [simp]: "term_prefix_parts (term_prefix i tm) = Some (i, tm)"
  by (simp add: term_prefix_parts_iff)

lemma term_prefix_inject: "term_prefix i tm = term_prefix j u \<longleftrightarrow> i = j \<and> tm = u"
  by (metis term_prefix_parts_prefix option.inject prod.inject)

lemma index_term_iff:
  "index_term spec = Some (i, tm) \<longleftrightarrow>
    sp_direction spec = Forward \<and> sp_start spec = Some (term_prefix i tm) \<and> sp_end spec \<noteq> None
    \<and> prefix_successor (term_prefix i tm) = sp_end spec"
proof -
  have "\<not> length (term_prefix i tm) < length INDEX_FORMAT_TAG" by (simp add: term_prefix_def)
  then show ?thesis
    by (auto simp: index_term_def term_prefix_parts_iff term_prefix_inject split: option.splits if_splits)
qed

lemma index_term_range_iff:
  "index_term_range spec = Some (i, lo, hi) \<longleftrightarrow>
    sp_direction spec = Forward \<and> sp_start spec = Some (term_prefix i lo) \<and> sp_end spec = Some (term_prefix i hi) \<and> lo < hi"
  by (auto simp: index_term_range_def term_prefix_parts_iff term_prefix_inject split: option.splits if_splits)

lemma sort_matches:
  assumes "sorted_wrt (<) index" "\<And>found tm. accept found tm \<Longrightarrow> found = i"
  shows "sort_key (\<lambda>(k, tm, _). (tm, k)) (term_matches s now accept index) = term_matches s now accept index"
    and "sort_key fst (map (\<lambda>(k, _, obj). (k, obj)) (term_matches s now accept index))
      = map (\<lambda>(k, _, obj). (k, obj)) (term_matches s now accept index)"
proof -
  let ?ms = "term_matches s now accept index"
  have keys: "sorted_wrt (\<lambda>m n. fst m < fst n) ?ms"
    using assms(1) sorted_wrt_map [of "(<)" fst ?ms] by (simp add: term_matches_keys sorted_wrt_filter)
  then show "sort_key fst (map (\<lambda>(k, _, obj). (k, obj)) ?ms) = map (\<lambda>(k, _, obj). (k, obj)) ?ms"
    by (intro sort_key_id_if_sorted) (auto simp: sorted_wrt_map split_beta intro: sorted_wrt_mono_rel [OF _ keys])
  have step: "(tm, k) \<le> (tm', k')" if "(k, tm, obj) \<in> set ?ms" "(k', tm', obj') \<in> set ?ms" "k < k'" for k tm obj k' tm' obj'
  proof -
    note mem = term_matches_mem [OF that(1)] term_matches_mem [OF that(2)]
    obtain p q where "k = encode_non_unique_key i tm p" "\<not> key_is_system p"
        "k' = encode_non_unique_key i tm' q" "\<not> key_is_system q"
      using mem assms(2) unfolding decode_non_unique_iff by metis
    then show ?thesis using that(3) by (auto simp: entry_key_less less_imp_le)
  qed
  have "sorted_wrt (\<lambda>m n. (case m of (k, tm, _) \<Rightarrow> (tm, k)) \<le> (case n of (k, tm, _) \<Rightarrow> (tm, k))) ?ms"
  proof (rule sorted_wrt_mono_rel [OF _ keys])
    show "(case m of (k, tm, _) \<Rightarrow> (tm, k)) \<le> (case n of (k, tm, _) \<Rightarrow> (tm, k))"
      if "m \<in> set ?ms" "n \<in> set ?ms" "fst m < fst n" for m n
      using step that by (cases m; cases n) simp
  qed
  then show "sort_key (\<lambda>(k, tm, _). (tm, k)) ?ms = ?ms"
    by (intro sort_key_id_if_sorted) (simp add: sorted_wrt_map)
qed

lemma scan_range_index:
  assumes inv: "store_inv s" "ordered s = Some index" "valid_spec spec"
    and query: "index_query spec = Some accept"
  shows "\<exists>p. scan_range s spec now = Inr p
    \<and> map en_key (pg_entries p) = take (length (pg_entries p)) (index_entries s now accept)
    \<and> (pg_exhausted p \<longleftrightarrow> map en_key (pg_entries p) = index_entries s now accept)
    \<and> (pg_exhausted p \<or> pg_entries p \<noteq> [])
    \<and> (\<forall>e \<in> set (pg_entries p).
        \<exists>obj. store_get s (en_key e) now = Some obj \<and> value_shown spec (so_value obj) (en_value e))"
proof -
  note sorted = index_sorted [OF inv(1,2), THEN conjunct2]
  let ?ms = "map (\<lambda>(k, _, obj). (k, obj)) (term_matches s now accept index)"
  have range: "scan_range s spec now = page_sorted_matches (take (usize_add (sp_max_items spec) 1) ?ms) spec"
  proof (cases "index_term spec")
    case (Some cursor)
    then have accept: "accept = (\<lambda>found tm. found = fst cursor \<and> tm = snd cursor)"
      using query by (cases cursor) (simp add: index_query_def)
    have "sort_key fst ?ms = ?ms" using sort_matches(2) [OF sorted, of accept] accept by simp
    then show ?thesis using Some inv(2) by (simp add: scan_range_def scan_index_term_def accept)
  next
    case None
    then obtain i lo hi where cursor: "index_term_range spec = Some (i, lo, hi)"
        and accept: "accept = (\<lambda>found tm. found = i \<and> \<not> (tm < lo \<or> hi \<le> tm))"
      using query by (auto simp: index_query_def not_less not_le split: option.splits)
    have "sort_key (\<lambda>(k, tm, _). (tm, k)) (term_matches s now accept index) = term_matches s now accept index"
      using sort_matches(1) [OF sorted, of accept] accept by simp
    then show ?thesis using None cursor inv(2) by (simp add: scan_range_def scan_index_term_range_def accept take_map)
  qed
  have "map fst ?ms = index_entries s now accept"
    using term_matches_keys [of s now accept index] index_sorted [OF inv(1,2)] by (simp add: index_entries_def comp_def split_beta)
  moreover have "store_get s k now = Some obj" if "(k, obj) \<in> set ?ms" for k obj
    using that term_matches_mem by fastforce
  ultimately show ?thesis using page_sorted_matches_take [OF inv(3), of ?ms] unfolding range by metis
qed

text \<open>
  C37: A scan whose window asks for the entries of one term or of a range of terms of an index pages through exactly
  the live entries the tablet stores for them, in key order, without a gap; each entry shows the live object at its
  key, the page claims to be exhausted exactly when it has shown the last one, and otherwise it holds at least one.
\<close>
theorem index_scan_exact:
  assumes inv: "store_inv s" "ordered s = Some index" "valid_spec spec"
    and query: "index_query spec = Some accept"
  shows "\<exists>p. scan_range s spec now = Inr p
    \<and> map en_key (pg_entries p) = take (length (pg_entries p)) (index_entries s now accept)
    \<and> (pg_exhausted p \<longleftrightarrow> map en_key (pg_entries p) = index_entries s now accept)
    \<and> (pg_exhausted p \<or> pg_entries p \<noteq> [])
    \<and> (\<forall>e \<in> set (pg_entries p).
        \<exists>obj. store_get s (en_key e) now = Some obj \<and> value_shown spec (so_value obj) (en_value e))"
  by (rule scan_range_index [OF assms])

text \<open>
  C39: The page looks at no more than one key beyond its item budget, visible or not.  When the first keys of the
  window, one more than the budget, are all expired, system or index keys, the page is empty and claims
  to be exhausted, whatever visible keys lie behind them.
\<close>
theorem scan_blind_behind_invisible_keys:
  assumes "store_inv s" "ordered s = Some index" "valid_spec spec"
    and "index_term spec = None" "index_term_range spec = None"
    and "list_all (\<lambda>k. \<not> scan_visible s now k) (take (Suc (sp_max_items spec)) (window_keys s spec))"
  shows "scan_range s spec now = Inr \<lparr> pg_entries = [], pg_exhausted = True, pg_last_key = None \<rparr>"
proof -
  have skip: "scan_loop s spec now ks [] used lk = Inr (page_of [] False lk)"
    if "list_all (\<lambda>k. \<not> scan_visible s now k) ks" for ks used lk
    using that assms(3) by (induction ks) (simp_all add: scan_loop_skip valid_spec_def)
  show ?thesis
    using skip assms scan_candidates_window [OF assms(1,2)]
    by (simp add: scan_range_def valid_spec_def usize_add_1 page_of_def)
qed

section \<open>The split key\<close>

lemma find_half_mem: "find_half s whole acc ks = Some k \<Longrightarrow> k \<in> set ks"
  by (induction ks arbitrary: acc) (auto simp: Let_def split: option.splits if_splits)

text \<open>A split key is an ordinary stored key with another ordinary stored key below it.\<close>

theorem median_split_key_interior:
  assumes "store_inv s" "median_split_key s = Some k"
  shows "\<exists>low. low < k \<and> get_stored s low \<noteq> None \<and> get_stored s k \<noteq> None
    \<and> \<not> key_is_system low \<and> \<not> is_index_key low \<and> \<not> key_is_system k \<and> \<not> is_index_key k"
proof -
  obtain index where index: "ordered s = Some index" using assms(2) by (auto simp: median_split_key_def split: option.splits)
  define us where "us = filter (\<lambda>k. \<not> key_is_system k \<and> \<not> is_index_key k) index"
  have us: "2 \<le> length us" "find_half s (sum_list (List.map_filter (stored_size s) us)) 0 (tl us) = Some k"
    using assms(2) index by (auto simp: median_split_key_def us_def Let_def not_less split: if_splits)
  have sorted: "sorted_wrt (<) us" "set us \<subseteq> set (bt_keys (objects s))"
    using index_sorted [OF assms(1) index] by (auto simp: us_def sorted_wrt_filter)
  from us obtain low rest where us_eq: "us = low # rest" by (cases us) auto
  then have "k \<in> set rest" using find_half_mem [OF us(2)] by simp
  then have "low < k" "low \<in> set us" "k \<in> set us" using sorted(1) us_eq by auto
  then show ?thesis using sorted(2) unfolding us_def get_stored_def by (auto simp: bt_keys_iff subset_iff)
qed

section \<open>Examples\<close>

definition demo_object :: "expiry \<Rightarrow> stored_object" where
  "demo_object expires = stored_new (V_Bytes [7, 8]) 1 expires"

definition demo_store :: object_store where
  "demo_store =
    \<lparr> objects = [([97], demo_object (Some 5)), ([98], demo_object (Some 5)), ([99], demo_object None)],
      ordered = Some [[97], [98], [99]], intents = [] \<rparr>"

definition demo_spec :: scan_spec where
  "demo_spec =
    \<lparr> sp_start = None, sp_end = None, sp_direction = Forward, sp_max_items = 1, sp_max_bytes = 64,
      sp_projection = KeysAndValues \<rparr>"

lemmas demo_eval = demo_store_def demo_object_def demo_spec_def stored_new_def window_keys_def visible_keys_def
  scan_visible_def hidden_entry_def is_index_key_def spec_contains_def bt_keys_def bt_get_def store_get_def
  so_is_expired_def expiry_is_expired_def key_is_system_def SYSTEM_PREFIX_def

lemma demo_store_inv: "store_inv demo_store" "ordered demo_store = Some [[97], [98], [99]]"
  by (simp_all add: store_inv_def index_ok_def bt_wf_def object_wf_def demo_eval)

lemma demo_spec_plain: "valid_spec demo_spec" "index_term demo_spec = None" "index_term_range demo_spec = None"
  by (simp_all add: index_term_def index_term_range_def valid_spec_def empty_bounds_def usize_MAX_def demo_spec_def)

lemma demo_keys: "visible_keys demo_store demo_spec 3 = [[97], [98], [99]]"
  "window_keys demo_store demo_spec = [[97], [98], [99]]" "visible_keys demo_store demo_spec 9 = [[99]]"
  by (simp_all add: demo_eval)


theorem scan_blind_behind_invisible_keys_witness:
  "scan_range demo_store demo_spec 9 = Inr \<lparr> pg_entries = [], pg_exhausted = True, pg_last_key = None \<rparr>
    \<and> visible_keys demo_store demo_spec 9 = [[99]]"
proof -
  have "list_all (\<lambda>k. \<not> scan_visible demo_store 9 k) (take (Suc (sp_max_items demo_spec)) (window_keys demo_store demo_spec))"
    by (simp add: demo_eval)
  from scan_blind_behind_invisible_keys [OF demo_store_inv demo_spec_plain this] show ?thesis by (simp add: demo_keys)
qed

definition demo_index_key :: key where
  "demo_index_key = encode_non_unique_key 3 [116] [97]"

definition demo_index_store :: object_store where
  "demo_index_store =
    \<lparr> objects = [(demo_index_key, demo_object None)], ordered = Some [demo_index_key], intents = [] \<rparr>"

definition demo_term_spec :: scan_spec where
  "demo_term_spec = demo_spec\<lparr> sp_start := Some (term_prefix 3 [116]), sp_end := prefix_successor (term_prefix 3 [116]) \<rparr>"

theorem index_scan_exact_witness:
  "\<exists>p. scan_range demo_index_store demo_term_spec 9 = Inr p \<and> map en_key (pg_entries p) = [demo_index_key]
    \<and> pg_exhausted p"
proof -
  let ?accept = "\<lambda>i tm. i = (3 :: index_id) \<and> tm = [116 :: u8]"
  have inv: "store_inv demo_index_store" "ordered demo_index_store = Some [demo_index_key]"
    by (simp_all add: store_inv_def index_ok_def bt_wf_def object_wf_def demo_index_store_def demo_eval)
  have valid: "valid_spec demo_term_spec" "index_query demo_term_spec = Some ?accept"
  proof -
    have stop: "prefix_successor (term_prefix 3 [116]) = Some (INDEX_FORMAT_TAG @ to_be 3 @ [0, 116, 1])"
      by (simp add: term_prefix_def prefix_successor_def)
    have "index_term demo_term_spec = Some (3, [116])"
      unfolding index_term_iff by (simp add: demo_term_spec_def demo_spec_def stop)
    then show "index_query demo_term_spec = Some ?accept" by (simp add: index_query_def)
    show "valid_spec demo_term_spec"
      using stop by (simp add: valid_spec_def demo_term_spec_def demo_spec_def usize_MAX_def empty_bounds_def term_prefix_def
          not_le less_append_same)
  qed
  have "index_entry ?accept demo_index_key"
    unfolding index_entry_def demo_index_key_def by (auto simp: key_is_system_def SYSTEM_PREFIX_def)
  then have entries: "index_entries demo_index_store 9 ?accept = [demo_index_key]"
    by (simp add: index_entries_def demo_index_store_def demo_eval)
  obtain p where p: "scan_range demo_index_store demo_term_spec 9 = Inr p"
      "map en_key (pg_entries p) = take (length (pg_entries p)) [demo_index_key]"
      "pg_exhausted p \<longleftrightarrow> map en_key (pg_entries p) = [demo_index_key]" "pg_exhausted p \<or> pg_entries p \<noteq> []"
    using index_scan_exact [OF inv valid, of 9] unfolding entries by metis
  then show ?thesis by (cases "pg_entries p") auto
qed

end
