(* ===== verification/Ranges.thy ===== *)
theory Ranges
  imports Ids
begin

text \<open>
  Partition ranges, \<open>crates/kivi-tablet/src/range.rs\<close>: binary hash prefixes over the 128-bit
  partition-hash space, half-open ordered key ranges, and the tagged union a tablet owns.

  The locale \<open>range_space\<close> states what a directory needs of a range type: that the syntactic
  overlap test decides whether two well-formed ranges share a point.  It is interpreted for both
  kinds of range.
\<close>

section \<open>Hash prefixes\<close>

datatype range_error =
    PrefixTooLong u8
  | PrefixUncanonical u128 u8
  | EmptyOrderedRange
  | InvalidSplitKey
  | NotAdjacent

definition MAX_PREFIX_LEN :: u8 where
  "MAX_PREFIX_LEN = 128"

record hash_prefix =
  hp_bits :: u128
  hp_len :: u8

definition hash_prefix_new :: "u128 \<Rightarrow> u8 \<Rightarrow> range_error + hash_prefix" where
  "hash_prefix_new bits len =
    (if len > MAX_PREFIX_LEN then Inl (PrefixTooLong len)
     else if len = 0 then
       (if bits \<noteq> 0 then Inl (PrefixUncanonical bits len)
        else Inr \<lparr>hp_bits = bits, hp_len = len\<rparr>)
     else
       (let insignificant = (if len = MAX_PREFIX_LEN then 0 else drop_bit (unat len) (- 1)) in
        if bits AND insignificant \<noteq> 0 then Inl (PrefixUncanonical bits len)
        else Inr \<lparr>hp_bits = bits, hp_len = len\<rparr>))"

definition hash_prefix_is_root :: "hash_prefix \<Rightarrow> bool" where
  "hash_prefix_is_root p \<longleftrightarrow> hp_len p = 0"

definition hash_prefix_check :: "hash_prefix \<Rightarrow> range_error + unit" where
  "hash_prefix_check p = map_ok (\<lambda>_. ()) (hash_prefix_new (hp_bits p) (hp_len p))"

definition hash_prefix_contains :: "hash_prefix \<Rightarrow> partition_hash \<Rightarrow> bool" where
  "hash_prefix_contains p hash =
    (if hp_len p = 0 then True
     else let shift = unat (MAX_PREFIX_LEN - hp_len p) in
       drop_bit shift hash = drop_bit shift (hp_bits p))"

definition hash_prefix_overlaps :: "hash_prefix \<Rightarrow> hash_prefix \<Rightarrow> bool" where
  "hash_prefix_overlaps p q =
    (let common = min (hp_len p) (hp_len q) in
     if common = 0 then True
     else let shift = unat (MAX_PREFIX_LEN - common) in
       drop_bit shift (hp_bits p) = drop_bit shift (hp_bits q))"

definition split_midpoint :: "hash_prefix \<Rightarrow> range_error + (hash_prefix \<times> hash_prefix \<times> u128)" where
  "split_midpoint p =
    (if hp_len p \<ge> MAX_PREFIX_LEN then Inl (PrefixTooLong (hp_len p))
     else
       (let len = hp_len p + 1;
            half = push_bit (unat (MAX_PREFIX_LEN - len)) 1 in
        and_then (hash_prefix_new (hp_bits p) len) (\<lambda>left.
        and_then (hash_prefix_new (hp_bits p OR half) len) (\<lambda>right.
          Inr (left, right, hp_bits p OR half)))))"

definition is_midpoint_split_of :: "hash_prefix \<Rightarrow> hash_prefix \<Rightarrow> hash_prefix \<Rightarrow> bool" where
  "is_midpoint_split_of p left right =
    (case split_midpoint p of
       Inl e \<Rightarrow> False
     | Inr (expect_left, expect_right, m) \<Rightarrow> expect_left = left \<and> expect_right = right)"

section \<open>Ordered ranges\<close>

record ordered_range =
  or_start :: bytes
  or_end :: "bytes option"

definition ordered_range_new :: "bytes \<Rightarrow> bytes option \<Rightarrow> range_error + ordered_range" where
  "ordered_range_new start end =
    (case end of
       Some bound \<Rightarrow>
         if start \<ge> bound then Inl EmptyOrderedRange else Inr \<lparr>or_start = start, or_end = end\<rparr>
     | None \<Rightarrow> Inr \<lparr>or_start = start, or_end = end\<rparr>)"

definition ordered_range_check :: "ordered_range \<Rightarrow> range_error + unit" where
  "ordered_range_check r = map_ok (\<lambda>_. ()) (ordered_range_new (or_start r) (or_end r))"

definition ordered_range_contains :: "ordered_range \<Rightarrow> bytes \<Rightarrow> bool" where
  "ordered_range_contains r key =
    (if key < or_start r then False
     else case or_end r of None \<Rightarrow> True | Some bound \<Rightarrow> key < bound)"

definition below_end :: "bytes \<Rightarrow> bytes option \<Rightarrow> bool" where
  "below_end start end = (case end of None \<Rightarrow> True | Some bound \<Rightarrow> start < bound)"

definition ordered_range_overlaps :: "ordered_range \<Rightarrow> ordered_range \<Rightarrow> bool" where
  "ordered_range_overlaps r s \<longleftrightarrow>
    below_end (or_start r) (or_end s) \<and> below_end (or_start s) (or_end r)"

definition split_at :: "ordered_range \<Rightarrow> bytes \<Rightarrow> range_error + (ordered_range \<times> ordered_range)" where
  "split_at r key =
    (let halves = (\<lparr>or_start = or_start r, or_end = Some key\<rparr>,
                   \<lparr>or_start = key, or_end = or_end r\<rparr>) in
     if key \<le> or_start r then Inl InvalidSplitKey
     else case or_end r of
         Some bound \<Rightarrow> if key \<ge> bound then Inl InvalidSplitKey else Inr halves
       | None \<Rightarrow> Inr halves)"

definition is_adjacent_to :: "ordered_range \<Rightarrow> ordered_range \<Rightarrow> bool" where
  "is_adjacent_to r s \<longleftrightarrow> or_end r = Some (or_start s)"

definition merge_with :: "ordered_range \<Rightarrow> ordered_range \<Rightarrow> range_error + ordered_range" where
  "merge_with r s =
    (if \<not> is_adjacent_to r s then Inl NotAdjacent
     else Inr \<lparr>or_start = or_start r, or_end = or_end s\<rparr>)"

section \<open>Partition ranges\<close>

datatype partition_kind = KindHash | KindOrdered

datatype partition_range = RangeHash hash_prefix | RangeOrdered ordered_range

fun range_kind :: "partition_range \<Rightarrow> partition_kind" where
  "range_kind (RangeHash p) = KindHash"
| "range_kind (RangeOrdered r) = KindOrdered"

fun range_check :: "partition_range \<Rightarrow> range_error + unit" where
  "range_check (RangeHash p) = hash_prefix_check p"
| "range_check (RangeOrdered r) = ordered_range_check r"

fun contains_hash :: "partition_range \<Rightarrow> partition_hash \<Rightarrow> bool" where
  "contains_hash (RangeHash p) hash = hash_prefix_contains p hash"
| "contains_hash (RangeOrdered r) hash = False"

fun contains_key :: "partition_range \<Rightarrow> bytes \<Rightarrow> bool" where
  "contains_key (RangeHash p) key = False"
| "contains_key (RangeOrdered r) key = ordered_range_contains r key"

fun range_overlaps :: "partition_range \<Rightarrow> partition_range \<Rightarrow> bool" where
  "range_overlaps (RangeHash l) (RangeHash r) = hash_prefix_overlaps l r"
| "range_overlaps (RangeOrdered l) (RangeOrdered r) = ordered_range_overlaps l r"
| "range_overlaps _ _ = False"

section \<open>Well-formedness\<close>

definition hash_prefix_wf :: "hash_prefix \<Rightarrow> bool" where
  "hash_prefix_wf p \<longleftrightarrow>
    unat (hp_len p) \<le> 128 \<and> (\<forall>i < 128 - unat (hp_len p). \<not> bit (hp_bits p) i)"

definition ordered_range_wf :: "ordered_range \<Rightarrow> bool" where
  "ordered_range_wf r \<longleftrightarrow> below_end (or_start r) (or_end r)"

fun range_wf :: "partition_range \<Rightarrow> bool" where
  "range_wf (RangeHash p) = hash_prefix_wf p"
| "range_wf (RangeOrdered r) = ordered_range_wf r"

text \<open>The points a directory routes: a partition hash or a raw key.\<close>

datatype point = HashPoint partition_hash | KeyPoint bytes

fun range_covers :: "partition_range \<Rightarrow> point \<Rightarrow> bool" where
  "range_covers r (HashPoint h) = contains_hash r h"
| "range_covers r (KeyPoint k) = contains_key r k"

section \<open>The contract of a range type\<close>

locale range_space =
  fixes wf :: "'r \<Rightarrow> bool"
    and contains :: "'r \<Rightarrow> 'p \<Rightarrow> bool"
    and overlaps :: "'r \<Rightarrow> 'r \<Rightarrow> bool"
  assumes overlaps_iff: "wf r \<Longrightarrow> wf s \<Longrightarrow> overlaps r s \<longleftrightarrow> (\<exists>x. contains r x \<and> contains s x)"
    and inhabited: "wf r \<Longrightarrow> \<exists>x. contains r x"
begin

lemma overlaps_sym: "wf r \<Longrightarrow> wf s \<Longrightarrow> overlaps r s \<longleftrightarrow> overlaps s r"
  by (auto simp: overlaps_iff)

lemma overlaps_refl: "wf r \<Longrightarrow> overlaps r r"
  using inhabited by (auto simp: overlaps_iff)

lemma disjoint_point: "wf r \<Longrightarrow> wf s \<Longrightarrow> \<not> overlaps r s \<Longrightarrow> contains r x \<Longrightarrow> \<not> contains s x"
  by (auto simp: overlaps_iff)

text \<open>Shrinking a range keeps it disjoint from everything it was disjoint from.\<close>

lemma disjoint_subrange:
  assumes "wf r" "wf r'" "wf s" "\<not> overlaps r s" "\<And>x. contains r' x \<Longrightarrow> contains r x"
  shows "\<not> overlaps r' s"
  using assms by (auto simp: overlaps_iff)

text \<open>Two parts of a range that is disjoint from \<open>s\<close>, covering it, are disjoint from \<open>s\<close>, and conversely.\<close>

lemma disjoint_cover:
  assumes "wf r" "wf a" "wf b" "wf s" "\<And>x. contains r x \<longleftrightarrow> contains a x \<or> contains b x"
  shows "overlaps r s \<longleftrightarrow> overlaps a s \<or> overlaps b s"
  using assms by (auto simp: overlaps_iff)

end

section \<open>Hash prefixes: bit-level characterisations\<close>

lemma unat_shift: "unat (l :: u8) \<le> 128 \<Longrightarrow> unat (MAX_PREFIX_LEN - l) = 128 - unat l"
  by (simp add: MAX_PREFIX_LEN_def unat_sub word_le_nat_alt)

lemma bit_u128_less: "bit (x :: u128) i \<Longrightarrow> i < 128"
  using bit_imp_le_length [of x i] by simp

lemma hash_prefix_new_ok_iff:
  "hash_prefix_new b l = Inr p \<longleftrightarrow> p = \<lparr>hp_bits = b, hp_len = l\<rparr> \<and> hash_prefix_wf p"
proof -
  have len: "l > MAX_PREFIX_LEN \<longleftrightarrow> \<not> unat l \<le> 128" "l = MAX_PREFIX_LEN \<longleftrightarrow> unat l = 128"
    by (auto simp: MAX_PREFIX_LEN_def word_less_nat_alt word_unat_eq_iff)
  have low: "b AND drop_bit (unat l) (- 1) = 0 \<longleftrightarrow> (\<forall>i < 128 - unat l. \<not> bit b i)"
    by (auto simp: bit_eq_iff bit_and_iff bit_mask_iff dest: bit_u128_less)
  have zero: "b = 0 \<longleftrightarrow> (\<forall>i < 128. \<not> bit b i)"
    by (auto simp: bit_eq_iff)
  show ?thesis
  proof (cases "l = 0")
    case True
    then show ?thesis by (auto simp: hash_prefix_new_def hash_prefix_wf_def len zero)
  next
    case False
    then show ?thesis
      by (auto simp only: hash_prefix_new_def hash_prefix_wf_def len low Let_def and_zero_eq
          hash_prefix.simps if_False if_True split: if_splits)
  qed
qed

lemma hash_prefix_new_wf:
  "hash_prefix_wf \<lparr>hp_bits = b, hp_len = l\<rparr> \<Longrightarrow> hash_prefix_new b l = Inr \<lparr>hp_bits = b, hp_len = l\<rparr>"
  by (simp add: hash_prefix_new_ok_iff)

lemma hash_prefix_check_ok_iff [simp]: "hash_prefix_check p = Inr () \<longleftrightarrow> hash_prefix_wf p"
  by (cases p) (auto simp: hash_prefix_check_def hash_prefix_new_ok_iff result_simps)

lemma hash_prefix_contains_iff:
  assumes "unat (hp_len p) \<le> 128"
  shows "hash_prefix_contains p h \<longleftrightarrow>
    (\<forall>i. 128 - unat (hp_len p) \<le> i \<and> i < 128 \<longrightarrow> bit h i = bit (hp_bits p) i)"
  using assms
  by (auto simp: hash_prefix_contains_def unat_shift drop_bit_eq_iff Let_def dest: bit_u128_less)

lemma hash_prefix_overlaps_bits:
  assumes "unat (hp_len p) \<le> unat (hp_len q)" "unat (hp_len q) \<le> 128"
  shows "hash_prefix_overlaps p q \<longleftrightarrow> hash_prefix_contains p (hp_bits q)"
proof -
  have "min (hp_len p) (hp_len q) = hp_len p"
    using assms by (simp add: min_def word_le_nat_alt)
  then show ?thesis
    by (auto simp: hash_prefix_overlaps_def hash_prefix_contains_def Let_def)
qed

lemma hash_prefix_overlaps_commute: "hash_prefix_overlaps p q = hash_prefix_overlaps q p"
  by (auto simp: hash_prefix_overlaps_def Let_def min.commute)

lemma hash_prefix_contains_own_bits [simp]: "hash_prefix_contains p (hp_bits p)"
  by (simp add: hash_prefix_contains_def Let_def)

lemma hash_prefix_overlaps_iff_le:
  assumes "unat (hp_len p) \<le> unat (hp_len q)" "unat (hp_len q) \<le> 128"
  shows "hash_prefix_overlaps p q \<longleftrightarrow> (\<exists>h. hash_prefix_contains p h \<and> hash_prefix_contains q h)"
proof
  assume "hash_prefix_overlaps p q"
  with assms show "\<exists>h. hash_prefix_contains p h \<and> hash_prefix_contains q h"
    by (auto simp: hash_prefix_overlaps_bits intro: exI [of _ "hp_bits q"])
qed (use assms in \<open>auto simp: hash_prefix_overlaps_bits hash_prefix_contains_iff\<close>)

lemma hash_prefix_overlaps_iff:
  assumes "hash_prefix_wf p" "hash_prefix_wf q"
  shows "hash_prefix_overlaps p q \<longleftrightarrow> (\<exists>h. hash_prefix_contains p h \<and> hash_prefix_contains q h)"
proof (cases "unat (hp_len p) \<le> unat (hp_len q)")
  case True
  with assms show ?thesis by (simp add: hash_prefix_overlaps_iff_le hash_prefix_wf_def)
next
  case False
  with assms show ?thesis
    using hash_prefix_overlaps_iff_le [of q p]
    by (auto simp: hash_prefix_overlaps_commute [of p] hash_prefix_wf_def)
qed

interpretation hash_space: range_space hash_prefix_wf hash_prefix_contains hash_prefix_overlaps
  by unfold_locales (auto simp: hash_prefix_overlaps_iff intro: hash_prefix_contains_own_bits)

section \<open>Ordered ranges\<close>

lemma ordered_range_new_ok_iff:
  "ordered_range_new a b = Inr r \<longleftrightarrow> r = \<lparr>or_start = a, or_end = b\<rparr> \<and> ordered_range_wf r"
  by (auto simp: ordered_range_new_def ordered_range_wf_def below_end_def split: option.splits)

lemma ordered_range_check_ok_iff [simp]: "ordered_range_check r = Inr () \<longleftrightarrow> ordered_range_wf r"
  by (cases r) (auto simp: ordered_range_check_def ordered_range_new_ok_iff result_simps)

lemma ordered_range_contains_iff:
  "ordered_range_contains r k \<longleftrightarrow> or_start r \<le> k \<and> below_end k (or_end r)"
  by (auto simp: ordered_range_contains_def below_end_def split: option.splits)

lemma below_end_trans: "a \<le> b \<Longrightarrow> below_end b e \<Longrightarrow> below_end a e"
  by (auto simp: below_end_def split: option.splits)

lemma ordered_range_overlaps_iff:
  assumes "ordered_range_wf r" "ordered_range_wf s"
  shows "ordered_range_overlaps r s \<longleftrightarrow> (\<exists>k. ordered_range_contains r k \<and> ordered_range_contains s k)"
proof
  assume "ordered_range_overlaps r s"
  with assms have "ordered_range_contains r (max (or_start r) (or_start s))
      \<and> ordered_range_contains s (max (or_start r) (or_start s))"
    by (auto simp: ordered_range_contains_iff ordered_range_overlaps_def ordered_range_wf_def max_def)
  then show "\<exists>k. ordered_range_contains r k \<and> ordered_range_contains s k" by blast
qed (auto simp: ordered_range_contains_iff ordered_range_overlaps_def intro: below_end_trans)

interpretation ordered_space: range_space ordered_range_wf ordered_range_contains ordered_range_overlaps
  by unfold_locales
    (auto simp: ordered_range_overlaps_iff ordered_range_contains_iff ordered_range_wf_def
       intro: order_refl)

section \<open>Splitting and merging\<close>

lemma hash_prefix_child_wf:
  assumes "hash_prefix_wf p" "unat (hp_len p) < 128"
  shows "hash_prefix_wf \<lparr>hp_bits = hp_bits p, hp_len = hp_len p + 1\<rparr>"
    and "hash_prefix_wf \<lparr>hp_bits = hp_bits p OR 2 ^ (127 - unat (hp_len p)), hp_len = hp_len p + 1\<rparr>"
  using assms by (auto simp: hash_prefix_wf_def unat_word_ariths bit_or_iff bit_exp_iff)

lemma split_midpoint_eq:
  assumes "hash_prefix_wf p" "unat (hp_len p) < 128"
  shows "split_midpoint p =
    (let l = hp_len p + 1; m = hp_bits p OR 2 ^ (127 - unat (hp_len p)) in
     Inr (\<lparr>hp_bits = hp_bits p, hp_len = l\<rparr>, \<lparr>hp_bits = m, hp_len = l\<rparr>, m))"
proof -
  have len: "\<not> hp_len p \<ge> MAX_PREFIX_LEN"
    using assms by (simp add: MAX_PREFIX_LEN_def word_le_nat_alt)
  have shift: "unat (MAX_PREFIX_LEN - (hp_len p + 1)) = 127 - unat (hp_len p)"
    using assms by (subst unat_shift) (simp_all add: unat_word_ariths)
  show ?thesis
    unfolding split_midpoint_def Let_def shift using len
    by (simp add: hash_prefix_new_wf hash_prefix_child_wf [OF assms])
qed

lemma hash_prefix_children_contains:
  assumes "hash_prefix_wf p" "unat (hp_len p) < 128"
  shows "hash_prefix_contains \<lparr>hp_bits = hp_bits p, hp_len = hp_len p + 1\<rparr> h
      \<longleftrightarrow> hash_prefix_contains p h \<and> \<not> bit h (127 - unat (hp_len p))"
    and "hash_prefix_contains
        \<lparr>hp_bits = hp_bits p OR 2 ^ (127 - unat (hp_len p)), hp_len = hp_len p + 1\<rparr> h
      \<longleftrightarrow> hash_prefix_contains p h \<and> bit h (127 - unat (hp_len p))"
proof -
  obtain i where i: "127 - unat (hp_len p) = i" "128 - (unat (hp_len p) + 1) = i"
    "128 - unat (hp_len p) = Suc i" "i < 128"
    using assms(2) by auto
  have len: "unat (hp_len p + 1) = unat (hp_len p) + 1" "unat (hp_len p) + 1 \<le> 128"
    using assms by (simp_all add: unat_word_ariths)
  have unset: "\<not> bit (hp_bits p) i" using assms i by (auto simp: hash_prefix_wf_def)
  have parent: "hash_prefix_contains p h \<longleftrightarrow> (\<forall>j. Suc i \<le> j \<and> j < 128 \<longrightarrow> bit h j = bit (hp_bits p) j)"
    using assms(2) by (simp add: hash_prefix_contains_iff i(3))
  have child: "hash_prefix_contains \<lparr>hp_bits = b, hp_len = hp_len p + 1\<rparr> h
      \<longleftrightarrow> bit h i = bit b i \<and> (\<forall>j. Suc i \<le> j \<and> j < 128 \<longrightarrow> bit h j = bit b j)" for b
  proof -
    have "hash_prefix_contains \<lparr>hp_bits = b, hp_len = hp_len p + 1\<rparr> h
        \<longleftrightarrow> (\<forall>j. i \<le> j \<and> j < 128 \<longrightarrow> bit h j = bit b j)"
      using hash_prefix_contains_iff [of "\<lparr>hp_bits = b, hp_len = hp_len p + 1\<rparr>" h] len i(2) by simp
    then show ?thesis using i(4) by (metis Suc_leD le_neq_implies_less Suc_leI order_refl)
  qed
  have set_bit: "bit (hp_bits p OR 2 ^ i) j \<longleftrightarrow> bit (hp_bits p) j \<or> j = i" for j
    using i(4) by (auto simp: bit_or_iff bit_exp_iff)
  show "hash_prefix_contains \<lparr>hp_bits = hp_bits p, hp_len = hp_len p + 1\<rparr> h
      \<longleftrightarrow> hash_prefix_contains p h \<and> \<not> bit h (127 - unat (hp_len p))"
    using unset unfolding i(1) parent child by blast
  show "hash_prefix_contains
        \<lparr>hp_bits = hp_bits p OR 2 ^ (127 - unat (hp_len p)), hp_len = hp_len p + 1\<rparr> h
      \<longleftrightarrow> hash_prefix_contains p h \<and> bit h (127 - unat (hp_len p))"
    unfolding i(1) parent child set_bit by auto
qed

lemma split_midpoint_ok_iff:
  assumes "hash_prefix_wf p"
  shows "is_ok (split_midpoint p) \<longleftrightarrow> unat (hp_len p) < 128"
proof (cases "unat (hp_len p) < 128")
  case False
  then show ?thesis by (simp add: split_midpoint_def MAX_PREFIX_LEN_def word_le_nat_alt)
qed (simp add: split_midpoint_eq assms Let_def)

lemma split_midpoint_sound:
  assumes "hash_prefix_wf p" "split_midpoint p = Inr (l, r, m)"
  shows "hash_prefix_wf l" "hash_prefix_wf r" "hp_bits r = m"
    and "hash_prefix_contains l h \<or> hash_prefix_contains r h \<longleftrightarrow> hash_prefix_contains p h"
    and "\<not> (hash_prefix_contains l h \<and> hash_prefix_contains r h)"
proof -
  have len: "unat (hp_len p) < 128" using assms split_midpoint_ok_iff by (auto simp: is_ok_iff)
  note eq = split_midpoint_eq [OF assms(1) len] assms(2)
  show "hash_prefix_wf l" "hash_prefix_wf r" "hp_bits r = m"
    using eq hash_prefix_child_wf [OF assms(1) len] by (auto simp: Let_def)
  show "hash_prefix_contains l h \<or> hash_prefix_contains r h \<longleftrightarrow> hash_prefix_contains p h"
    and "\<not> (hash_prefix_contains l h \<and> hash_prefix_contains r h)"
    using eq hash_prefix_children_contains [OF assms(1) len] by (auto simp: Let_def)
qed

lemma split_at_ok_iff:
  "split_at r k = Inr (a, b) \<longleftrightarrow>
    or_start r < k \<and> below_end k (or_end r)
    \<and> a = \<lparr>or_start = or_start r, or_end = Some k\<rparr> \<and> b = \<lparr>or_start = k, or_end = or_end r\<rparr>"
  by (auto simp: split_at_def below_end_def Let_def split: option.splits)

lemma split_at_sound:
  assumes "split_at r k = Inr (a, b)"
  shows "ordered_range_wf a" "ordered_range_wf b" "is_adjacent_to a b"
    and "ordered_range_contains a x \<or> ordered_range_contains b x \<longleftrightarrow> ordered_range_contains r x"
    and "\<not> (ordered_range_contains a x \<and> ordered_range_contains b x)"
  using assms
  by (auto simp: split_at_ok_iff ordered_range_wf_def is_adjacent_to_def ordered_range_contains_iff
      below_end_def split: option.splits)

lemma merge_with_ok_iff:
  "merge_with a b = Inr r \<longleftrightarrow> is_adjacent_to a b \<and> r = \<lparr>or_start = or_start a, or_end = or_end b\<rparr>"
  by (auto simp: merge_with_def)

lemma merge_with_sound:
  assumes "ordered_range_wf a" "ordered_range_wf b" "merge_with a b = Inr r"
  shows "ordered_range_wf r"
    and "ordered_range_contains r x \<longleftrightarrow> ordered_range_contains a x \<or> ordered_range_contains b x"
  using assms
  by (auto simp: merge_with_ok_iff is_adjacent_to_def ordered_range_wf_def ordered_range_contains_iff
      below_end_def split: option.splits)

section \<open>Partition ranges\<close>

lemma range_check_ok_iff [simp]: "range_check r = Inr () \<longleftrightarrow> range_wf r"
  by (cases r) simp_all

lemma range_check_wf [simp]: "range_wf r \<Longrightarrow> range_check r = Inr ()"
  by simp

lemma range_overlaps_kind: "range_overlaps r s \<Longrightarrow> range_kind r = range_kind s"
  by (cases r; cases s) simp_all

lemma range_overlaps_commute: "range_wf r \<Longrightarrow> range_wf s \<Longrightarrow> range_overlaps r s = range_overlaps s r"
  by (cases r; cases s) (simp_all add: hash_prefix_overlaps_commute ordered_space.overlaps_sym)

lemma ex_point: "(\<exists>x. P x) \<longleftrightarrow> (\<exists>h. P (HashPoint h)) \<or> (\<exists>k. P (KeyPoint k))"
  by (metis point.exhaust)

interpretation partition_space: range_space range_wf range_covers range_overlaps
proof
  fix r s assume "range_wf r" "range_wf s"
  then show "range_overlaps r s \<longleftrightarrow> (\<exists>x. range_covers r x \<and> range_covers s x)"
    by (cases r; cases s) (auto simp: ex_point hash_space.overlaps_iff ordered_space.overlaps_iff)
next
  fix r assume "range_wf r"
  then show "\<exists>x. range_covers r x"
    by (cases r) (auto simp: ex_point hash_space.inhabited ordered_space.inhabited)
qed

end
