(* ===== verification/Directory.thy ===== *)
theory Directory
  imports Ranges
begin

text \<open>
  Tablet descriptors (\<open>crates/kivi-tablet/src/tablet.rs\<close>), namespace descriptors
  (\<open>namespace.rs\<close>) and the immutable directory snapshots with all their transitions
  (\<open>directory.rs\<close>).  A snapshot is a record; every transition returns a result with the new
  snapshot or the error the code returns.

  The lemmas show that \<open>validate\<close> decides the invariant \<open>dir_valid\<close>, that every transition
  re-establishes it, and how each transition changes the descriptors.
\<close>

section \<open>Tablets\<close>

datatype tablet_state = Allocated | Inactive | Active | Fenced | Tombstone

definition state_is_writable :: "tablet_state \<Rightarrow> bool" where
  "state_is_writable st \<longleftrightarrow> (case st of Active \<Rightarrow> True | _ \<Rightarrow> False)"

type_synonym redirect = "tablet_id list"

record tablet_descriptor =
  td_id :: tablet_id
  td_range :: partition_range
  td_state :: tablet_state
  td_epoch :: tablet_epoch
  td_guard :: write_guard_generation
  td_redirect :: "redirect option"

definition td_is_writable :: "tablet_descriptor \<Rightarrow> bool" where
  "td_is_writable t = state_is_writable (td_state t)"

definition td_authority :: "tablet_descriptor \<Rightarrow> tablet_authority option" where
  "td_authority t =
    (case td_state t of
       Active \<Rightarrow> Some \<lparr>auth_tablet = td_id t, auth_epoch = td_epoch t, auth_guard = td_guard t\<rparr>
     | _ \<Rightarrow> None)"

datatype namespace_layout = LayoutHash | LayoutOrdered

fun layout_kind :: "namespace_layout \<Rightarrow> partition_kind" where
  "layout_kind LayoutHash = KindHash"
| "layout_kind LayoutOrdered = KindOrdered"

record namespace_descriptor =
  nd_id :: namespace_id
  nd_layout :: namespace_layout

section \<open>Snapshots and their validation\<close>

record directory_snapshot =
  ds_version :: u64
  ds_namespace :: namespace_id
  ds_tablets :: "tablet_descriptor list"

datatype directory_error =
    DuplicateTabletId tablet_id
  | UnknownTablet tablet_id
  | InvalidRange range_error
  | InvalidEpoch tablet_epoch
  | InvalidGuard write_guard_generation
  | InvalidVersion
  | DirVersionExhausted
  | OverlappingActiveAuthority tablet_id tablet_id
  | MixedActiveLayouts
  | IllegalTransition tablet_id tablet_state string
  | SuccessorNotActive tablet_id
  | EmptyRedirect
  | RedirectMissing tablet_id
  | UnexpectedRedirect tablet_id
  | InvalidTabletCount nat
  | InvalidSplitKeys

definition directory_version_next :: "u64 \<Rightarrow> directory_error + u64" where
  "directory_version_next v = ok_or DirVersionExhausted (checked_add v 1)"

definition check_generations ::
    "tablet_epoch \<Rightarrow> write_guard_generation \<Rightarrow> directory_error + unit" where
  "check_generations epoch guard =
    (if \<not> generation_is_valid epoch then Inl (InvalidEpoch epoch)
     else if \<not> generation_is_valid guard then Inl (InvalidGuard guard)
     else Inr ())"

text \<open>The first loop of \<open>validate\<close>; \<open>seen\<close> is the slice before the current index.\<close>

fun validate_tablets ::
    "tablet_descriptor list \<Rightarrow> tablet_descriptor list \<Rightarrow> directory_error + unit" where
  "validate_tablets seen [] = Inr ()"
| "validate_tablets seen (t # ts) =
    (if \<exists>u \<in> set seen. td_id u = td_id t then Inl (DuplicateTabletId (td_id t))
     else and_then (map_err InvalidRange (range_check (td_range t))) (\<lambda>_.
       if \<not> generation_is_valid (td_epoch t) then Inl (InvalidEpoch (td_epoch t))
       else if \<not> generation_is_valid (td_guard t) then Inl (InvalidGuard (td_guard t))
       else (case (td_state t, td_redirect t) of
           (Tombstone, None) \<Rightarrow> Inl (RedirectMissing (td_id t))
         | (Tombstone, Some _) \<Rightarrow> validate_tablets (seen @ [t]) ts
         | (_, None) \<Rightarrow> validate_tablets (seen @ [t]) ts
         | (_, Some _) \<Rightarrow> Inl (UnexpectedRedirect (td_id t)))))"

text \<open>The second loop, over the active tablets, with the kind seen so far.\<close>

fun validate_kinds ::
    "partition_kind option \<Rightarrow> tablet_descriptor list \<Rightarrow> directory_error + unit" where
  "validate_kinds k [] = Inr ()"
| "validate_kinds k (t # ts) =
    (case k of
       None \<Rightarrow> validate_kinds (Some (range_kind (td_range t))) ts
     | Some kind \<Rightarrow>
         if kind = range_kind (td_range t) then validate_kinds (Some kind) ts
         else Inl MixedActiveLayouts)"

text \<open>The third loop: every active tablet against the active tablets after it.\<close>

fun validate_overlap :: "tablet_descriptor list \<Rightarrow> directory_error + unit" where
  "validate_overlap [] = Inr ()"
| "validate_overlap (t # ts) =
    (if td_state t \<noteq> Active then validate_overlap ts
     else case List.find (\<lambda>u. td_state u = Active \<and> range_overlaps (td_range t) (td_range u)) ts of
         Some u \<Rightarrow> Inl (OverlappingActiveAuthority (td_id t) (td_id u))
       | None \<Rightarrow> validate_overlap ts)"

definition validate :: "directory_snapshot \<Rightarrow> directory_error + unit" where
  "validate s =
    (if \<not> generation_is_valid (ds_version s) then Inl InvalidVersion
     else and_then (validate_tablets [] (ds_tablets s)) (\<lambda>_.
       and_then (validate_kinds None (filter (\<lambda>t. td_state t = Active) (ds_tablets s))) (\<lambda>_.
         validate_overlap (ds_tablets s))))"

section \<open>Transitions\<close>

definition index_of :: "directory_snapshot \<Rightarrow> tablet_id \<Rightarrow> directory_error + nat" where
  "index_of s tablet = ok_or (UnknownTablet tablet) (position (\<lambda>t. td_id t = tablet) (ds_tablets s))"

definition dir_advance ::
    "directory_snapshot \<Rightarrow> tablet_descriptor list \<Rightarrow> directory_error + directory_snapshot" where
  "dir_advance s tablets =
    and_then (directory_version_next (ds_version s)) (\<lambda>v.
      let next = \<lparr>ds_version = v, ds_namespace = ds_namespace s, ds_tablets = tablets\<rparr> in
      and_then (validate next) (\<lambda>_. Inr next))"

definition td_moved :: "tablet_state \<Rightarrow> redirect option \<Rightarrow> tablet_descriptor \<Rightarrow> tablet_descriptor" where
  "td_moved to redirect current =
    \<lparr>td_id = td_id current, td_range = td_range current, td_state = to,
     td_epoch = td_epoch current, td_guard = td_guard current, td_redirect = redirect\<rparr>"

definition dir_replace ::
    "directory_snapshot \<Rightarrow> tablet_id \<Rightarrow> tablet_state list \<Rightarrow> tablet_state \<Rightarrow> redirect option \<Rightarrow> string
      \<Rightarrow> directory_error + directory_snapshot" where
  "dir_replace s tablet allowed to redirect action =
    and_then (index_of s tablet) (\<lambda>index.
      let from = td_state (ds_tablets s ! index) in
      if from \<notin> set allowed then Inl (IllegalTransition tablet from action)
      else dir_advance s
        ((ds_tablets s)[index := td_moved to redirect (ds_tablets s ! index)]))"

definition bootstrap ::
    "namespace_id \<Rightarrow> tablet_id \<Rightarrow> partition_range \<Rightarrow> tablet_epoch \<Rightarrow> write_guard_generation
      \<Rightarrow> directory_error + directory_snapshot" where
  "bootstrap namespace tablet rng epoch guard =
    and_then (map_err InvalidRange (range_check rng)) (\<lambda>_.
    and_then (check_generations epoch guard) (\<lambda>_.
      let snapshot = \<lparr>ds_version = generation_INITIAL, ds_namespace = namespace,
        ds_tablets = [\<lparr>td_id = tablet, td_range = rng, td_state = Allocated, td_epoch = epoch,
          td_guard = guard, td_redirect = None\<rparr>]\<rparr> in
      and_then (validate snapshot) (\<lambda>_. Inr snapshot)))"

definition allocate ::
    "directory_snapshot \<Rightarrow> tablet_id \<Rightarrow> partition_range \<Rightarrow> tablet_epoch \<Rightarrow> write_guard_generation
      \<Rightarrow> directory_error + directory_snapshot" where
  "allocate s tablet rng epoch guard =
    (if \<exists>t \<in> set (ds_tablets s). td_id t = tablet then Inl (DuplicateTabletId tablet)
     else
       and_then (map_err InvalidRange (range_check rng)) (\<lambda>_.
       and_then (check_generations epoch guard) (\<lambda>_.
         dir_advance s (ds_tablets s @
           [\<lparr>td_id = tablet, td_range = rng, td_state = Allocated, td_epoch = epoch,
             td_guard = guard, td_redirect = None\<rparr>]))))"

definition stage :: "directory_snapshot \<Rightarrow> tablet_id \<Rightarrow> directory_error + directory_snapshot" where
  "stage s tablet = dir_replace s tablet [Allocated] Inactive None ''stage''"

definition activate :: "directory_snapshot \<Rightarrow> tablet_id \<Rightarrow> directory_error + directory_snapshot" where
  "activate s tablet =
    and_then (index_of s tablet) (\<lambda>index.
      let candidate = ds_tablets s ! index in
      if td_state candidate \<noteq> Inactive
      then Inl (IllegalTransition tablet (td_state candidate) ''activate'')
      else case List.find (\<lambda>other. td_id other \<noteq> tablet \<and> td_state other = Active
             \<and> range_overlaps (td_range candidate) (td_range other)) (ds_tablets s) of
          Some other \<Rightarrow> Inl (OverlappingActiveAuthority tablet (td_id other))
        | None \<Rightarrow> dir_replace s tablet [Inactive] Active None ''activate'')"

definition seal :: "directory_snapshot \<Rightarrow> tablet_id \<Rightarrow> directory_error + directory_snapshot" where
  "seal s tablet = dir_replace s tablet [Active] Fenced None ''seal''"

fun check_successors :: "tablet_descriptor list \<Rightarrow> tablet_id list \<Rightarrow> directory_error + unit" where
  "check_successors ts [] = Inr ()"
| "check_successors ts (successor # rest) =
    (case List.find (\<lambda>t. td_id t = successor) ts of
       None \<Rightarrow> Inl (UnknownTablet successor)
     | Some target \<Rightarrow>
         if td_state target \<noteq> Active then Inl (SuccessorNotActive successor)
         else check_successors ts rest)"

definition retire ::
    "directory_snapshot \<Rightarrow> tablet_id \<Rightarrow> redirect \<Rightarrow> directory_error + directory_snapshot" where
  "retire s tablet redirect =
    (if redirect = [] then Inl EmptyRedirect
     else and_then (check_successors (ds_tablets s) redirect) (\<lambda>_.
       dir_replace s tablet [Fenced, Inactive] Tombstone (Some redirect) ''retire''))"

definition cutover_split ::
    "directory_snapshot \<Rightarrow> tablet_id \<Rightarrow> tablet_id \<Rightarrow> tablet_id
      \<Rightarrow> directory_error + directory_snapshot" where
  "cutover_split s parent left right =
    and_then (index_of s parent) (\<lambda>parent_index.
    and_then (index_of s left) (\<lambda>left_index.
    and_then (index_of s right) (\<lambda>right_index.
      let ts = ds_tablets s; state = (\<lambda>index. td_state (ts ! index)) in
      if state parent_index \<noteq> Fenced
      then Inl (IllegalTransition parent (state parent_index)
             ''cutover_split (parent must be fenced)'')
      else if state left_index \<noteq> Inactive
      then Inl (IllegalTransition left (state left_index)
             ''cutover_split (children must be inactive)'')
      else if state right_index \<noteq> Inactive
      then Inl (IllegalTransition right (state right_index)
             ''cutover_split (children must be inactive)'')
      else
        let ts1 = ts[parent_index := td_moved Tombstone (Some [left, right]) (ts ! parent_index)];
            ts2 = ts1[left_index := td_moved Active None (ts1 ! left_index)];
            ts3 = ts2[right_index := td_moved Active None (ts2 ! right_index)]
        in dir_advance s ts3)))"

definition cutover_merge ::
    "directory_snapshot \<Rightarrow> tablet_id \<Rightarrow> tablet_id \<Rightarrow> tablet_id
      \<Rightarrow> directory_error + directory_snapshot" where
  "cutover_merge s left right merged =
    and_then (index_of s left) (\<lambda>left_index.
    and_then (index_of s right) (\<lambda>right_index.
    and_then (index_of s merged) (\<lambda>merged_index.
      let ts = ds_tablets s; state = (\<lambda>index. td_state (ts ! index)) in
      if state left_index \<noteq> Fenced
      then Inl (IllegalTransition left (state left_index)
             ''cutover_merge (parents must be fenced)'')
      else if state right_index \<noteq> Fenced
      then Inl (IllegalTransition right (state right_index)
             ''cutover_merge (parents must be fenced)'')
      else if state merged_index \<noteq> Inactive
      then Inl (IllegalTransition merged (state merged_index)
             ''cutover_merge (merged must be inactive)'')
      else
        let ts1 = ts[left_index := td_moved Tombstone (Some [merged]) (ts ! left_index)];
            ts2 = ts1[right_index := td_moved Tombstone (Some [merged]) (ts1 ! right_index)];
            ts3 = ts2[merged_index := td_moved Active None (ts2 ! merged_index)]
        in dir_advance s ts3)))"

section \<open>Routing\<close>

definition lookup_by_hash :: "directory_snapshot \<Rightarrow> partition_hash \<Rightarrow> tablet_id option" where
  "lookup_by_hash s hash =
    map_option td_id (List.find (\<lambda>t. contains_hash (td_range t) hash)
      (filter (\<lambda>t. td_state t = Active) (ds_tablets s)))"

definition lookup_by_key :: "directory_snapshot \<Rightarrow> bytes \<Rightarrow> tablet_id option" where
  "lookup_by_key s key =
    map_option td_id (List.find (\<lambda>t. contains_key (td_range t) key)
      (filter (\<lambda>t. td_state t = Active) (ds_tablets s)))"

definition dir_get :: "directory_snapshot \<Rightarrow> tablet_id \<Rightarrow> tablet_descriptor option" where
  "dir_get s tablet = List.find (\<lambda>t. td_id t = tablet) (ds_tablets s)"

definition redirect_of :: "directory_snapshot \<Rightarrow> tablet_id \<Rightarrow> redirect option" where
  "redirect_of s tablet =
    Option.bind (List.find (\<lambda>t. td_id t = tablet) (ds_tablets s)) td_redirect"

section \<open>The multi-namespace directory\<close>

type_synonym multi_directory = "namespace_id \<rightharpoonup> namespace_descriptor \<times> directory_snapshot"

definition multi_new :: multi_directory where
  "multi_new = Map.empty"

definition multi_publish ::
    "multi_directory \<Rightarrow> namespace_descriptor \<Rightarrow> directory_snapshot
      \<Rightarrow> multi_directory \<times> (directory_error + unit)" where
  "multi_publish m descriptor snapshot =
    (case validate snapshot of
       Inl e \<Rightarrow> (m, Inl e)
     | Inr _ \<Rightarrow>
         if ds_namespace snapshot \<noteq> nd_id descriptor then (m, Inl (UnknownTablet (- 1)))
         else (m(nd_id descriptor \<mapsto> (descriptor, snapshot)), Inr ()))"

definition multi_snapshot :: "multi_directory \<Rightarrow> namespace_id \<Rightarrow> directory_snapshot option" where
  "multi_snapshot m ns = map_option snd (m ns)"

definition multi_descriptor :: "multi_directory \<Rightarrow> namespace_id \<Rightarrow> namespace_descriptor option" where
  "multi_descriptor m ns = map_option fst (m ns)"

definition multi_lookup_hash ::
    "multi_directory \<Rightarrow> namespace_id \<Rightarrow> partition_hash \<Rightarrow> tablet_id option" where
  "multi_lookup_hash m ns hash = Option.bind (multi_snapshot m ns) (\<lambda>s. lookup_by_hash s hash)"

definition multi_lookup_key :: "multi_directory \<Rightarrow> namespace_id \<Rightarrow> bytes \<Rightarrow> tablet_id option" where
  "multi_lookup_key m ns key = Option.bind (multi_snapshot m ns) (\<lambda>s. lookup_by_key s key)"

section \<open>The invariant\<close>

definition active_tablets :: "directory_snapshot \<Rightarrow> tablet_descriptor set" where
  "active_tablets s = {t \<in> set (ds_tablets s). td_state t = Active}"

definition td_valid :: "tablet_descriptor \<Rightarrow> bool" where
  "td_valid t \<longleftrightarrow> range_wf (td_range t) \<and> generation_is_valid (td_epoch t)
    \<and> generation_is_valid (td_guard t) \<and> (td_redirect t \<noteq> None \<longleftrightarrow> td_state t = Tombstone)"

definition dir_valid :: "directory_snapshot \<Rightarrow> bool" where
  "dir_valid s \<longleftrightarrow>
    generation_is_valid (ds_version s)
    \<and> distinct (map td_id (ds_tablets s))
    \<and> (\<forall>t \<in> set (ds_tablets s). td_valid t)
    \<and> (\<forall>t \<in> active_tablets s. \<forall>u \<in> active_tablets s. range_kind (td_range t) = range_kind (td_range u))
    \<and> (\<forall>t \<in> active_tablets s. \<forall>u \<in> active_tablets s.
         t \<noteq> u \<longrightarrow> \<not> range_overlaps (td_range t) (td_range u))"

text \<open>The same invariant on the map from identities to descriptors that a snapshot represents.\<close>

definition dir_map_valid :: "(tablet_id \<rightharpoonup> tablet_descriptor) \<Rightarrow> bool" where
  "dir_map_valid m \<longleftrightarrow>
    (\<forall>i t. m i = Some t \<longrightarrow> td_id t = i \<and> td_valid t)
    \<and> (\<forall>i j t u. m i = Some t \<and> m j = Some u \<and> td_state t = Active \<and> td_state u = Active \<longrightarrow>
         range_kind (td_range t) = range_kind (td_range u)
         \<and> (i \<noteq> j \<longrightarrow> \<not> range_overlaps (td_range t) (td_range u)))"

text \<open>A committed transition: one version later, the descriptors in \<open>changes\<close> replaced or added.\<close>

definition dir_moves ::
    "directory_snapshot \<Rightarrow> (tablet_id \<rightharpoonup> tablet_descriptor) \<Rightarrow> directory_snapshot \<Rightarrow> bool" where
  "dir_moves s changes s' \<longleftrightarrow>
    unat (ds_version s') = unat (ds_version s) + 1 \<and> ds_namespace s' = ds_namespace s
    \<and> dir_valid s' \<and> dir_get s' = dir_get s ++ changes"

section \<open>Validation decides the invariant\<close>

lemma validate_tablets_step:
  "validate_tablets seen (t # ts) = Inr () \<longleftrightarrow>
    td_id t \<notin> td_id ` set seen \<and> td_valid t \<and> validate_tablets (seen @ [t]) ts = Inr ()"
proof (cases "td_id t \<in> td_id ` set seen")
  case False
  then have fresh: "(\<exists>u \<in> set seen. td_id u = td_id t) = False"
    by (metis image_eqI)
  show ?thesis
  proof (cases "range_check (td_range t)")
    case (Inl e)
    moreover from Inl have "\<not> range_wf (td_range t)"
      using range_check_ok_iff [of "td_range t"] by simp
    ultimately show ?thesis using fresh by (simp add: td_valid_def)
  next
    case (Inr u)
    then have "range_wf (td_range t)" by simp
    with Inr fresh False show ?thesis
      by (cases "td_state t"; cases "td_redirect t") (simp_all add: td_valid_def)
  qed
qed auto

lemma validate_tablets_ok_iff:
  "validate_tablets seen ts = Inr () \<longleftrightarrow>
    distinct (map td_id ts) \<and> td_id ` set seen \<inter> td_id ` set ts = {} \<and> (\<forall>t \<in> set ts. td_valid t)"
proof (induction ts arbitrary: seen)
  case (Cons t ts)
  show ?case unfolding validate_tablets_step Cons by auto
qed simp

lemma validate_kinds_ok_iff:
  "validate_kinds k ts = Inr () \<longleftrightarrow>
    (\<forall>t \<in> set ts. \<forall>u \<in> set ts. range_kind (td_range t) = range_kind (td_range u))
    \<and> (\<forall>kind. k = Some kind \<longrightarrow> (\<forall>t \<in> set ts. range_kind (td_range t) = kind))"
  by (induction ts arbitrary: k) (auto split: option.splits)

lemma validate_overlap_ok_iff:
  "validate_overlap ts = Inr () \<longleftrightarrow>
    sorted_wrt (\<lambda>t u. td_state t = Active \<longrightarrow> td_state u = Active \<longrightarrow>
      \<not> range_overlaps (td_range t) (td_range u)) ts"
  by (induction ts) (auto simp: find_None_iff find_Some_iff split: option.splits)

lemma sorted_wrt_distinct_iff:
  assumes "distinct xs" "\<And>x y. x \<in> set xs \<Longrightarrow> y \<in> set xs \<Longrightarrow> P x y = P y x"
  shows "sorted_wrt P xs \<longleftrightarrow> (\<forall>x \<in> set xs. \<forall>y \<in> set xs. x \<noteq> y \<longrightarrow> P x y)"
  using assms by (induction xs) auto

theorem validate_ok_iff: "validate s = Inr () \<longleftrightarrow> dir_valid s"
proof -
  let ?ts = "ds_tablets s"
  have "validate_overlap ?ts = Inr () \<longleftrightarrow>
      (\<forall>t \<in> active_tablets s. \<forall>u \<in> active_tablets s.
        t \<noteq> u \<longrightarrow> \<not> range_overlaps (td_range t) (td_range u))"
    if "distinct (map td_id ?ts)" "\<forall>t \<in> set ?ts. td_valid t"
  proof -
    have "distinct ?ts" using that(1) by (simp add: distinct_map)
    moreover have "range_overlaps (td_range t) (td_range u) = range_overlaps (td_range u) (td_range t)"
      if "t \<in> set ?ts" "u \<in> set ?ts" for t u
      using that \<open>\<forall>t \<in> set ?ts. td_valid t\<close> by (simp add: td_valid_def range_overlaps_commute)
    ultimately show ?thesis
      unfolding validate_overlap_ok_iff by (subst sorted_wrt_distinct_iff) (auto simp: active_tablets_def)
  qed
  then show ?thesis
    by (auto simp: validate_def dir_valid_def result_simps validate_tablets_ok_iff
        validate_kinds_ok_iff active_tablets_def)
qed

lemma dir_get_eq_Some_iff:
  assumes "distinct (map td_id (ds_tablets s))"
  shows "dir_get s i = Some t \<longleftrightarrow> t \<in> set (ds_tablets s) \<and> td_id t = i"
  using assms unfolding dir_get_def
  by (auto simp: find_Some_iff in_set_conv_nth distinct_conv_nth)

lemma dir_get_Some: "dir_get s i = Some t \<Longrightarrow> t \<in> set (ds_tablets s) \<and> td_id t = i"
  by (auto simp: dir_get_def find_Some_iff)

lemma dir_valid_map:
  "dir_valid s \<longleftrightarrow> generation_is_valid (ds_version s) \<and> distinct (map td_id (ds_tablets s))
    \<and> dir_map_valid (dir_get s)"
proof (cases "distinct (map td_id (ds_tablets s))")
  case True
  note get = dir_get_eq_Some_iff [OF True]
  have "t \<noteq> u \<longleftrightarrow> td_id t \<noteq> td_id u" if "t \<in> set (ds_tablets s)" "u \<in> set (ds_tablets s)" for t u
    using True that by (auto simp: distinct_map inj_on_def)
  then have "(\<forall>i j t u. dir_get s i = Some t \<and> dir_get s j = Some u \<and> td_state t = Active
        \<and> td_state u = Active \<longrightarrow> range_kind (td_range t) = range_kind (td_range u)
         \<and> (i \<noteq> j \<longrightarrow> \<not> range_overlaps (td_range t) (td_range u))) \<longleftrightarrow>
      (\<forall>t \<in> active_tablets s. \<forall>u \<in> active_tablets s. range_kind (td_range t) = range_kind (td_range u))
      \<and> (\<forall>t \<in> active_tablets s. \<forall>u \<in> active_tablets s.
           t \<noteq> u \<longrightarrow> \<not> range_overlaps (td_range t) (td_range u))"
    unfolding get active_tablets_def by blast
  moreover have "(\<forall>i t. dir_get s i = Some t \<longrightarrow> td_id t = i \<and> td_valid t)
      \<longleftrightarrow> (\<forall>t \<in> set (ds_tablets s). td_valid t)"
    unfolding get by blast
  ultimately show ?thesis
    using True by (simp only: dir_valid_def dir_map_valid_def simp_thms)
qed (simp add: dir_valid_def)

section \<open>What a successful transition does\<close>

lemma dir_advance_ok_iff:
  "dir_advance s ts = Inr s' \<longleftrightarrow>
    unat (ds_version s') = unat (ds_version s) + 1 \<and> ds_namespace s' = ds_namespace s
    \<and> ds_tablets s' = ts \<and> dir_valid s'"
  by (cases s') (auto simp: dir_advance_def directory_version_next_def result_simps validate_ok_iff
      checked_add_eq_Some_iff Let_def)

lemma index_of_ok_iff:
  assumes "distinct (map td_id (ds_tablets s))"
  shows "index_of s i = Inr n \<longleftrightarrow> n < length (ds_tablets s) \<and> dir_get s i = Some (ds_tablets s ! n)"
proof -
  have "n < length (ds_tablets s) \<and> td_id (ds_tablets s ! n) = i \<longrightarrow>
      (\<forall>j < n. td_id (ds_tablets s ! j) \<noteq> i)"
    using assms by (auto simp: distinct_conv_nth)
  then show ?thesis
    using assms by (auto simp: index_of_def position_eq_Some_iff dir_get_eq_Some_iff)
qed

lemma dir_get_update:
  assumes "distinct (map td_id ts)" "n < length ts" "td_id t = td_id (ts ! n)"
  shows "List.find (\<lambda>u. td_id u = i) (ts[n := t]) =
    (if i = td_id (ts ! n) then Some t else List.find (\<lambda>u. td_id u = i) ts)"
  using assms
proof (induction ts arbitrary: n)
  case (Cons u ts)
  then show ?case by (cases n) (auto simp: find_None_iff nth_mem)
qed simp

lemma dir_get_append:
  "List.find P (xs @ ys) = (case List.find P xs of None \<Rightarrow> List.find P ys | Some x \<Rightarrow> Some x)"
  by (induction xs) auto

lemma td_moved_simps [simp]:
  "td_id (td_moved st r t) = td_id t" "td_range (td_moved st r t) = td_range t"
  "td_state (td_moved st r t) = st" "td_epoch (td_moved st r t) = td_epoch t"
  "td_guard (td_moved st r t) = td_guard t" "td_redirect (td_moved st r t) = r"
  by (simp_all add: td_moved_def)

lemma dir_valid_distinct: "dir_valid s \<Longrightarrow> distinct (map td_id (ds_tablets s))"
  by (simp add: dir_valid_def)

lemma dir_validD:
  assumes "dir_valid s" "dir_get s i = Some t"
  shows "td_id t = i" "td_valid t" "range_wf (td_range t)" "td_redirect t \<noteq> None \<longleftrightarrow> td_state t = Tombstone"
  using assms by (auto simp: dir_valid_map dir_map_valid_def td_valid_def)

lemma dir_valid_activeD:
  assumes "dir_valid s" "dir_get s i = Some t" "dir_get s j = Some u" "td_state t = Active" "td_state u = Active"
  shows "range_kind (td_range t) = range_kind (td_range u)"
    and "i \<noteq> j \<Longrightarrow> \<not> range_overlaps (td_range t) (td_range u)"
  using assms unfolding dir_valid_map dir_map_valid_def by blast+

text \<open>One descriptor moved in place is one point update of the represented map.\<close>

lemma dir_get_moved:
  assumes "distinct (map td_id (ds_tablets s))" "n < length (ds_tablets s)"
    and "dir_get s i = Some (ds_tablets s ! n)" "ds_tablets s' = (ds_tablets s)[n := td_moved st r (ds_tablets s ! n)]"
  shows "dir_get s' = (dir_get s)(i \<mapsto> td_moved st r (ds_tablets s ! n))"
    and "distinct (map td_id (ds_tablets s'))"
proof -
  have id: "td_id (ds_tablets s ! n) = i" using assms(3) dir_get_Some by blast
  show "dir_get s' = (dir_get s)(i \<mapsto> td_moved st r (ds_tablets s ! n))"
    using assms id by (auto simp: dir_get_def dir_get_update fun_eq_iff)
  have "map td_id (ds_tablets s') = map td_id (ds_tablets s)"
    using assms(2,4) by (simp add: map_update list_update_same_conv)
  with assms(1) show "distinct (map td_id (ds_tablets s'))" by simp
qed

lemma dir_replaceD:
  assumes "dir_valid s" "dir_replace s i allowed st r a = Inr s'"
  obtains t where "dir_get s i = Some t" "td_state t \<in> set allowed" "dir_moves s [i \<mapsto> td_moved st r t] s'"
proof -
  obtain n where n: "index_of s i = Inr n" "td_state (ds_tablets s ! n) \<in> set allowed"
      "dir_advance s ((ds_tablets s)[n := td_moved st r (ds_tablets s ! n)]) = Inr s'"
    using assms(2) by (auto simp: dir_replace_def and_then_Inr_iff Let_def split: if_splits)
  note dist = dir_valid_distinct [OF assms(1)]
  from n(1) have i: "n < length (ds_tablets s)" "dir_get s i = Some (ds_tablets s ! n)"
    by (simp_all add: index_of_ok_iff dist)
  from n(3) have s': "ds_tablets s' = (ds_tablets s)[n := td_moved st r (ds_tablets s ! n)]"
    by (simp add: dir_advance_ok_iff)
  from dir_get_moved(1) [OF dist i s'] n(3)
  have "dir_moves s [i \<mapsto> td_moved st r (ds_tablets s ! n)] s'"
    by (simp add: dir_advance_ok_iff dir_moves_def)
  with i(2) n(2) show thesis by (rule that)
qed

lemma dir_replace_ok_iff:
  assumes "dir_valid s"
  shows "is_ok (dir_replace s i allowed st r a) \<longleftrightarrow>
      (\<exists>t s'. dir_get s i = Some t \<and> td_state t \<in> set allowed \<and> dir_moves s [i \<mapsto> td_moved st r t] s')"
    (is "?lhs \<longleftrightarrow> ?rhs")
proof
  assume ?lhs
  then obtain s' where "dir_replace s i allowed st r a = Inr s'" by (auto simp: is_ok_iff)
  with assms show ?rhs by (blast elim: dir_replaceD)
next
  assume ?rhs
  then obtain t s' where t: "dir_get s i = Some t" "td_state t \<in> set allowed"
    and s': "dir_moves s [i \<mapsto> td_moved st r t] s'" by blast
  from t(1) obtain n where n: "n < length (ds_tablets s)" "t = ds_tablets s ! n"
    by (metis dir_get_Some in_set_conv_nth)
  define s'' where "s'' = s'\<lparr>ds_tablets := (ds_tablets s)[n := td_moved st r t]\<rparr>"
  have version: "ds_version s'' = ds_version s'" by (simp add: s''_def)
  have get: "dir_get s'' = dir_get s'"
    using dir_get_moved(1) [OF dir_valid_distinct [OF assms], of n i s'' st r] t n s'
    by (simp add: s''_def dir_moves_def)
  moreover have "distinct (map td_id (ds_tablets s''))"
    using dir_get_moved(2) [OF dir_valid_distinct [OF assms], of n i s'' st r] t n by (simp add: s''_def)
  ultimately have "dir_valid s''"
    using s' by (metis dir_moves_def dir_valid_map version)
  then have "dir_advance s ((ds_tablets s)[n := td_moved st r t]) = Inr s''"
    using s' by (simp add: dir_advance_ok_iff s''_def dir_moves_def)
  then show ?lhs
    using t n assms by (auto simp: dir_replace_def index_of_ok_iff [THEN iffD2] dir_valid_distinct is_ok_iff)
qed

lemma check_successors_ok_iff:
  "check_successors (ds_tablets s) r = Inr () \<longleftrightarrow>
    (\<forall>i \<in> set r. \<exists>t. dir_get s i = Some t \<and> td_state t = Active)"
  by (induction r) (auto simp: dir_get_def split: option.splits)

lemma bootstrapD:
  assumes "bootstrap ns i rng e g = Inr s"
  shows "dir_valid s" "ds_version s = 1" "ds_namespace s = ns"
    and "dir_get s = [i \<mapsto> \<lparr>td_id = i, td_range = rng, td_state = Allocated, td_epoch = e,
      td_guard = g, td_redirect = None\<rparr>]"
  using assms
  by (auto simp: bootstrap_def result_simps validate_ok_iff Let_def dir_get_def generation_INITIAL_def)

lemma allocateD:
  assumes "allocate s i rng e g = Inr s'"
  shows "dir_get s i = None"
    and "dir_moves s [i \<mapsto> \<lparr>td_id = i, td_range = rng, td_state = Allocated, td_epoch = e,
      td_guard = g, td_redirect = None\<rparr>] s'"
proof -
  let ?t = "\<lparr>td_id = i, td_range = rng, td_state = Allocated, td_epoch = e, td_guard = g, td_redirect = None\<rparr>"
  have fresh: "\<forall>t \<in> set (ds_tablets s). td_id t \<noteq> i" and adv: "dir_advance s (ds_tablets s @ [?t]) = Inr s'"
    using assms by (auto simp: allocate_def and_then_Inr_iff split: if_splits)
  from fresh show none: "dir_get s i = None" by (auto simp: dir_get_def find_None_iff)
  with adv have "dir_get s' = (dir_get s)(i \<mapsto> ?t)"
    by (auto simp: dir_advance_ok_iff dir_get_def dir_get_append fun_eq_iff split: option.splits)
  with adv show "dir_moves s [i \<mapsto> ?t] s'"
    by (simp add: dir_advance_ok_iff dir_moves_def)
qed

lemma activateD:
  assumes "dir_valid s" "activate s i = Inr s'"
  obtains t where "dir_get s i = Some t" "td_state t = Inactive"
    "dir_moves s [i \<mapsto> td_moved Active None t] s'"
proof -
  have "dir_replace s i [Inactive] Active None ''activate'' = Inr s'"
    using assms(2) by (auto simp: activate_def and_then_Inr_iff Let_def split: if_splits option.splits)
  from dir_replaceD [OF assms(1) this] show thesis using that by auto
qed

lemma retireD:
  assumes "dir_valid s" "retire s i r = Inr s'"
  obtains t where "dir_get s i = Some t" "td_state t \<in> {Fenced, Inactive}" "r \<noteq> []"
    "\<forall>j \<in> set r. \<exists>u. dir_get s j = Some u \<and> td_state u = Active"
    "dir_moves s [i \<mapsto> td_moved Tombstone (Some r) t] s'"
proof -
  have r: "r \<noteq> []" "check_successors (ds_tablets s) r = Inr ()"
    and "dir_replace s i [Fenced, Inactive] Tombstone (Some r) ''retire'' = Inr s'"
    using assms(2) by (auto simp: retire_def and_then_Inr_iff split: if_splits)
  from dir_replaceD [OF assms(1) this(3)] r show thesis
    using that by (auto simp: check_successors_ok_iff)
qed

lemma td_moved_moved [simp]: "td_moved st r (td_moved st' r' t) = td_moved st r t"
  by (simp add: td_moved_def)

text \<open>Three in-place moves, as the two cutovers make them.\<close>

lemma dir_get_moved3:
  assumes dist: "distinct (map td_id (ds_tablets s))"
    and idx: "index_of s a = Inr na" "index_of s b = Inr nb" "index_of s c = Inr nc"
    and ts1: "ts1 = (ds_tablets s)[na := td_moved sta ra (ds_tablets s ! na)]"
    and ts2: "ts2 = ts1[nb := td_moved stb rb (ts1 ! nb)]"
    and ts3: "ts3 = ts2[nc := td_moved stc rc (ts2 ! nc)]"
    and s': "ds_tablets s' = ts3"
  shows "dir_get s' = (dir_get s)
    (a \<mapsto> td_moved sta ra (ds_tablets s ! na), b \<mapsto> td_moved stb rb (ds_tablets s ! nb),
     c \<mapsto> td_moved stc rc (ds_tablets s ! nc))"
proof -
  note ok = idx [unfolded index_of_ok_iff [OF dist]]
  define s1 s2 where "s1 = s\<lparr>ds_tablets := ts1\<rparr>" and "s2 = s\<lparr>ds_tablets := ts2\<rparr>"
  have tabs: "ds_tablets s1 = ts1" "ds_tablets s2 = ts2" by (simp_all add: s1_def s2_def)
  have g1: "dir_get s1 = (dir_get s)(a \<mapsto> td_moved sta ra (ds_tablets s ! na))"
    and d1: "distinct (map td_id (ds_tablets s1))"
    using dir_get_moved [OF dist, of na a s1 sta ra] ok ts1 tabs by auto
  have same: "na = nb \<longleftrightarrow> a = b" "na = nc \<longleftrightarrow> a = c" "nb = nc \<longleftrightarrow> b = c"
    using ok idx by (metis Inr_inject dir_get_Some)+
  have b1: "nb < length ts1" "dir_get s1 b = Some (ts1 ! nb)"
    using ok same g1 ts1 by (auto simp: nth_list_update)
  have g2: "dir_get s2 = (dir_get s1)(b \<mapsto> td_moved stb rb (ts1 ! nb))"
    and d2: "distinct (map td_id (ds_tablets s2))"
    using dir_get_moved [OF d1, of nb b s2 stb rb] b1 ts2 tabs by auto
  have c2: "nc < length ts2" "dir_get s2 c = Some (ts2 ! nc)"
    using ok same g1 g2 ts1 ts2 by (auto simp: nth_list_update)
  have g3: "dir_get s' = (dir_get s2)(c \<mapsto> td_moved stc rc (ts2 ! nc))"
    using dir_get_moved [OF d2, of nc c s' stc rc] c2 ts3 tabs s' by auto
  have "td_moved stb rb (ts1 ! nb) = td_moved stb rb (ds_tablets s ! nb)"
    "td_moved stc rc (ts2 ! nc) = td_moved stc rc (ds_tablets s ! nc)"
    using ok ts1 ts2 by (auto simp: nth_list_update)
  with g1 g2 g3 show ?thesis by simp
qed

lemma cutover_splitD:
  assumes "dir_valid s" "cutover_split s p l r = Inr s'"
  obtains tp tl tr where "dir_get s p = Some tp" "dir_get s l = Some tl" "dir_get s r = Some tr"
    "td_state tp = Fenced" "td_state tl = Inactive" "td_state tr = Inactive"
    "dir_moves s [p \<mapsto> td_moved Tombstone (Some [l, r]) tp, l \<mapsto> td_moved Active None tl,
       r \<mapsto> td_moved Active None tr] s'"
proof -
  note dist = dir_valid_distinct [OF assms(1)]
  obtain np nl nr where idx: "index_of s p = Inr np" "index_of s l = Inr nl" "index_of s r = Inr nr"
    using assms(2) by (auto simp: cutover_split_def and_then_Inr_iff)
  then have st: "td_state (ds_tablets s ! np) = Fenced" "td_state (ds_tablets s ! nl) = Inactive"
      "td_state (ds_tablets s ! nr) = Inactive"
    using assms(2) by (auto simp: cutover_split_def Let_def split: if_splits)
  define ts1 where "ts1 = (ds_tablets s)[np := td_moved Tombstone (Some [l, r]) (ds_tablets s ! np)]"
  define ts2 where "ts2 = ts1[nl := td_moved Active None (ts1 ! nl)]"
  define ts3 where "ts3 = ts2[nr := td_moved Active None (ts2 ! nr)]"
  have adv: "dir_advance s ts3 = Inr s'"
    using assms(2) idx st by (simp add: cutover_split_def Let_def ts1_def ts2_def ts3_def)
  then have "ds_tablets s' = ts3" by (simp add: dir_advance_ok_iff)
  from dir_get_moved3 [OF dist idx ts1_def ts2_def ts3_def this] adv
  show thesis
    using idx st by (intro that) (auto simp: index_of_ok_iff dist dir_moves_def dir_advance_ok_iff)
qed

lemma cutover_mergeD:
  assumes "dir_valid s" "cutover_merge s l r m = Inr s'"
  obtains tl tr tm where "dir_get s l = Some tl" "dir_get s r = Some tr" "dir_get s m = Some tm"
    "td_state tl = Fenced" "td_state tr = Fenced" "td_state tm = Inactive"
    "dir_moves s [l \<mapsto> td_moved Tombstone (Some [m]) tl, r \<mapsto> td_moved Tombstone (Some [m]) tr,
       m \<mapsto> td_moved Active None tm] s'"
proof -
  note dist = dir_valid_distinct [OF assms(1)]
  obtain nl nr nm where idx: "index_of s l = Inr nl" "index_of s r = Inr nr" "index_of s m = Inr nm"
    using assms(2) by (auto simp: cutover_merge_def and_then_Inr_iff)
  then have st: "td_state (ds_tablets s ! nl) = Fenced" "td_state (ds_tablets s ! nr) = Fenced"
      "td_state (ds_tablets s ! nm) = Inactive"
    using assms(2) by (auto simp: cutover_merge_def Let_def split: if_splits)
  define ts1 where "ts1 = (ds_tablets s)[nl := td_moved Tombstone (Some [m]) (ds_tablets s ! nl)]"
  define ts2 where "ts2 = ts1[nr := td_moved Tombstone (Some [m]) (ts1 ! nr)]"
  define ts3 where "ts3 = ts2[nm := td_moved Active None (ts2 ! nm)]"
  have adv: "dir_advance s ts3 = Inr s'"
    using assms(2) idx st by (simp add: cutover_merge_def Let_def ts1_def ts2_def ts3_def)
  then have "ds_tablets s' = ts3" by (simp add: dir_advance_ok_iff)
  from dir_get_moved3 [OF dist idx ts1_def ts2_def ts3_def this] adv
  show thesis
    using idx st by (intro that) (auto simp: index_of_ok_iff dist dir_moves_def dir_advance_ok_iff)
qed

end
