(* ===== verification/Directory_Spec.thy ===== *)
theory Directory_Spec
  imports Directory
begin

text \<open>
  The directory as a state machine, and its abstract specification.

  \<open>apply_dir_op\<close> gathers the transitions of \<open>DirectorySnapshot\<close>; \<open>dir_reachable\<close> is what bootstrap
  and any sequence of successful transitions can produce.  \<open>dir_spec\<close> and \<open>spec_step\<close> transcribe
  the ownership model \<open>spec/directory.tla\<close>, whose ranges are sets of points; the per-tablet epoch,
  which that model fixes at allocation and never changes, is left out.  \<open>dir_abs\<close> maps snapshots to
  it.  The cutovers have no action of their own there: they are simulated by an activation per
  successor followed by a retirement per predecessor.
\<close>

section \<open>The concrete machine\<close>

datatype dir_op =
    OpAllocate tablet_id partition_range tablet_epoch write_guard_generation
  | OpStage tablet_id
  | OpActivate tablet_id
  | OpSeal tablet_id
  | OpRetire tablet_id redirect
  | OpCutoverSplit tablet_id tablet_id tablet_id
  | OpCutoverMerge tablet_id tablet_id tablet_id

fun apply_dir_op :: "directory_snapshot \<Rightarrow> dir_op \<Rightarrow> directory_error + directory_snapshot" where
  "apply_dir_op s (OpAllocate i rng e g) = allocate s i rng e g"
| "apply_dir_op s (OpStage i) = stage s i"
| "apply_dir_op s (OpActivate i) = activate s i"
| "apply_dir_op s (OpSeal i) = seal s i"
| "apply_dir_op s (OpRetire i r) = retire s i r"
| "apply_dir_op s (OpCutoverSplit p l r) = cutover_split s p l r"
| "apply_dir_op s (OpCutoverMerge l r m) = cutover_merge s l r m"

inductive dir_step :: "directory_snapshot \<Rightarrow> directory_snapshot \<Rightarrow> bool" where
  dir_step: "apply_dir_op s op = Inr s' \<Longrightarrow> dir_step s s'"

inductive dir_reachable :: "directory_snapshot \<Rightarrow> bool" where
  reach_bootstrap: "bootstrap ns i rng e g = Inr s \<Longrightarrow> dir_reachable s"
| reach_step: "dir_reachable s \<Longrightarrow> dir_step s s' \<Longrightarrow> dir_reachable s'"

inductive_cases dir_stepE: "dir_step s s'"

section \<open>The lifecycle order\<close>

fun lifecycle_rank :: "tablet_state \<Rightarrow> nat" where
  "lifecycle_rank Allocated = 0"
| "lifecycle_rank Inactive = 1"
| "lifecycle_rank Active = 2"
| "lifecycle_rank Fenced = 3"
| "lifecycle_rank Tombstone = 4"

lemma lifecycle_rank_inj: "lifecycle_rank a = lifecycle_rank b \<Longrightarrow> a = b"
  by (cases a; cases b) simp_all

instantiation tablet_state :: linorder
begin

definition less_eq_tablet_state :: "tablet_state \<Rightarrow> tablet_state \<Rightarrow> bool" where
  "less_eq_tablet_state a b \<longleftrightarrow> lifecycle_rank a \<le> lifecycle_rank b"

definition less_tablet_state :: "tablet_state \<Rightarrow> tablet_state \<Rightarrow> bool" where
  "less_tablet_state a b \<longleftrightarrow> lifecycle_rank a < lifecycle_rank b"

instance
  by standard (auto simp: less_eq_tablet_state_def less_tablet_state_def lifecycle_rank_inj)

end

section \<open>The abstract specification\<close>

datatype spec_tablet_state = SAbsent | SAllocated | SInactive | SActive | SFenced | STombstone

record dir_spec =
  sp_state :: "tablet_id \<Rightarrow> spec_tablet_state"
  sp_range :: "tablet_id \<Rightarrow> point set"
  sp_redirect :: "tablet_id \<Rightarrow> tablet_id set"
  sp_version :: nat

definition spec_init :: dir_spec where
  "spec_init = \<lparr>sp_state = (\<lambda>_. SAbsent), sp_range = (\<lambda>_. {}), sp_redirect = (\<lambda>_. {}), sp_version = 0\<rparr>"

definition spec_put :: "tablet_id \<Rightarrow> spec_tablet_state \<Rightarrow> dir_spec \<Rightarrow> dir_spec" where
  "spec_put t st a = a\<lparr>sp_state := (sp_state a)(t := st), sp_version := sp_version a + 1\<rparr>"

inductive spec_step :: "dir_spec \<Rightarrow> dir_spec \<Rightarrow> bool" where
  SpecBootstrap: "sp_version a = 0 \<Longrightarrow> sp_state a t = SAbsent \<Longrightarrow> R \<noteq> {} \<Longrightarrow>
    spec_step a (spec_put t SAllocated a\<lparr>sp_range := (sp_range a)(t := R)\<rparr>)"
| SpecAllocate: "sp_version a > 0 \<Longrightarrow> sp_state a t = SAbsent \<Longrightarrow> R \<noteq> {} \<Longrightarrow>
    spec_step a (spec_put t SAllocated a\<lparr>sp_range := (sp_range a)(t := R)\<rparr>)"
| SpecStage: "sp_state a t = SAllocated \<Longrightarrow> spec_step a (spec_put t SInactive a)"
| SpecActivate: "sp_state a t = SInactive \<Longrightarrow>
    (\<forall>u. sp_state a u = SActive \<longrightarrow> sp_range a u \<inter> sp_range a t = {}) \<Longrightarrow>
    spec_step a (spec_put t SActive a)"
| SpecSeal: "sp_state a t = SActive \<Longrightarrow> spec_step a (spec_put t SFenced a)"
| SpecRetire: "sp_state a t \<in> {SFenced, SInactive} \<Longrightarrow> S \<noteq> {} \<Longrightarrow>
    (\<forall>s \<in> S. sp_state a s = SActive) \<Longrightarrow>
    spec_step a (spec_put t STombstone a\<lparr>sp_redirect := (sp_redirect a)(t := S)\<rparr>)"

fun abs_state :: "tablet_state \<Rightarrow> spec_tablet_state" where
  "abs_state Allocated = SAllocated"
| "abs_state Inactive = SInactive"
| "abs_state Active = SActive"
| "abs_state Fenced = SFenced"
| "abs_state Tombstone = STombstone"

definition map_abs :: "(tablet_id \<rightharpoonup> tablet_descriptor) \<Rightarrow> nat \<Rightarrow> dir_spec" where
  "map_abs m v = \<lparr>
    sp_state = (\<lambda>i. case m i of None \<Rightarrow> SAbsent | Some t \<Rightarrow> abs_state (td_state t)),
    sp_range = (\<lambda>i. case m i of None \<Rightarrow> {} | Some t \<Rightarrow> {x. range_covers (td_range t) x}),
    sp_redirect = (\<lambda>i. case m i of None \<Rightarrow> {} | Some t \<Rightarrow>
      (case td_redirect t of None \<Rightarrow> {} | Some r \<Rightarrow> set r)),
    sp_version = v\<rparr>"

definition dir_abs :: "directory_snapshot \<Rightarrow> dir_spec" where
  "dir_abs s = map_abs (dir_get s) (unat (ds_version s))"

text \<open>Edges from a retired tablet to the successors its redirect names.\<close>

definition redirect_edges :: "directory_snapshot \<Rightarrow> (tablet_id \<times> tablet_id) set" where
  "redirect_edges s = {(i, j). \<exists>t r. dir_get s i = Some t \<and> td_redirect t = Some r \<and> j \<in> set r}"

definition redirects_forward :: "directory_snapshot \<Rightarrow> bool" where
  "redirects_forward s \<longleftrightarrow>
    acyclic (redirect_edges s)
    \<and> (\<forall>i t r. dir_get s i = Some t \<and> td_redirect t = Some r \<longrightarrow> r \<noteq> []
        \<and> (\<forall>j \<in> set r. \<exists>u. dir_get s j = Some u \<and> td_state u \<in> {Active, Fenced, Tombstone}))"

definition legal_change :: "(tablet_id \<rightharpoonup> tablet_descriptor) \<Rightarrow> tablet_id \<Rightarrow> tablet_descriptor \<Rightarrow> bool" where
  "legal_change m i t' \<longleftrightarrow>
    (case m i of
       None \<Rightarrow> td_state t' = Allocated \<and> td_redirect t' = None
     | Some t \<Rightarrow> td_state t < td_state t' \<and> (\<exists>r. t' = td_moved (td_state t') r t)
         \<and> (td_state t' = Fenced \<longrightarrow> td_state t = Active))"

definition legal_changes ::
    "directory_snapshot \<Rightarrow> (tablet_id \<rightharpoonup> tablet_descriptor) \<Rightarrow> directory_snapshot \<Rightarrow> bool" where
  "legal_changes s changes s' \<longleftrightarrow>
    (\<forall>i t'. changes i = Some t' \<longrightarrow> legal_change (dir_get s) i t')
    \<and> (\<forall>i t' r. changes i = Some t' \<and> td_redirect t' = Some r \<longrightarrow>
        r \<noteq> [] \<and> (\<forall>j \<in> set r. \<exists>u. dir_get s' j = Some u \<and> td_state u = Active))"

section \<open>Every transition, as one change of the represented map\<close>

lemma legal_move:
  assumes "m i = Some t" "td_state t < st" "st = Fenced \<Longrightarrow> td_state t = Active"
  shows "legal_change m i (td_moved st r t)"
  using assms by (auto simp: legal_change_def)

lemma apply_dir_op_moves:
  assumes "dir_valid s" "apply_dir_op s op = Inr s'"
  obtains changes where "dir_moves s changes s'" "legal_changes s changes s'"
proof (cases op)
  case (OpAllocate i rng e g)
  with assms allocateD [of s i rng e g s'] show ?thesis
    by (intro that) (auto simp: legal_changes_def legal_change_def split: if_splits)
next
  case (OpStage i)
  with assms have "dir_replace s i [Allocated] Inactive None ''stage'' = Inr s'" by (simp add: stage_def)
  from dir_replaceD [OF assms(1) this]
  obtain t where "dir_get s i = Some t" "td_state t \<in> set [Allocated]"
      "dir_moves s [i \<mapsto> td_moved Inactive None t] s'" .
  then show ?thesis
    by (intro that)
      (assumption, auto simp: legal_changes_def less_tablet_state_def dir_moves_def
        intro!: legal_move split: if_splits)
next
  case (OpActivate i)
  with assms have "activate s i = Inr s'" by simp
  from activateD [OF assms(1) this]
  obtain t where "dir_get s i = Some t" "td_state t = Inactive"
      "dir_moves s [i \<mapsto> td_moved Active None t] s'" .
  then show ?thesis
    by (intro that)
      (assumption, auto simp: legal_changes_def less_tablet_state_def dir_moves_def
        intro!: legal_move split: if_splits)
next
  case (OpSeal i)
  with assms have "dir_replace s i [Active] Fenced None ''seal'' = Inr s'" by (simp add: seal_def)
  from dir_replaceD [OF assms(1) this]
  obtain t where "dir_get s i = Some t" "td_state t \<in> set [Active]"
      "dir_moves s [i \<mapsto> td_moved Fenced None t] s'" .
  then show ?thesis
    by (intro that)
      (assumption, auto simp: legal_changes_def less_tablet_state_def dir_moves_def
        intro!: legal_move split: if_splits)
next
  case (OpRetire i r)
  with assms have "retire s i r = Inr s'" by simp
  then obtain t where "dir_get s i = Some t" "td_state t \<in> {Fenced, Inactive}" "r \<noteq> []"
      "\<forall>j \<in> set r. \<exists>u. dir_get s j = Some u \<and> td_state u = Active"
      "dir_moves s [i \<mapsto> td_moved Tombstone (Some r) t] s'"
    by (rule retireD [OF assms(1)])
  moreover from this have "i \<notin> set r" by auto
  ultimately show ?thesis
    by (intro that)
      (assumption, auto simp: legal_changes_def less_tablet_state_def dir_moves_def
        intro!: legal_move split: if_splits)
next
  case (OpCutoverSplit p l r)
  with assms have "cutover_split s p l r = Inr s'" by simp
  from cutover_splitD [OF assms(1) this]
  obtain tp tl tr where "dir_get s p = Some tp" "dir_get s l = Some tl" "dir_get s r = Some tr"
      "td_state tp = Fenced" "td_state tl = Inactive" "td_state tr = Inactive"
      "dir_moves s [p \<mapsto> td_moved Tombstone (Some [l, r]) tp, l \<mapsto> td_moved Active None tl,
        r \<mapsto> td_moved Active None tr] s'" .
  then show ?thesis
    by (intro that)
      (assumption, auto simp: legal_changes_def less_tablet_state_def dir_moves_def
        intro!: legal_move split: if_splits)
next
  case (OpCutoverMerge l r m)
  with assms have "cutover_merge s l r m = Inr s'" by simp
  from cutover_mergeD [OF assms(1) this]
  obtain tl tr tm where "dir_get s l = Some tl" "dir_get s r = Some tr" "dir_get s m = Some tm"
      "td_state tl = Fenced" "td_state tr = Fenced" "td_state tm = Inactive"
      "dir_moves s [l \<mapsto> td_moved Tombstone (Some [m]) tl, r \<mapsto> td_moved Tombstone (Some [m]) tr,
        m \<mapsto> td_moved Active None tm] s'" .
  then show ?thesis
    by (intro that)
      (assumption, auto simp: legal_changes_def less_tablet_state_def dir_moves_def
        intro!: legal_move split: if_splits)
qed

lemma apply_dir_op_valid:
  assumes "dir_valid s" "apply_dir_op s op = Inr s'"
  shows "dir_valid s'" "unat (ds_version s') = unat (ds_version s) + 1" "ds_namespace s' = ds_namespace s"
  using assms by (auto elim!: apply_dir_op_moves simp: dir_moves_def)

lemma dir_step_valid: "dir_valid s \<Longrightarrow> dir_step s s' \<Longrightarrow> dir_valid s'"
  by (auto elim!: dir_stepE intro: apply_dir_op_valid)

lemma dir_reachable_valid: "dir_reachable s \<Longrightarrow> dir_valid s"
  by (induction rule: dir_reachable.induct) (auto intro: bootstrapD dir_step_valid)

lemma dir_step_descriptor:
  assumes "dir_valid s" "dir_step s s'" "dir_get s i = Some t"
  shows "\<exists>t'. dir_get s' i = Some t' \<and> td_state t \<le> td_state t' \<and> td_range t' = td_range t
    \<and> td_epoch t' = td_epoch t \<and> td_guard t' = td_guard t"
proof -
  from assms(2) obtain op where "apply_dir_op s op = Inr s'" by (rule dir_stepE)
  with assms(1) obtain changes where moves: "dir_moves s changes s'"
    and "legal_changes s changes s'" by (rule apply_dir_op_moves)
  then have legal: "\<And>i t'. changes i = Some t' \<Longrightarrow> legal_change (dir_get s) i t'"
    by (simp add: legal_changes_def)
  show ?thesis
  proof (cases "changes i")
    case None
    with moves assms(3) show ?thesis by (simp add: dir_moves_def map_add_def)
  next
    case (Some t')
    from legal [OF Some] assms(3) have "td_state t < td_state t'" "\<exists>r. t' = td_moved (td_state t') r t"
      by (simp_all add: legal_change_def)
    moreover from this(2) have "td_range t' = td_range t \<and> td_epoch t' = td_epoch t \<and> td_guard t' = td_guard t"
      by (metis td_moved_simps(2,4,5))
    ultimately show ?thesis using Some moves by (simp add: dir_moves_def)
  qed
qed

lemma dir_steps_descriptor:
  assumes "dir_step\<^sup>*\<^sup>* s s'" "dir_valid s" "dir_get s i = Some t"
  shows "dir_valid s' \<and> (\<exists>t'. dir_get s' i = Some t' \<and> td_state t \<le> td_state t' \<and> td_range t' = td_range t
    \<and> td_epoch t' = td_epoch t \<and> td_guard t' = td_guard t)"
  using assms(1)
proof (induction rule: rtranclp_induct)
  case base
  with assms(2,3) show ?case by simp
next
  case (step u v)
  then obtain t' where t': "dir_get u i = Some t'" "td_state t \<le> td_state t'" "td_range t' = td_range t"
    "td_epoch t' = td_epoch t" "td_guard t' = td_guard t" by blast
  from step dir_step_descriptor [of u v i t'] t' show ?case
    by (auto intro: dir_step_valid order_trans)
qed

section \<open>Redirects\<close>

lemma acyclic_sinks:
  assumes "acyclic E" "\<And>x y. (x, y) \<in> N \<Longrightarrow> y \<notin> Domain (E \<union> N)"
  shows "acyclic (E \<union> N)"
proof -
  have split: "(a, b) \<in> E\<^sup>+ \<or> b \<notin> Domain (E \<union> N)" if "(a, b) \<in> (E \<union> N)\<^sup>+" for a b
    using that by (induction rule: trancl_induct) (use assms(2) in \<open>auto intro: trancl_into_trancl\<close>)
  have "a \<in> Domain (E \<union> N)" if "(a, b) \<in> (E \<union> N)\<^sup>+" for a b
    using that by (induction rule: trancl_induct) auto
  with split assms(1) show ?thesis unfolding acyclic_def by blast
qed

lemma redirects_forward_step:
  assumes "dir_valid s" "redirects_forward s" "dir_step s s'"
  shows "redirects_forward s'"
proof -
  from assms(3) obtain op where "apply_dir_op s op = Inr s'" by (rule dir_stepE)
  with assms(1) obtain changes where moves: "dir_moves s changes s'"
    and "legal_changes s changes s'" by (rule apply_dir_op_moves)
  then have legal: "\<And>i t'. changes i = Some t' \<Longrightarrow> legal_change (dir_get s) i t'"
    and new: "\<And>i t' r. changes i = Some t' \<Longrightarrow> td_redirect t' = Some r \<Longrightarrow>
      r \<noteq> [] \<and> (\<forall>j \<in> set r. \<exists>u. dir_get s' j = Some u \<and> td_state u = Active)"
    unfolding legal_changes_def by blast+
  have get: "dir_get s' i = (case changes i of None \<Rightarrow> dir_get s i | Some t \<Rightarrow> Some t)" for i
    using moves by (simp add: dir_moves_def map_add_def)
  have valid': "dir_valid s'" using moves by (simp add: dir_moves_def)
  define N where "N = {(i, j). \<exists>t r. changes i = Some t \<and> td_redirect t = Some r \<and> j \<in> set r}"
  have no_old: "td_redirect t = None" if "dir_get s i = Some t" "changes i = Some t'" for i t t'
    using legal [OF that(2)] that(1) dir_validD(4) [OF assms(1) that(1)]
    by (cases "td_state t'") (auto simp: legal_change_def less_tablet_state_def)
  have edges: "redirect_edges s' = redirect_edges s \<union> N"
    using no_old by (fastforce simp: redirect_edges_def N_def get split: option.splits)
  have "j \<notin> Domain (redirect_edges s')" if "(i, j) \<in> N" for i j
    using new that dir_validD(4) [OF valid'] by (fastforce simp: N_def redirect_edges_def)
  then have "acyclic (redirect_edges s')"
    using acyclic_sinks [of "redirect_edges s" N] assms(2) by (auto simp: edges redirects_forward_def)
  moreover have "r \<noteq> [] \<and> (\<forall>j \<in> set r. \<exists>u. dir_get s' j = Some u \<and> td_state u \<in> {Active, Fenced, Tombstone})"
    if t: "dir_get s' i = Some t" "td_redirect t = Some r" for i t r
  proof (cases "changes i")
    case None
    with t assms(2) have "r \<noteq> []" and old: "\<And>j. j \<in> set r \<Longrightarrow>
        \<exists>u. dir_get s j = Some u \<and> td_state u \<in> {Active, Fenced, Tombstone}"
      by (auto simp: get redirects_forward_def)
    have "\<exists>u. dir_get s' j = Some u \<and> td_state u \<in> {Active, Fenced, Tombstone}" if j: "j \<in> set r" for j
    proof -
      from old [OF j] obtain u where u: "dir_get s j = Some u" "Active \<le> td_state u"
        by (auto simp: less_eq_tablet_state_def)
      with dir_step_descriptor [OF assms(1,3) u(1)] obtain u' where
        "dir_get s' j = Some u'" "Active \<le> td_state u'" by force
      then show ?thesis by (cases "td_state u'") (auto simp: less_eq_tablet_state_def)
    qed
    with \<open>r \<noteq> []\<close> show ?thesis by blast
  next
    case (Some t')
    with t new show ?thesis by (fastforce simp: get)
  qed
  ultimately show ?thesis unfolding redirects_forward_def by blast
qed

lemma dir_reachable_redirects: "dir_reachable s \<Longrightarrow> redirects_forward s"
proof (induction rule: dir_reachable.induct)
  case (reach_bootstrap ns i rng e g s)
  then have "redirect_edges s = {}"
    by (auto simp: bootstrapD(4) redirect_edges_def split: if_splits)
  with reach_bootstrap show ?case
    by (auto simp: bootstrapD(4) redirects_forward_def acyclic_def split: if_splits)
next
  case (reach_step s s')
  then show ?case by (blast intro: redirects_forward_step dir_reachable_valid)
qed

section \<open>Refinement\<close>

lemma map_abs_put:
  "map_abs (m(i \<mapsto> t')) (Suc v) =
    spec_put i (abs_state (td_state t')) (map_abs m v)
      \<lparr>sp_range := (sp_range (map_abs m v))(i := {x. range_covers (td_range t') x}),
       sp_redirect := (sp_redirect (map_abs m v))
         (i := case td_redirect t' of None \<Rightarrow> {} | Some r \<Rightarrow> set r)\<rparr>"
  by (auto simp: map_abs_def spec_put_def fun_eq_iff)

lemma map_abs_simps [simp]:
  "sp_state (map_abs m v) i = (case m i of None \<Rightarrow> SAbsent | Some t \<Rightarrow> abs_state (td_state t))"
  "sp_range (map_abs m v) i = (case m i of None \<Rightarrow> {} | Some t \<Rightarrow> {x. range_covers (td_range t) x})"
  "sp_version (map_abs m v) = v"
  by (simp_all add: map_abs_def)

lemma abs_state_iff [simp]:
  "abs_state st = SActive \<longleftrightarrow> st = Active" "abs_state st = SInactive \<longleftrightarrow> st = Inactive"
  "abs_state st = SFenced \<longleftrightarrow> st = Fenced" "abs_state st \<noteq> SAbsent"
  by (cases st; simp)+

text \<open>A move that leaves the redirect empty is an update of the abstract lifecycle state alone.\<close>

lemma map_abs_move:
  assumes "m i = Some t" "td_redirect t = None"
  shows "map_abs (m(i \<mapsto> td_moved st None t)) (Suc v) = spec_put i (abs_state st) (map_abs m v)"
  using assms by (auto simp: map_abs_def spec_put_def fun_eq_iff)

lemma map_abs_retire:
  assumes "m i = Some t"
  shows "map_abs (m(i \<mapsto> td_moved Tombstone (Some r) t)) (Suc v) =
    spec_put i STombstone (map_abs m v)\<lparr>sp_redirect := (sp_redirect (map_abs m v))(i := set r)\<rparr>"
  using assms by (auto simp: map_abs_def spec_put_def fun_eq_iff)

lemma spec_activate_step:
  assumes "m i = Some t" "td_state t = Inactive" "td_redirect t = None"
    and "\<And>j u. m j = Some u \<Longrightarrow> td_state u = Active \<Longrightarrow>
      {x. range_covers (td_range u) x} \<inter> {x. range_covers (td_range t) x} = {}"
  shows "spec_step (map_abs m v) (map_abs (m(i \<mapsto> td_moved Active None t)) (Suc v))"
  unfolding map_abs_move [of m i t, OF assms(1,3)] abs_state.simps
  by (rule SpecActivate) (use assms in \<open>auto split: option.splits\<close>)

lemma spec_retire_step:
  assumes "m i = Some t" "td_state t \<in> {Fenced, Inactive}" "r \<noteq> []"
    and "\<And>j. j \<in> set r \<Longrightarrow> \<exists>u. m j = Some u \<and> td_state u = Active"
  shows "spec_step (map_abs m v) (map_abs (m(i \<mapsto> td_moved Tombstone (Some r) t)) (Suc v))"
  unfolding map_abs_retire [of m i t, OF assms(1)]
  by (rule SpecRetire) (use assms in \<open>fastforce split: option.splits\<close>)+

lemma active_ranges_disjoint:
  assumes "dir_valid s" "dir_get s i = Some t" "dir_get s j = Some u" "td_state t = Active"
    "td_state u = Active" "i \<noteq> j"
  shows "{x. range_covers (td_range t) x} \<inter> {x. range_covers (td_range u) x} = {}"
  using partition_space.disjoint_point [of "td_range t" "td_range u"] assms
    dir_valid_activeD(2) [OF assms(1-5) assms(6)] dir_validD(3) [OF assms(1)]
  by blast

lemma bootstrap_refines:
  assumes "bootstrap ns i rng e g = Inr s"
  shows "spec_step spec_init (dir_abs s)"
proof -
  have "range_wf rng" using dir_validD(3) [OF bootstrapD(1) [OF assms], of i] bootstrapD(4) [OF assms] by simp
  then have "{x. range_covers rng x} \<noteq> {}" using partition_space.inhabited by blast
  then have "spec_step spec_init
      (spec_put i SAllocated spec_init\<lparr>sp_range := (sp_range spec_init)(i := {x. range_covers rng x})\<rparr>)"
    by (intro SpecBootstrap) (simp_all add: spec_init_def)
  also have "spec_put i SAllocated spec_init\<lparr>sp_range := (sp_range spec_init)(i := {x. range_covers rng x})\<rparr>
      = dir_abs s"
    by (auto simp: dir_abs_def bootstrapD [OF assms] map_abs_def spec_put_def spec_init_def fun_eq_iff)
  finally show ?thesis .
qed

lemma dir_abs_moves:
  "dir_moves s ch s' \<Longrightarrow> dir_abs s' = map_abs (dir_get s ++ ch) (Suc (unat (ds_version s)))"
  by (simp add: dir_abs_def dir_moves_def)

lemma allocate_refines:
  assumes "dir_valid s" "allocate s i rng e g = Inr s'"
  shows "spec_step (dir_abs s) (dir_abs s')"
proof -
  note al = allocateD [OF assms(2)]
  have "range_wf rng" using al(2) dir_validD(3) [of s' i] by (auto simp: dir_moves_def)
  then have "{x. range_covers rng x} \<noteq> {}" using partition_space.inhabited by blast
  moreover have "unat (ds_version s) > 0"
    using assms(1) by (simp add: dir_valid_def generation_is_valid_def unat_gt_0)
  ultimately have "spec_step (dir_abs s)
      (spec_put i SAllocated (dir_abs s)\<lparr>sp_range := (sp_range (dir_abs s))(i := {x. range_covers rng x})\<rparr>)"
    using al(1) by (intro SpecAllocate) (simp_all add: dir_abs_def)
  also have "spec_put i SAllocated (dir_abs s)\<lparr>sp_range := (sp_range (dir_abs s))(i := {x. range_covers rng x})\<rparr>
      = dir_abs s'"
    unfolding dir_abs_moves [OF al(2)] using al(1)
    by (auto simp: dir_abs_def map_abs_def spec_put_def fun_eq_iff)
  finally show ?thesis .
qed

lemma stage_refines:
  assumes "dir_valid s" "stage s i = Inr s'"
  shows "spec_step (dir_abs s) (dir_abs s')"
proof -
  have "dir_replace s i [Allocated] Inactive None ''stage'' = Inr s'" using assms(2) by (simp add: stage_def)
  then obtain t where t: "dir_get s i = Some t" "td_state t \<in> set [Allocated]"
      "dir_moves s [i \<mapsto> td_moved Inactive None t] s'"
    by (rule dir_replaceD [OF assms(1)])
  then have "td_redirect t = None" using dir_validD(4) [OF assms(1)] by fastforce
  then show ?thesis
    unfolding dir_abs_moves [OF t(3)] unfolding dir_abs_def
    using t(1,2) by (auto simp: map_abs_move intro: SpecStage)
qed

lemma seal_refines:
  assumes "dir_valid s" "seal s i = Inr s'"
  shows "spec_step (dir_abs s) (dir_abs s')"
proof -
  have "dir_replace s i [Active] Fenced None ''seal'' = Inr s'" using assms(2) by (simp add: seal_def)
  then obtain t where t: "dir_get s i = Some t" "td_state t \<in> set [Active]"
      "dir_moves s [i \<mapsto> td_moved Fenced None t] s'"
    by (rule dir_replaceD [OF assms(1)])
  then have "td_redirect t = None" using dir_validD(4) [OF assms(1)] by fastforce
  then show ?thesis
    unfolding dir_abs_moves [OF t(3)] unfolding dir_abs_def
    using t(1,2) by (auto simp: map_abs_move intro: SpecSeal)
qed

lemma activate_refines:
  assumes "dir_valid s" "activate s i = Inr s'"
  shows "spec_step (dir_abs s) (dir_abs s')"
proof -
  obtain t where t: "dir_get s i = Some t" "td_state t = Inactive" "dir_moves s [i \<mapsto> td_moved Active None t] s'"
    using assms by (rule activateD)
  have r: "td_redirect t = None" using t dir_validD(4) [OF assms(1)] by fastforce
  have s': "dir_valid s'" "dir_get s' = (dir_get s)(i \<mapsto> td_moved Active None t)"
    using t(3) by (simp_all add: dir_moves_def)
  have "{x. range_covers (td_range u) x} \<inter> {x. range_covers (td_range t) x} = {}"
    if "dir_get s j = Some u" "td_state u = Active" for j u
  proof -
    have "j \<noteq> i" using that t(1,2) by auto
    with that show ?thesis
      using active_ranges_disjoint [OF s'(1), of j u i "td_moved Active None t"] s'(2) by simp
  qed
  from spec_activate_step [of "dir_get s", OF t(1,2) r this] show ?thesis
    unfolding dir_abs_moves [OF t(3)] unfolding dir_abs_def by simp
qed

lemma retire_refines:
  assumes "dir_valid s" "retire s i r = Inr s'"
  shows "spec_step (dir_abs s) (dir_abs s')"
proof -
  obtain t where t: "dir_get s i = Some t" "td_state t \<in> {Fenced, Inactive}" "r \<noteq> []"
    "\<forall>j \<in> set r. \<exists>u. dir_get s j = Some u \<and> td_state u = Active"
    "dir_moves s [i \<mapsto> td_moved Tombstone (Some r) t] s'"
    using assms by (rule retireD)
  from spec_retire_step [of "dir_get s", OF t(1-3)] t(4) show ?thesis
    unfolding dir_abs_moves [OF t(5)] unfolding dir_abs_def by simp
qed

text \<open>A cutover is a sequence of abstract steps that its single version bump makes atomic.\<close>

lemma map_abs_version: "(map_abs m v)\<lparr>sp_version := w\<rparr> = map_abs m w"
  by (simp add: map_abs_def)

lemma cutover_split_refines:
  assumes "dir_valid s" "cutover_split s p l r = Inr s'"
  shows "\<exists>n \<in> {2, 3}. (spec_step ^^ n) (dir_abs s) ((dir_abs s')\<lparr>sp_version := unat (ds_version s) + n\<rparr>)"
proof -
  obtain tp tl tr where t: "dir_get s p = Some tp" "dir_get s l = Some tl" "dir_get s r = Some tr"
    "td_state tp = Fenced" "td_state tl = Inactive" "td_state tr = Inactive"
    and mv: "dir_moves s [p \<mapsto> td_moved Tombstone (Some [l, r]) tp, l \<mapsto> td_moved Active None tl,
       r \<mapsto> td_moved Active None tr] s'"
    using assms by (rule cutover_splitD)
  let ?m = "dir_get s" and ?v = "unat (ds_version s)"
  let ?m1 = "?m(l \<mapsto> td_moved Active None tl)"
  let ?m2 = "?m1(r \<mapsto> td_moved Active None tr)"
  let ?m3 = "?m2(p \<mapsto> td_moved Tombstone (Some [l, r]) tp)"
  have ne: "p \<noteq> l" "p \<noteq> r" using t by auto
  have red: "td_redirect tl = None" "td_redirect tr = None" using t dir_validD(4) [OF assms(1)] by fastforce+
  have s': "dir_valid s'" "dir_get s' = ?m3"
    using mv ne by (auto simp: dir_moves_def fun_eq_iff)
  note disj = active_ranges_disjoint [OF s'(1), unfolded s'(2)]
  have old: "j \<notin> {p, l, r}" if "?m j = Some u" "td_state u = Active" for j u
    using that t by auto
  have 1: "spec_step (map_abs ?m ?v) (map_abs ?m1 (Suc ?v))"
  proof (rule spec_activate_step [of ?m, OF t(2,5) red(1)])
    fix j u assume u: "?m j = Some u" "td_state u = Active"
    have "l = r \<Longrightarrow> tr = tl" using t(2,3) by simp
    with u disj [of j u l "td_moved Active None tl"] old [OF u] ne
    show "{x. range_covers (td_range u) x} \<inter> {x. range_covers (td_range tl) x} = {}"
      by (cases "l = r") auto
  qed
  have 2: "spec_step (map_abs ?m1 (Suc ?v)) (map_abs ?m2 (Suc (Suc ?v)))" if lr: "l \<noteq> r"
  proof (rule spec_activate_step)
    fix j u assume u: "?m1 j = Some u" "td_state u = Active"
    with disj [of j u r "td_moved Active None tr"] old [of j u] ne lr
    show "{x. range_covers (td_range u) x} \<inter> {x. range_covers (td_range tr) x} = {}" by (auto split: if_splits)
  qed (use t red lr in auto)
  have 3: "spec_step (map_abs ?m2 w) (map_abs ?m3 (Suc w))" for w
    by (rule spec_retire_step) (use t ne in auto)
  have abs: "(dir_abs s')\<lparr>sp_version := w\<rparr> = map_abs ?m3 w" for w
    by (simp add: dir_abs_def s'(2) map_abs_version)
  show ?thesis
  proof (cases "l = r")
    case True
    then have "?m2 = ?m1" using t by simp
    with 1 3 [of "Suc ?v"] have "(spec_step ^^ 2) (map_abs ?m ?v) (map_abs ?m3 (?v + 2))"
      by (auto simp: numeral_2_eq_2 relcompp_apply)
    then show ?thesis unfolding abs dir_abs_def [of s] by blast
  next
    case False
    with 1 2 3 [of "Suc (Suc ?v)"] have "(spec_step ^^ 3) (map_abs ?m ?v) (map_abs ?m3 (?v + 3))"
      by (auto simp: numeral_3_eq_3 relcompp_apply)
    then show ?thesis unfolding abs dir_abs_def [of s] by blast
  qed
qed

lemma cutover_merge_refines:
  assumes "dir_valid s" "cutover_merge s l r c = Inr s'"
  shows "\<exists>n \<in> {2, 3}. (spec_step ^^ n) (dir_abs s) ((dir_abs s')\<lparr>sp_version := unat (ds_version s) + n\<rparr>)"
proof -
  obtain tl tr tc where t: "dir_get s l = Some tl" "dir_get s r = Some tr" "dir_get s c = Some tc"
    "td_state tl = Fenced" "td_state tr = Fenced" "td_state tc = Inactive"
    and mv: "dir_moves s [l \<mapsto> td_moved Tombstone (Some [c]) tl, r \<mapsto> td_moved Tombstone (Some [c]) tr,
       c \<mapsto> td_moved Active None tc] s'"
    using assms by (rule cutover_mergeD)
  let ?m = "dir_get s" and ?v = "unat (ds_version s)"
  let ?m1 = "?m(c \<mapsto> td_moved Active None tc)"
  let ?m2 = "?m1(l \<mapsto> td_moved Tombstone (Some [c]) tl)"
  let ?m3 = "?m2(r \<mapsto> td_moved Tombstone (Some [c]) tr)"
  have ne: "l \<noteq> c" "r \<noteq> c" using t by auto
  have red: "td_redirect tc = None" using t dir_validD(4) [OF assms(1)] by fastforce
  have s': "dir_valid s'" "dir_get s' = ?m3"
    using mv ne by (auto simp: dir_moves_def fun_eq_iff)
  note disj = active_ranges_disjoint [OF s'(1), unfolded s'(2)]
  have old: "j \<notin> {l, r, c}" if "?m j = Some u" "td_state u = Active" for j u
    using that t by auto
  have 1: "spec_step (map_abs ?m ?v) (map_abs ?m1 (Suc ?v))"
  proof (rule spec_activate_step [of ?m, OF t(3,6) red])
    fix j u assume u: "?m j = Some u" "td_state u = Active"
    with disj [of j u c "td_moved Active None tc"] old [OF u] ne
    show "{x. range_covers (td_range u) x} \<inter> {x. range_covers (td_range tc) x} = {}" by auto
  qed
  have 2: "spec_step (map_abs ?m1 w) (map_abs ?m2 (Suc w))" for w
    by (rule spec_retire_step) (use t ne in auto)
  have 3: "spec_step (map_abs ?m2 w) (map_abs ?m3 (Suc w))" if "l \<noteq> r" for w
    by (rule spec_retire_step) (use t ne that in auto)
  have abs: "(dir_abs s')\<lparr>sp_version := w\<rparr> = map_abs ?m3 w" for w
    by (simp add: dir_abs_def s'(2) map_abs_version)
  show ?thesis
  proof (cases "l = r")
    case True
    then have "?m3 = ?m2" using t by simp
    with 1 2 [of "Suc ?v"] have "(spec_step ^^ 2) (map_abs ?m ?v) (map_abs ?m3 (?v + 2))"
      by (auto simp: numeral_2_eq_2 relcompp_apply)
    then show ?thesis unfolding abs dir_abs_def [of s] by blast
  next
    case False
    with 1 2 [of "Suc ?v"] 3 [of "Suc (Suc ?v)"]
    have "(spec_step ^^ 3) (map_abs ?m ?v) (map_abs ?m3 (?v + 3))"
      by (auto simp: numeral_3_eq_3 relcompp_apply)
    then show ?thesis unfolding abs dir_abs_def [of s] by blast
  qed
qed

section \<open>Routing\<close>

lemma find_filter_unique:
  assumes "\<And>x y. x \<in> set xs \<Longrightarrow> y \<in> set xs \<Longrightarrow> Q x \<Longrightarrow> Q y \<Longrightarrow> P x \<Longrightarrow> P y \<Longrightarrow> x = y"
  shows "List.find P (filter Q xs) = Some x \<longleftrightarrow> x \<in> set xs \<and> Q x \<and> P x"
proof
  assume "x \<in> set xs \<and> Q x \<and> P x"
  then obtain y where y: "List.find P (filter Q xs) = Some y"
    by (cases "List.find P (filter Q xs)") (auto simp: find_None_iff)
  then have "y \<in> set (filter Q xs)" "P y" by (auto dest: find_SomeD)
  with assms \<open>x \<in> set xs \<and> Q x \<and> P x\<close> y show "List.find P (filter Q xs) = Some x" by fastforce
qed (auto dest: find_SomeD)

lemma lookup_unique:
  assumes "dir_valid s"
  shows "map_option td_id (List.find (\<lambda>t. range_covers (td_range t) x)
      (filter (\<lambda>t. td_state t = Active) (ds_tablets s))) = Some i
    \<longleftrightarrow> (\<exists>t. dir_get s i = Some t \<and> td_state t = Active \<and> range_covers (td_range t) x)"
proof -
  note get = dir_get_eq_Some_iff [OF dir_valid_distinct [OF assms]]
  have "t = u" if "t \<in> set (ds_tablets s)" "u \<in> set (ds_tablets s)" "td_state t = Active" "td_state u = Active"
    "range_covers (td_range t) x" "range_covers (td_range u) x" for t u
  proof -
    from that(1,2) have "dir_get s (td_id t) = Some t" "dir_get s (td_id u) = Some u" by (simp_all add: get)
    with active_ranges_disjoint [OF assms this that(3,4)] that(5,6) show ?thesis by fastforce
  qed
  then show ?thesis
    by (subst map_option_eq_Some, subst find_filter_unique) (auto simp: get)
qed

lemma lookup_by_hash_iff:
  assumes "dir_valid s"
  shows "lookup_by_hash s h = Some i \<longleftrightarrow>
    (\<exists>t. dir_get s i = Some t \<and> td_state t = Active \<and> contains_hash (td_range t) h)"
  using lookup_unique [OF assms, of "HashPoint h" i] by (simp add: lookup_by_hash_def)

lemma lookup_by_key_iff:
  assumes "dir_valid s"
  shows "lookup_by_key s k = Some i \<longleftrightarrow>
    (\<exists>t. dir_get s i = Some t \<and> td_state t = Active \<and> contains_key (td_range t) k)"
  using lookup_unique [OF assms, of "KeyPoint k" i] by (simp add: lookup_by_key_def)

section \<open>A worked example\<close>

text \<open>One tablet owning the whole hash space: bootstrap, stage, activate.\<close>

definition root_range :: partition_range where
  "root_range = RangeHash \<lparr>hp_bits = 0, hp_len = 0\<rparr>"

definition root_tablet :: "tablet_state \<Rightarrow> tablet_descriptor" where
  "root_tablet st = \<lparr>td_id = 1, td_range = root_range, td_state = st, td_epoch = 1, td_guard = 1,
    td_redirect = None\<rparr>"

definition root_directory :: "u64 \<Rightarrow> tablet_state \<Rightarrow> directory_snapshot" where
  "root_directory v st = \<lparr>ds_version = v, ds_namespace = 7, ds_tablets = [root_tablet st]\<rparr>"

lemmas dir_eval = bootstrap_def stage_def activate_def seal_def retire_def dir_replace_def index_of_def
  dir_advance_def directory_version_next_def checked_add_def validate_def check_generations_def
  generation_is_valid_def generation_INITIAL_def td_moved_def hash_prefix_check_def hash_prefix_new_def
  MAX_PREFIX_LEN_def

lemma root_directory_built:
  "bootstrap 7 1 root_range 1 1 = Inr (root_directory 1 Allocated)"
  "stage (root_directory 1 Allocated) 1 = Inr (root_directory 2 Inactive)"
  "activate (root_directory 2 Inactive) 1 = Inr (root_directory 3 Active)"
  "seal (root_directory 3 Active) 1 = Inr (root_directory 4 Fenced)"
  by (simp_all add: dir_eval root_range_def root_tablet_def root_directory_def)

lemma root_directory_steps:
  "dir_step (root_directory 1 Allocated) (root_directory 2 Inactive)"
  "dir_step (root_directory 2 Inactive) (root_directory 3 Active)"
  "dir_step (root_directory 3 Active) (root_directory 4 Fenced)"
  by (rule dir_step [of _ "OpStage 1"] dir_step [of _ "OpActivate 1"] dir_step [of _ "OpSeal 1"],
      simp add: root_directory_built)+

lemma root_directory_reachable:
  "dir_reachable (root_directory 1 Allocated)" "dir_reachable (root_directory 2 Inactive)"
  "dir_reachable (root_directory 3 Active)" "dir_reachable (root_directory 4 Fenced)"
proof -
  show a: "dir_reachable (root_directory 1 Allocated)"
    by (rule reach_bootstrap [OF root_directory_built(1)])
  show b: "dir_reachable (root_directory 2 Inactive)"
    by (rule reach_step [OF a root_directory_steps(1)])
  show c: "dir_reachable (root_directory 3 Active)"
    by (rule reach_step [OF b root_directory_steps(2)])
  show "dir_reachable (root_directory 4 Fenced)"
    by (rule reach_step [OF c root_directory_steps(3)])
qed

lemma root_directory_get:
  "dir_get (root_directory v st) 1 = Some (root_tablet st)"
  by (simp add: dir_get_def root_directory_def root_tablet_def)

text \<open>A split of that tablet: children allocated and staged, parent sealed, then the cutover.\<close>

fun run_ops :: "directory_snapshot \<Rightarrow> dir_op list \<Rightarrow> directory_error + directory_snapshot" where
  "run_ops s [] = Inr s"
| "run_ops s (op # ops) = and_then (apply_dir_op s op) (\<lambda>s'. run_ops s' ops)"

definition half_range :: "u128 \<Rightarrow> partition_range" where
  "half_range b = RangeHash \<lparr>hp_bits = b, hp_len = 1\<rparr>"

definition half_tablet :: "tablet_id \<Rightarrow> u128 \<Rightarrow> tablet_state \<Rightarrow> tablet_descriptor" where
  "half_tablet i b st = \<lparr>td_id = i, td_range = half_range b, td_state = st, td_epoch = 1, td_guard = 1,
    td_redirect = None\<rparr>"

definition split_ops :: "dir_op list" where
  "split_ops = [OpAllocate 2 (half_range 0) 1 1, OpStage 2,
     OpAllocate 3 (half_range (2 ^ 127)) 1 1, OpStage 3, OpSeal 1]"

definition split_ready :: directory_snapshot where
  "split_ready = \<lparr>ds_version = 8, ds_namespace = 7, ds_tablets =
    [root_tablet Fenced, half_tablet 2 0 Inactive, half_tablet 3 (2 ^ 127) Inactive]\<rparr>"

definition split_done :: directory_snapshot where
  "split_done = \<lparr>ds_version = 9, ds_namespace = 7, ds_tablets =
    [td_moved Tombstone (Some [2, 3]) (root_tablet Fenced), half_tablet 2 0 Active,
     half_tablet 3 (2 ^ 127) Active]\<rparr>"

lemma run_ops_reachable: "dir_reachable s \<Longrightarrow> run_ops s ops = Inr s' \<Longrightarrow> dir_reachable s'"
proof (induction ops arbitrary: s)
  case (Cons op ops)
  then obtain u where u: "apply_dir_op s op = Inr u" "run_ops u ops = Inr s'" by (auto simp: and_then_Inr_iff)
  from reach_step [OF Cons.prems(1) dir_step [OF u(1)]] show ?case using u(2) by (rule Cons.IH)
qed simp

lemmas split_eval = dir_eval allocate_def cutover_split_def root_range_def root_tablet_def
  root_directory_def half_range_def half_tablet_def split_ops_def split_ready_def split_done_def
  hash_prefix_overlaps_def mask_eq_exp_minus_1

lemma split_ready_built: "run_ops (root_directory 3 Active) split_ops = Inr split_ready"
  by (simp add: split_eval)

lemma split_done_built: "cutover_split split_ready 1 2 3 = Inr split_done"
  by (simp add: split_eval)

lemma split_ready_reachable: "dir_reachable split_ready"
  by (rule run_ops_reachable [OF root_directory_reachable(3) split_ready_built])

lemma split_done_reachable: "dir_reachable split_done"
  by (rule reach_step [OF split_ready_reachable dir_step [of _ "OpCutoverSplit 1 2 3"]])
    (simp add: split_done_built)

section \<open>Properties\<close>

text \<open>
  C3: In every directory that bootstrap and any sequence of successful transitions can produce, at
  most one active tablet covers a point: two writable authorities for one partition hash or one key
  cannot be constructed.
\<close>
theorem directory_single_owner:
  assumes "dir_reachable s"
    and "dir_get s i = Some t" "td_authority t \<noteq> None" "range_covers (td_range t) x"
    and "dir_get s j = Some u" "td_authority u \<noteq> None" "range_covers (td_range u) x"
  shows "i = j"
proof -
  from assms(3,6) have "td_state t = Active" "td_state u = Active"
    by (simp_all add: td_authority_def split: tablet_state.splits)
  with active_ranges_disjoint [OF dir_reachable_valid [OF assms(1)] assms(2,5)] assms(4,7)
  show ?thesis by blast
qed

theorem directory_single_owner_witness:
  "(1 :: tablet_id) = 1 \<and> dir_get (root_directory 3 Active) 1 = Some (root_tablet Active)
    \<and> range_covers (td_range (root_tablet Active)) (HashPoint 5)"
  using directory_single_owner [OF root_directory_reachable(3) root_directory_get _ _ root_directory_get,
      of "HashPoint 5"]
  by (simp add: root_directory_get td_authority_def root_tablet_def root_range_def hash_prefix_contains_def)

text \<open>
  C14: Routing is exact.  In a reachable directory the lookup of a partition hash (of a key) returns
  a tablet precisely when that tablet is present, active and covers the hash (the key); so it returns
  nothing exactly in the gaps, and the storage order of the descriptors does not matter.
\<close>
theorem directory_routing_exact:
  assumes "dir_reachable s"
  shows "(lookup_by_hash s h = Some i \<longleftrightarrow>
      (\<exists>t. dir_get s i = Some t \<and> td_state t = Active \<and> contains_hash (td_range t) h))
    \<and> (lookup_by_key s k = Some i \<longleftrightarrow>
      (\<exists>t. dir_get s i = Some t \<and> td_state t = Active \<and> contains_key (td_range t) k))"
  using dir_reachable_valid [OF assms] by (simp add: lookup_by_hash_iff lookup_by_key_iff)

theorem directory_routing_exact_witness:
  "lookup_by_hash (root_directory 3 Active) 5 = Some 1
    \<and> lookup_by_key (root_directory 3 Active) [1, 2] \<noteq> Some 1"
  using directory_routing_exact [OF root_directory_reachable(3), of 5 1 "[1, 2]"]
  by (simp add: root_directory_get root_tablet_def root_range_def hash_prefix_contains_def)

text \<open>
  C12: The lifecycle has no way back.  Along any sequence of successful transitions every tablet
  stays in the directory with its range, epoch and guard unchanged and its state never earlier in
  the chain allocated, inactive, active, fenced, tombstone; a tablet that was fenced or retired never
  authorizes a write again.
\<close>
theorem directory_lifecycle_forward:
  assumes "dir_reachable s" "dir_step\<^sup>*\<^sup>* s s'" "dir_get s i = Some t"
  shows "\<exists>t'. dir_get s' i = Some t' \<and> td_state t \<le> td_state t' \<and> td_range t' = td_range t
      \<and> td_epoch t' = td_epoch t \<and> td_guard t' = td_guard t
      \<and> (td_state t \<in> {Fenced, Tombstone} \<longrightarrow> td_authority t' = None)"
proof -
  from dir_steps_descriptor [OF assms(2) dir_reachable_valid [OF assms(1)] assms(3)]
  obtain t' where t': "dir_get s' i = Some t'" "td_state t \<le> td_state t'" "td_range t' = td_range t"
    "td_epoch t' = td_epoch t" "td_guard t' = td_guard t" by blast
  moreover have "td_state t \<in> {Fenced, Tombstone} \<longrightarrow> td_authority t' = None"
    using t'(2) by (cases "td_state t'") (auto simp: td_authority_def less_eq_tablet_state_def)
  ultimately show ?thesis by blast
qed

theorem directory_lifecycle_forward_witness:
  "\<exists>t'. dir_get (root_directory 4 Fenced) 1 = Some t' \<and> Inactive \<le> td_state t'
      \<and> td_range t' = root_range"
  using directory_lifecycle_forward [OF root_directory_reachable(2) _ root_directory_get,
      of "root_directory 4 Fenced"] root_directory_steps(2,3)
  by (auto simp: root_tablet_def dest: r_into_rtranclp intro: rtranclp_trans)

text \<open>
  C13: Redirects always lead forward.  In every reachable directory the redirect of a retired tablet
  names at least one successor, every successor exists and has at least been activated, and the
  graph of redirects has no cycle.
\<close>
theorem directory_redirects_forward:
  assumes "dir_reachable s"
  shows "acyclic (redirect_edges s)
    \<and> (\<forall>i t r. dir_get s i = Some t \<and> td_redirect t = Some r \<longrightarrow> r \<noteq> []
        \<and> (\<forall>j \<in> set r. \<exists>u. dir_get s j = Some u \<and> td_state u \<in> {Active, Fenced, Tombstone}))"
  using dir_reachable_redirects [OF assms] unfolding redirects_forward_def by blast

theorem directory_redirects_forward_witness:
  "acyclic (redirect_edges split_done)
    \<and> (\<exists>u. dir_get split_done 2 = Some u \<and> td_state u \<in> {Active, Fenced, Tombstone})
    \<and> (\<exists>u. dir_get split_done 3 = Some u \<and> td_state u \<in> {Active, Fenced, Tombstone})"
proof -
  have "dir_get split_done 1 = Some (td_moved Tombstone (Some [2, 3]) (root_tablet Fenced))"
    by (simp add: dir_get_def split_done_def root_tablet_def)
  then show ?thesis
    using directory_redirects_forward [OF split_done_reachable] by fastforce
qed

text \<open>
  C7: The snapshot transitions implement the ownership specification of the repository
  (spec/directory.tla).  Bootstrap is a step from the initial state; allocate, stage, activate, seal
  and retire are each exactly one step, version included; a split or merge cutover is two or three
  specification steps taken under one version bump.
\<close>
theorem directory_refines_spec:
  "(\<forall>ns i rng e g s. bootstrap ns i rng e g = Inr s \<longrightarrow> spec_step spec_init (dir_abs s))
   \<and> (\<forall>s op s'. dir_reachable s \<and> apply_dir_op s op = Inr s' \<longrightarrow>
       (case op of
          OpCutoverSplit p l r \<Rightarrow> \<exists>n \<in> {2, 3}. (spec_step ^^ n) (dir_abs s)
            ((dir_abs s')\<lparr>sp_version := unat (ds_version s) + n\<rparr>)
        | OpCutoverMerge l r c \<Rightarrow> \<exists>n \<in> {2, 3}. (spec_step ^^ n) (dir_abs s)
            ((dir_abs s')\<lparr>sp_version := unat (ds_version s) + n\<rparr>)
        | _ \<Rightarrow> spec_step (dir_abs s) (dir_abs s'))
       \<and> unat (ds_version s') = unat (ds_version s) + 1)"
proof (intro conjI allI impI)
  fix ns i rng e g s assume "bootstrap ns i rng e g = Inr s"
  then show "spec_step spec_init (dir_abs s)" by (rule bootstrap_refines)
next
  fix s op s' assume op: "dir_reachable s \<and> apply_dir_op s op = Inr s'"
  then have s: "dir_valid s" by (blast intro: dir_reachable_valid)
  show "unat (ds_version s') = unat (ds_version s) + 1" using apply_dir_op_valid(2) s op by blast
  show "case op of
          OpCutoverSplit p l r \<Rightarrow> \<exists>n \<in> {2, 3}. (spec_step ^^ n) (dir_abs s)
            ((dir_abs s')\<lparr>sp_version := unat (ds_version s) + n\<rparr>)
        | OpCutoverMerge l r c \<Rightarrow> \<exists>n \<in> {2, 3}. (spec_step ^^ n) (dir_abs s)
            ((dir_abs s')\<lparr>sp_version := unat (ds_version s) + n\<rparr>)
        | _ \<Rightarrow> spec_step (dir_abs s) (dir_abs s')"
  proof (cases op)
    case (OpAllocate i rng e g)
    with op allocate_refines [OF s, of i rng e g s'] show ?thesis by simp
  next
    case (OpStage i)
    with op stage_refines [OF s, of i s'] show ?thesis by simp
  next
    case (OpActivate i)
    with op activate_refines [OF s, of i s'] show ?thesis by simp
  next
    case (OpSeal i)
    with op seal_refines [OF s, of i s'] show ?thesis by simp
  next
    case (OpRetire i r)
    with op retire_refines [OF s, of i r s'] show ?thesis by simp
  next
    case (OpCutoverSplit p l r)
    with op cutover_split_refines [OF s, of p l r s'] show ?thesis by simp
  next
    case (OpCutoverMerge l r c)
    with op cutover_merge_refines [OF s, of l r c s'] show ?thesis by simp
  qed
qed

theorem directory_refines_spec_witness:
  "spec_step spec_init (dir_abs (root_directory 1 Allocated))
    \<and> spec_step (dir_abs (root_directory 2 Inactive)) (dir_abs (root_directory 3 Active))
    \<and> (\<exists>n \<in> {2, 3}. (spec_step ^^ n) (dir_abs split_ready) ((dir_abs split_done)\<lparr>sp_version := 8 + n\<rparr>))"
proof -
  note spec = directory_refines_spec [THEN conjunct2, rule_format]
  have "spec_step (dir_abs (root_directory 2 Inactive)) (dir_abs (root_directory 3 Active))"
    using spec [of "root_directory 2 Inactive" "OpActivate 1"] root_directory_reachable(2)
    by (simp add: root_directory_built)
  moreover have "\<exists>n \<in> {2, 3}. (spec_step ^^ n) (dir_abs split_ready) ((dir_abs split_done)\<lparr>sp_version := 8 + n\<rparr>)"
    using spec [of split_ready "OpCutoverSplit 1 2 3" split_done] split_ready_reachable split_done_built
    by (simp add: split_ready_def)
  ultimately show ?thesis
    using directory_refines_spec [THEN conjunct1, rule_format, OF root_directory_built(1)] by blast
qed

end
