(* ===== verification/Scan_Complete.thy ===== *)
theory Scan_Complete
  imports Scan_Service
begin

text \<open>
  Completeness of the client's scan: on a directory whose active tablets cover the key space and
  are all served, a scan of a key range in either direction returns the keys of the range once and in order.
  Both directions interpret the locale \<open>paged_scan\<close> of \<open>Scan_Service\<close>.  The last section shows when the client's
  lookup of an index term fails although every tablet answers it.
\<close>

section \<open>Sorted lists\<close>

lemma filter_split_sorted:
  fixes xs :: "'a::linorder list"
  assumes "sorted_wrt (<) xs" "\<And>k. P k \<longleftrightarrow> Q k \<or> R k" "\<And>j k. Q j \<Longrightarrow> R k \<Longrightarrow> j < k"
  shows "filter P xs = filter Q xs @ filter R xs"
  using assms(1)
proof (induction xs)
  case (Cons x xs)
  have "filter Q xs = []" if "R x"
    using Cons.prems assms(3) [OF _ that] by (auto simp: filter_empty_conv dest: less_asym)
  moreover have "\<not> (Q x \<and> R x)" using assms(3) by blast
  ultimately show ?case using Cons assms(2) by auto
qed simp

lemma take_sorted_filter:
  assumes sorted: "sorted_wrt R xs" "\<And>x y. R x y \<Longrightarrow> \<not> R y x" and n: "0 < n" "n \<le> length xs"
  shows "filter (\<lambda>k. \<not> R (last (take n xs)) k) xs = take n xs"
proof -
  let ?l = "last (take n xs)"
  have "take n xs \<noteq> []" using n by auto
  then have parts: "butlast (take n xs) @ [?l] = take n xs" "?l \<in> set (take n xs)" by simp_all
  have "sorted_wrt R (butlast (take n xs) @ [?l])" using sorted(1) unfolding parts by (simp add: sorted_wrt_take)
  then have "\<forall>k \<in> set (butlast (take n xs) @ [?l]). \<not> R ?l k" using sorted(2) by (auto simp: sorted_wrt_append)
  moreover have "\<forall>k \<in> set (drop n xs). R ?l k"
    using sorted(1) append_take_drop_id [of n xs] parts(2) by (metis sorted_wrt_append)
  ultimately have "filter (\<lambda>k. \<not> R ?l k) (take n xs) = take n xs" "filter (\<lambda>k. \<not> R ?l k) (drop n xs) = []"
    unfolding parts(1) by (simp_all add: filter_empty_conv filter_id_conv)
  then show ?thesis by (metis append_take_drop_id filter_append append_Nil2)
qed

lemma key_successor_le: "key_successor l \<le> k \<longleftrightarrow> l < k"
proof (induction l arbitrary: k)
  case Nil
  then show ?case by (cases k) (auto simp: key_successor_def word_neq_0_conv [symmetric])
next
  case (Cons a l)
  then show ?case by (cases k) (auto simp: key_successor_def)
qed

section \<open>The keys of a directory's tablets\<close>

definition tablet_keys :: "scan_worker \<Rightarrow> ordered_range \<times> tablet_id \<Rightarrow> key list" where
  "tablet_keys w t =
    (case wk_tablets w (snd t) of
       None \<Rightarrow> []
     | Some local \<Rightarrow> filter (ordered_range_contains (fst t)) (bt_keys (objects (lt_store local))))"

definition cluster_keys :: "scan_worker \<Rightarrow> key list" where
  "cluster_keys w = sorted_list_of_set (set (concat (map (tablet_keys w) (ordered_tablets (wk_directory w)))))"

definition in_bounds :: "bytes option \<Rightarrow> bytes option \<Rightarrow> key \<Rightarrow> bool" where
  "in_bounds start stop k \<longleftrightarrow> (case start of None \<Rightarrow> True | Some lower \<Rightarrow> lower \<le> k) \<and> below_end k stop"

text \<open>
  The situation a scan is asked in: the directory is valid, its active tablets are ordered, cover all
  keys and are served here, every store is well formed and indexed, no key of the window is
  expired or internal, and no bound is the key of an index entry, which would make it an index lookup.
\<close>

definition served :: "scan_worker \<Rightarrow> ordered_range \<times> tablet_id \<Rightarrow> bool" where
  "served w t \<longleftrightarrow> wk_placement w (snd t) = Some (wk_id w)
    \<and> (case wk_tablets w (snd t) of
         None \<Rightarrow> False
       | Some local \<Rightarrow> store_inv (lt_store local) \<and> ordered (lt_store local) \<noteq> None)"

definition all_visible :: "scan_worker \<Rightarrow> wall_timestamp \<Rightarrow> (key \<Rightarrow> bool) \<Rightarrow> bool" where
  "all_visible w now window \<longleftrightarrow>
    (\<forall>t \<in> set (ordered_tablets (wk_directory w)).
      case wk_tablets w (snd t) of
        None \<Rightarrow> True
      | Some local \<Rightarrow> list_all (scan_visible (lt_store local) now) (filter window (tablet_keys w t)))"

definition scan_ready :: "scan_worker \<Rightarrow> namespace_id \<Rightarrow> wall_timestamp \<Rightarrow> scan_options \<Rightarrow> bool" where
  "scan_ready w ns now options \<longleftrightarrow>
    dir_valid (wk_directory w) \<and> ds_namespace (wk_directory w) = ns
    \<and> \<not> hash_tablet (wk_directory w)
    \<and> (\<forall>k. lookup_by_key (wk_directory w) k \<noteq> None)
    \<and> list_all (served w) (ordered_tablets (wk_directory w))
    \<and> all_visible w now (in_bounds (sx_start options) (sx_end options))
    \<and> list_all (\<lambda>(rng, _). case or_end rng of None \<Rightarrow> True | Some stop \<Rightarrow> \<not> is_index_key stop)
        (ordered_tablets (wk_directory w))
    \<and> (case sx_end options of
         None \<Rightarrow> True
       | Some stop \<Rightarrow> \<not> is_index_key stop \<and> (case sx_start options of None \<Rightarrow> [] | Some start \<Rightarrow> start) < stop)
    \<and> sx_max_items options \<noteq> 0 \<and> sx_max_bytes options \<noteq> 0
    \<and> (sx_consistency options = SCAN_LATEST_PER_TABLET \<or> sx_consistency options = SCAN_ANY)"

definition scan_answer :: "scan_worker \<Rightarrow> scan_options \<Rightarrow> key list" where
  "scan_answer w options =
    (let inside = filter (in_bounds (sx_start options) (sx_end options)) (cluster_keys w) in
     limited (sx_limit options) (case sx_direction options of Forward \<Rightarrow> inside | Reverse \<Rightarrow> rev inside))"

lemma sorted_cluster_keys: "sorted_wrt (<) (cluster_keys w)"
  by (simp add: cluster_keys_def)

lemma set_cluster_keys: "set (cluster_keys w) = (\<Union>t \<in> set (ordered_tablets (wk_directory w)). set (tablet_keys w t))"
  by (simp add: cluster_keys_def)

lemma td_is_writable_iff [simp]: "td_is_writable t \<longleftrightarrow> td_state t = Active"
  by (cases "td_state t") (simp_all add: td_is_writable_def state_is_writable_def)

lemma ordered_tablets_iff:
  "(rng, i) \<in> set (ordered_tablets d) \<longleftrightarrow> (\<exists>t \<in> active_tablets d. td_range t = RangeOrdered rng \<and> td_id t = i)"
proof -
  have "(rng, i) \<in> set (List.map_filter (\<lambda>t. if \<not> td_is_writable t then None
      else case td_range t of RangeOrdered rng \<Rightarrow> Some (rng, td_id t) | RangeHash _ \<Rightarrow> None) ts) \<longleftrightarrow>
    (\<exists>t \<in> set ts. td_state t = Active \<and> td_range t = RangeOrdered rng \<and> td_id t = i)" for ts
    by (induction ts) (auto simp: List.map_filter_simps split: partition_range.splits option.splits)
  then show ?thesis by (auto simp: ordered_tablets_def active_tablets_def)
qed

section \<open>Routing on a directory that covers the key space\<close>

lemma ordered_tablets_get:
  "dir_valid d \<Longrightarrow> (rng, i) \<in> set (ordered_tablets d) \<longleftrightarrow>
    (\<exists>t. dir_get d i = Some t \<and> td_state t = Active \<and> td_range t = RangeOrdered rng)"
  by (auto simp: ordered_tablets_iff active_tablets_def dir_get_eq_Some_iff dir_valid_distinct)

lemma lookup_ordered:
  assumes "dir_valid d"
  shows "lookup_by_key d k = Some i \<longleftrightarrow> (\<exists>rng. (rng, i) \<in> set (ordered_tablets d) \<and> ordered_range_contains rng k)"
proof -
  have "contains_key r k \<longleftrightarrow> (\<exists>rng. r = RangeOrdered rng \<and> ordered_range_contains rng k)" for r by (cases r) auto
  then show ?thesis unfolding lookup_by_key_iff [OF assms] ordered_tablets_get [OF assms] by blast
qed

lemma owner_unique:
  assumes "dir_valid d" "(rng, i) \<in> set (ordered_tablets d)" "(rng', j) \<in> set (ordered_tablets d)"
    and "ordered_range_contains rng k" "ordered_range_contains rng' k"
  shows "rng' = rng \<and> j = i"
proof -
  have "j = i" using assms lookup_ordered [OF assms(1)] by (metis option.inject)
  then show ?thesis using assms(2,3) by (auto simp: ordered_tablets_get [OF assms(1)])
qed

lemma ordered_tablets_wf: "dir_valid d \<Longrightarrow> (rng, i) \<in> set (ordered_tablets d) \<Longrightarrow> below_end (or_start rng) (or_end rng)"
  using dir_validD(3) by (fastforce simp: ordered_tablets_get ordered_range_wf_def)

lemma max_start_snoc:
  "max_start (ts @ [u]) =
    (case max_start ts of
       None \<Rightarrow> Some u
     | Some b \<Rightarrow> if or_start (fst b) < or_start (fst u) then Some u else Some b)"
  by (simp add: max_start_def split: option.splits)

lemma max_start_greatest:
  assumes "ts \<noteq> []"
  shows "\<exists>t. max_start ts = Some t \<and> t \<in> set ts \<and> (\<forall>u \<in> set ts. or_start (fst u) \<le> or_start (fst t))"
  using assms
proof (induction ts rule: rev_induct)
  case (snoc u ts)
  show ?case
  proof (cases "ts = []")
    case False
    then obtain t where t: "max_start ts = Some t" "t \<in> set ts" "\<forall>u \<in> set ts. or_start (fst u) \<le> or_start (fst t)"
      using snoc.IH by blast
    show ?thesis
    proof (cases "or_start (fst t) < or_start (fst u)")
      case True
      then show ?thesis
        using t order_trans [OF _ less_imp_le [OF True]] by (intro exI [of _ u]) (simp add: max_start_snoc)
    next
      case False
      then show ?thesis using t leI [OF False] by (intro exI [of _ t]) (simp add: max_start_snoc)
    qed
  qed (simp add: max_start_def)
qed simp

text \<open>The tablet with the greatest start below a bound reaches up to that bound.\<close>

lemma greatest_start_reaches:
  assumes d: "dir_valid d" "\<And>k. lookup_by_key d k \<noteq> None" and t: "(rng, i) \<in> set (ordered_tablets d)"
    and greatest: "\<And>u. u \<in> set (ordered_tablets d) \<Longrightarrow> P (or_start (fst u)) \<Longrightarrow> or_start (fst u) \<le> or_start rng"
    and stop: "or_end rng = Some stop" "\<And>k. k \<le> stop \<Longrightarrow> P k"
  shows False
proof -
  obtain rng' j where u: "(rng', j) \<in> set (ordered_tablets d)" "ordered_range_contains rng' stop"
    using d(2) [of stop] lookup_ordered [OF d(1), of stop] by blast
  then have "or_start rng' \<le> or_start rng" using greatest stop(2) by (fastforce simp: ordered_range_contains_iff)
  moreover have "or_start rng < stop" using ordered_tablets_wf [OF d(1) t] stop(1) by (simp add: below_end_def)
  ultimately have "ordered_range_contains rng' (or_start rng)"
    using u(2) by (auto simp: ordered_range_contains_iff intro: below_end_trans [OF less_imp_le])
  moreover have "ordered_range_contains rng (or_start rng)"
    using ordered_tablets_wf [OF d(1) t] by (simp add: ordered_range_contains_iff)
  ultimately have "rng' = rng" using owner_unique [OF d(1) t u(1), of "or_start rng"] by blast
  then show False using u(2) stop(1) by (simp add: ordered_range_contains_iff below_end_def)
qed

lemma route_reverse:
  assumes d: "dir_valid d" "\<And>k. lookup_by_key d k \<noteq> None" and low: "low < p"
  shows "\<exists>rng i. route_cursor d p Reverse = Some i \<and> (rng, i) \<in> set (ordered_tablets d)
    \<and> or_start rng < p \<and> (case or_end rng of None \<Rightarrow> True | Some stop \<Rightarrow> p \<le> stop)"
proof -
  obtain rng i where t: "lookup_by_key d p = Some i" "(rng, i) \<in> set (ordered_tablets d)" "ordered_range_contains rng p"
    using d(2) [of p] lookup_ordered [OF d(1), of p] by blast
  obtain t where get: "dir_get d i = Some t" "td_range t = RangeOrdered rng" using t(2) by (auto simp: ordered_tablets_get [OF d(1)])
  show ?thesis
  proof (cases "or_start rng = p")
    case False
    then show ?thesis
      using t get by (auto simp: route_cursor_def ordered_range_contains_iff below_end_def less_imp_le split: option.splits)
  next
    case True
    let ?below = "filter (\<lambda>(rng, _). or_start rng < p) (ordered_tablets d)"
    obtain rng0 i0 where "(rng0, i0) \<in> set (ordered_tablets d)" "ordered_range_contains rng0 low"
      using d(2) [of low] lookup_ordered [OF d(1), of low] by blast
    then have "?below \<noteq> []" using low by (fastforce simp: filter_empty_conv ordered_range_contains_iff)
    then obtain rng' j where max: "max_start ?below = Some (rng', j)" "(rng', j) \<in> set ?below"
        "\<And>u. u \<in> set ?below \<Longrightarrow> or_start (fst u) \<le> or_start rng'"
      using max_start_greatest [of ?below] by fastforce
    have "p \<le> stop" if "or_end rng' = Some stop" for stop
    proof (rule ccontr)
      assume "\<not> p \<le> stop"
      then show False
        using max greatest_start_reaches [OF d, of rng' j "\<lambda>k. k < p"] that by (fastforce simp: not_le)
    qed
    then show ?thesis
      using max(1,2) t(1) get True by (auto simp: route_cursor_def previous_tablet_def split: option.splits)
  qed
qed

lemma last_tablet:
  assumes d: "dir_valid d" "\<And>k. lookup_by_key d k \<noteq> None"
  shows "\<exists>rng i. max_start (ordered_tablets d) = Some (rng, i) \<and> (rng, i) \<in> set (ordered_tablets d) \<and> or_end rng = None"
proof -
  have "ordered_tablets d \<noteq> []" using d(2) [of "[]"] lookup_ordered [OF d(1), of "[]"] by fastforce
  then obtain rng i where max: "max_start (ordered_tablets d) = Some (rng, i)" "(rng, i) \<in> set (ordered_tablets d)"
      "\<And>u. u \<in> set (ordered_tablets d) \<Longrightarrow> or_start (fst u) \<le> or_start rng"
    using max_start_greatest [of "ordered_tablets d"] by fastforce
  have "or_end rng = None"
    using greatest_start_reaches [OF d max(2), of "\<lambda>_. True"] max(3) by (cases "or_end rng") auto
  then show ?thesis using max by blast
qed

section \<open>One page\<close>

text \<open>An entry shows what the tablet that owns its key stores there.\<close>

definition entry_live :: "scan_worker \<Rightarrow> wall_timestamp \<Rightarrow> scan_options \<Rightarrow> scan_entry \<Rightarrow> bool" where
  "entry_live w now options e \<longleftrightarrow>
    (\<exists>i local obj spec. lookup_by_key (wk_directory w) (en_key e) = Some i \<and> wk_tablets w i = Some local
      \<and> store_get (lt_store local) (en_key e) now = Some obj
      \<and> sp_projection spec = sx_projection options
      \<and> sp_max_bytes spec = min (unat (sx_max_bytes options)) SERVER_SCAN_MAX_BYTES
      \<and> value_shown spec (so_value obj) (en_value e))"

definition key_slice :: "scan_worker \<Rightarrow> scan_direction \<Rightarrow> bytes option \<Rightarrow> bytes option \<Rightarrow> key list" where
  "key_slice w direction lower upper =
    (let inside = filter (in_bounds lower upper) (cluster_keys w) in
     case direction of Forward \<Rightarrow> inside | Reverse \<Rightarrow> rev inside)"

lemma term_successor:
  obtains body where "push_escaped tm = body @ [0]"
    "prefix_successor (term_prefix i tm) = Some (INDEX_FORMAT_TAG @ to_be i @ [0] @ body @ [1])"
proof -
  have "last (push_escaped tm) = 0" by (induction tm) auto
  then obtain body where body: "push_escaped tm = body @ [0]"
    using append_butlast_last_id [of "push_escaped tm"] push_escaped_not_Nil by metis
  then show thesis by (intro that [OF body]) (simp add: prefix_successor_def term_prefix_def)
qed

lemma index_bounds:
  "is_index_key (term_prefix i tm)"
  "prefix_successor (term_prefix i tm) = Some stop \<Longrightarrow> is_index_key stop"
proof -
  show "is_index_key (term_prefix i tm)" by (simp add: is_index_key_def term_prefix_def)
  obtain body where "prefix_successor (term_prefix i tm) = Some (INDEX_FORMAT_TAG @ to_be i @ [0] @ body @ [1])"
    by (rule term_successor)
  then show "is_index_key stop" if "prefix_successor (term_prefix i tm) = Some stop"
    using that by (auto simp: is_index_key_def)
qed

lemma plain_window:
  assumes "case stop of None \<Rightarrow> True | Some b \<Rightarrow> \<not> is_index_key b"
  shows "\<not> is_term_window start stop v" "\<not> is_term_range_window start stop v"
    and "sp_end spec = stop \<Longrightarrow> index_term spec = None" "sp_end spec = stop \<Longrightarrow> index_term_range spec = None"
proof -
  show "\<not> is_term_window start stop v" "\<not> is_term_range_window start stop v"
    using assms index_bounds
    by (auto simp: is_term_window_def is_term_range_window_def term_prefix_parts_iff split: option.splits)
  show "index_term spec = None" if "sp_end spec = stop"
  proof (rule ccontr)
    assume "index_term spec \<noteq> None"
    then obtain i tm where "index_term spec = Some (i, tm)" by auto
    then show False using index_bounds(2) [of i tm] assms that by (auto simp: index_term_iff split: option.splits)
  qed
  show "index_term_range spec = None" if "sp_end spec = stop"
  proof (rule ccontr)
    assume "index_term_range spec \<noteq> None"
    then obtain i lo hi where "index_term_range spec = Some (i, lo, hi)" by auto
    then show False using index_bounds(1) [of i hi] assms that by (auto simp: index_term_range_iff)
  qed
qed

lemma strict_sorted_eq: "sorted_wrt (<) xs \<Longrightarrow> sorted_wrt (<) ys \<Longrightarrow> set xs = set ys \<Longrightarrow> xs = ys"
  for xs :: "'a::linorder list"
  by (rule strict_sorted_equal)

lemma tablet_slice:
  assumes d: "dir_valid (wk_directory w)" and t: "(rng, i) \<in> set (ordered_tablets (wk_directory w))"
    and local: "wk_tablets w i = Some local" "store_inv (lt_store local)"
    and inside: "\<And>k. in_bounds lower upper k \<Longrightarrow> ordered_range_contains rng k"
  shows "filter (in_bounds lower upper) (bt_keys (objects (lt_store local))) = filter (in_bounds lower upper) (cluster_keys w)"
proof (rule strict_sorted_eq)
  have "sorted_wrt (<) (bt_keys (objects (lt_store local)))"
    using local(2) by (simp add: store_inv_def bt_wf_def bt_keys_def)
  then show "sorted_wrt (<) (filter (in_bounds lower upper) (bt_keys (objects (lt_store local))))"
    by (rule sorted_wrt_filter)
  show "sorted_wrt (<) (filter (in_bounds lower upper) (cluster_keys w))"
    by (rule sorted_wrt_filter) (rule sorted_cluster_keys)
  have "k \<in> set (cluster_keys w) \<longleftrightarrow> k \<in> set (bt_keys (objects (lt_store local)))" if "in_bounds lower upper k" for k
  proof -
    have "ordered_range_contains rng k" using inside that .
    then have own: "k \<in> set (tablet_keys w (rng, i)) \<longleftrightarrow> k \<in> set (bt_keys (objects (lt_store local)))"
      using local(1) by (simp add: tablet_keys_def)
    have "t = (rng, i)" if "t \<in> set (ordered_tablets (wk_directory w))" "k \<in> set (tablet_keys w t)" for t
    proof -
      have "ordered_range_contains (fst t) k" using that(2) by (auto simp: tablet_keys_def split: option.splits)
      then show ?thesis using owner_unique [OF d t, of "fst t" "snd t" k] that(1) \<open>ordered_range_contains rng k\<close>
        by (simp add: prod_eq_iff)
    qed
    then show ?thesis using t own unfolding set_cluster_keys by blast
  qed
  then show "set (filter (in_bounds lower upper) (bt_keys (objects (lt_store local)))) = set (filter (in_bounds lower upper) (cluster_keys w))"
    by auto
qed

text \<open>A page over a slice of the keys: its next keys, and whether they are all of it.\<close>

definition slice_page ::
    "scan_worker \<Rightarrow> wall_timestamp \<Rightarrow> scan_options \<Rightarrow> ordered_range \<Rightarrow> key list \<Rightarrow> page_body \<Rightarrow> bool" where
  "slice_page w now options rng keys page \<longleftrightarrow>
    map en_key (pb_entries page) = take (length (pb_entries page)) keys
    \<and> (pb_exhausted page \<longleftrightarrow> map en_key (pb_entries page) = keys)
    \<and> (pb_exhausted page \<or> pb_entries page \<noteq> [])
    \<and> pb_last_key page = (if pb_entries page = [] then None else Some (en_key (last (pb_entries page))))
    \<and> pb_range_start page = or_start rng \<and> pb_range_end page = or_end rng
    \<and> list_all (entry_live w now options) (pb_entries page)"

lemma scan_ready_tablet:
  assumes "scan_ready w ns now options" "(rng, i) \<in> set (ordered_tablets (wk_directory w))"
  obtains local index where "wk_tablets w i = Some local" "store_inv (lt_store local)" "ordered (lt_store local) = Some index"
    "wk_placement w i = Some (wk_id w)"
    "\<And>k. k \<in> set (tablet_keys w (rng, i)) \<Longrightarrow> in_bounds (sx_start options) (sx_end options) k \<Longrightarrow> scan_visible (lt_store local) now k"
proof -
  have "served w (rng, i)" using assms by (auto simp: scan_ready_def list_all_iff)
  then obtain local index where local: "wk_tablets w i = Some local" "store_inv (lt_store local)" "ordered (lt_store local) = Some index"
      "wk_placement w i = Some (wk_id w)"
    by (auto simp: served_def split: option.splits)
  moreover have "scan_visible (lt_store local) now k"
    if "k \<in> set (tablet_keys w (rng, i))" "in_bounds (sx_start options) (sx_end options) k" for k
    using assms that local(1) by (fastforce simp: scan_ready_def all_visible_def list_all_iff)
  ultimately show thesis using that by blast
qed

lemma window_slice:
  assumes ready: "scan_ready w ns now options" and t: "(rng, i) \<in> set (ordered_tablets (wk_directory w))"
    and local: "wk_tablets w i = Some local" "store_inv (lt_store local)"
    and visible: "\<And>k. k \<in> set (tablet_keys w (rng, i)) \<Longrightarrow> in_bounds (sx_start options) (sx_end options) k \<Longrightarrow> scan_visible (lt_store local) now k"
    and spec: "sp_start spec = Some lower" "sp_end spec = upper" "sp_direction spec = direction"
    and inside: "\<And>k. in_bounds (Some lower) upper k \<Longrightarrow>
      ordered_range_contains rng k \<and> in_bounds (sx_start options) (sx_end options) k"
  shows "list_all (scan_visible (lt_store local) now) (window_keys (lt_store local) spec)"
    and "visible_keys (lt_store local) spec now = key_slice w direction (Some lower) upper"
proof -
  have d: "dir_valid (wk_directory w)" using ready by (auto simp: scan_ready_def)
  have contains: "spec_contains spec = in_bounds (Some lower) upper"
    by (auto simp: spec_contains_def in_bounds_def spec fun_eq_iff not_less below_end_def)
  have keys: "window_keys (lt_store local) spec = key_slice w direction (Some lower) upper"
    using tablet_slice [OF d t local, of "Some lower" upper] inside
    by (simp add: window_keys_def key_slice_def contains Let_def spec)
  show all: "list_all (scan_visible (lt_store local) now) (window_keys (lt_store local) spec)"
    using visible inside local(1)
    by (auto simp: list_all_iff window_keys_def contains Let_def tablet_keys_def split: scan_direction.splits)
  then show "visible_keys (lt_store local) spec now = key_slice w direction (Some lower) upper"
    unfolding visible_keys_def keys by (simp add: list_all_iff filter_id_conv)
qed

lemma clamped_valid:
  assumes "scan_ready w ns now options" "rq_max_items rq = sx_max_items options" "rq_max_bytes rq = sx_max_bytes options"
    and "below_end lower upper"
  obtains spec where "clamped_spec rq (Some lower) upper direction (sx_projection options) = Inr spec" "valid_spec spec"
    "sp_start spec = Some lower" "sp_end spec = upper" "sp_direction spec = direction"
    "sp_projection spec = sx_projection options" "sp_max_bytes spec = min (unat (sx_max_bytes options)) SERVER_SCAN_MAX_BYTES"
proof
  let ?spec = "\<lparr> sp_start = Some lower, sp_end = upper, sp_direction = direction,
    sp_max_items = min (unat (sx_max_items options)) SERVER_SCAN_MAX_ITEMS,
    sp_max_bytes = min (unat (sx_max_bytes options)) SERVER_SCAN_MAX_BYTES, sp_projection = sx_projection options \<rparr>"
  have nonempty: "\<not> empty_bounds (Some lower) upper"
    using assms(4) by (auto simp: empty_bounds_def below_end_def split: option.splits)
  then show valid: "valid_spec ?spec"
    using assms(1) by (auto simp: valid_spec_def scan_ready_def SERVER_SCAN_MAX_ITEMS_def SERVER_SCAN_MAX_BYTES_def usize_MAX_def unat_gt_0)
  then show "clamped_spec rq (Some lower) upper direction (sx_projection options) = Inr ?spec"
    using nonempty assms(2,3) by (simp add: clamped_spec_def scan_spec_new_def valid_spec_def)
qed simp_all

lemma serve_slice_page:
  assumes ready: "scan_ready w ns now options" and t: "(rng, i) \<in> set (ordered_tablets (wk_directory w))"
    and rq: "rq_max_items rq = sx_max_items options" "rq_max_bytes rq = sx_max_bytes options"
    and bounds: "max_bound (rq_start rq) (Some (or_start rng)) = Some lower" "min_bound (rq_end rq) (or_end rng) = upper"
      "below_end lower upper" "direction = Forward \<Longrightarrow> case upper of None \<Rightarrow> True | Some b \<Rightarrow> \<not> is_index_key b"
    and inside: "\<And>k. in_bounds (Some lower) upper k \<Longrightarrow>
      ordered_range_contains rng k \<and> in_bounds (sx_start options) (sx_end options) k"
  shows "\<exists>page. serve_slice w now i rng rq direction (sx_projection options) = (S_Ok, Page_body page)
    \<and> slice_page w now options rng (key_slice w direction (Some lower) upper) page"
proof -
  let ?keys = "key_slice w direction (Some lower) upper"
  have d: "dir_valid (wk_directory w)" using ready by (auto simp: scan_ready_def)
  obtain local index where local: "wk_tablets w i = Some local" "store_inv (lt_store local)" "ordered (lt_store local) = Some index"
      and visible: "\<And>k. k \<in> set (tablet_keys w (rng, i)) \<Longrightarrow> in_bounds (sx_start options) (sx_end options) k \<Longrightarrow> scan_visible (lt_store local) now k"
    using scan_ready_tablet [OF ready t] by metis
  obtain spec where spec: "clamped_spec rq (Some lower) upper direction (sx_projection options) = Inr spec" "valid_spec spec"
      "sp_start spec = Some lower" "sp_end spec = upper" "sp_direction spec = direction"
      "sp_projection spec = sx_projection options" "sp_max_bytes spec = min (unat (sx_max_bytes options)) SERVER_SCAN_MAX_BYTES"
    using clamped_valid [OF ready rq bounds(3)] by blast
  have window: "list_all (scan_visible (lt_store local) now) (window_keys (lt_store local) spec)"
      "visible_keys (lt_store local) spec now = ?keys"
    by (rule window_slice [OF ready t local(1,2) _ spec(3-5)]; use visible inside in blast)+
  have plain: "index_term spec = None" "index_term_range spec = None"
    using plain_window(3,4) [OF bounds(4) spec(4)] spec(5) by (cases direction; simp add: index_term_def index_term_range_def)+
  obtain p where p: "scan_range (lt_store local) spec now = Inr p"
      "map en_key (pg_entries p) = take (length (pg_entries p)) ?keys"
      "\<forall>e \<in> set (pg_entries p). \<exists>obj. store_get (lt_store local) (en_key e) now = Some obj \<and> value_shown spec (so_value obj) (en_value e)"
      "pg_last_key p = (if pg_entries p = [] then None else Some (en_key (last (pg_entries p))))"
      "pg_exhausted p \<or> pg_entries p \<noteq> []" "pg_exhausted p \<longleftrightarrow> map en_key (pg_entries p) = ?keys"
    using scan_range_visible [OF local(2,3) spec(2) plain, of now] window(1) unfolding window(2) by metis
  have "lookup_by_key (wk_directory w) (en_key e) = Some i" if "e \<in> set (pg_entries p)" for e
  proof -
    have "en_key e \<in> set ?keys" using p(2) that by (metis image_eqI image_set in_set_takeD)
    then show ?thesis
      using inside t lookup_ordered [OF d] by (auto simp: key_slice_def Let_def split: scan_direction.splits)
  qed
  then have "list_all (entry_live w now options) (pg_entries p)"
    unfolding list_all_iff entry_live_def using p(3) local(1) spec(6,7) by metis
  moreover have "\<not> empty_bounds (Some lower) upper"
    using bounds(3) by (auto simp: empty_bounds_def below_end_def split: option.splits)
  ultimately show ?thesis
    using p(1,2,4-6) spec(1) local(1) bounds(1,2) by (simp add: serve_slice_def page_response_def slice_page_def)
qed

lemma on_local_served:
  assumes "scan_ready w ns now options" "(rng, i) \<in> set (ordered_tablets (wk_directory w))"
  shows "on_local w i serve = serve rng"
proof -
  have d: "dir_valid (wk_directory w)" using assms(1) by (simp add: scan_ready_def)
  obtain local where "wk_tablets w i = Some local" "wk_placement w i = Some (wk_id w)"
    by (rule scan_ready_tablet [OF assms])
  then have "placement_redirect w i = Pl_Local" by (simp add: placement_redirect_def)
  moreover obtain t where "dir_get (wk_directory w) i = Some t" "td_range t = RangeOrdered rng"
    using assms(2) by (auto simp: ordered_tablets_get [OF d])
  ultimately show ?thesis by (simp add: on_local_def)
qed

definition cursor_for :: "namespace_id \<Rightarrow> scan_options \<Rightarrow> scan_cursor \<Rightarrow> bool" where
  "cursor_for ns options c \<longleftrightarrow> sc_namespace c = ns \<and> sc_direction c = sx_direction options
    \<and> sc_start c = sx_start options \<and> sc_end c = sx_end options"

definition low_end :: "scan_options \<Rightarrow> bytes" where
  "low_end options = (case sx_start options of None \<Rightarrow> [] | Some start \<Rightarrow> start)"

lemma in_bounds_low: "in_bounds (sx_start options) stop k \<longleftrightarrow> low_end options \<le> k \<and> below_end k stop"
  by (auto simp: in_bounds_def low_end_def split: option.splits)

lemma in_bounds_Some [simp]: "in_bounds (Some lower) stop k \<longleftrightarrow> lower \<le> k \<and> below_end k stop"
  by (simp add: in_bounds_def)

lemma below_min_bound: "below_end k (min_bound a b) \<longleftrightarrow> below_end k a \<and> below_end k b"
  by (auto simp: min_bound_def below_end_def split: option.splits)

lemma scan_ready_plain:
  assumes "scan_ready w ns now options" "(rng, i) \<in> set (ordered_tablets (wk_directory w))"
  shows "case min_bound (sx_end options) (or_end rng) of None \<Rightarrow> True | Some b \<Rightarrow> \<not> is_index_key b"
    and "case or_end rng of None \<Rightarrow> True | Some b \<Rightarrow> \<not> is_index_key b"
    and "case sx_end options of None \<Rightarrow> True | Some b \<Rightarrow> \<not> is_index_key b"
  using assms by (fastforce simp: scan_ready_def list_all_iff min_bound_def min_def split: option.splits)+

section \<open>Forward scans\<close>

definition fwd_pos :: "scan_cursor \<Rightarrow> bytes" where
  "fwd_pos c = (case sc_resume c of
     Some r \<Rightarrow> r | None \<Rightarrow> (case sc_start c of None \<Rightarrow> [] | Some start \<Rightarrow> start))"

definition fwd_ok :: "namespace_id \<Rightarrow> scan_options \<Rightarrow> scan_cursor \<Rightarrow> bool" where
  "fwd_ok ns options c \<longleftrightarrow> cursor_for ns options c
    \<and> (sc_done c \<or> low_end options \<le> fwd_pos c \<and> below_end (fwd_pos c) (sx_end options))"

definition fwd_remaining :: "scan_worker \<Rightarrow> scan_cursor \<Rightarrow> key list" where
  "fwd_remaining w c = (if sc_done c then [] else filter (in_bounds (Some (fwd_pos c)) (sc_end c)) (cluster_keys w))"

definition fwd_weight :: "scan_worker \<Rightarrow> scan_cursor \<Rightarrow> nat" where
  "fwd_weight w c =
    (if sc_done c then 0
     else Suc (length (fwd_remaining w c)
       + length (filter (\<lambda>(rng, _). below_end (fwd_pos c) (or_end rng)) (ordered_tablets (wk_directory w)))))"

lemma forward_page:
  assumes ready: "scan_ready w ns now options" "sx_direction options = Forward"
    and c: "fwd_ok ns options c" "\<not> sc_done c"
  shows "\<exists>rng i page. (rng, i) \<in> set (ordered_tablets (wk_directory w)) \<and> ordered_range_contains rng (fwd_pos c)
    \<and> scan_cursor_page (handle_scan w now) options c = Inr page
    \<and> slice_page w now options rng
        (filter (in_bounds (Some (fwd_pos c)) (min_bound (sx_end options) (or_end rng))) (cluster_keys w)) page"
proof -
  let ?d = "wk_directory w" and ?pos = "fwd_pos c"
  have d: "dir_valid ?d" "ds_namespace ?d = ns" "lookup_by_key ?d ?pos \<noteq> None" using ready(1) by (auto simp: scan_ready_def)
  have c': "cursor_for ns options c" "low_end options \<le> ?pos" "below_end ?pos (sx_end options)"
    using c by (auto simp: fwd_ok_def)
  obtain rng i where t: "(rng, i) \<in> set (ordered_tablets ?d)" "ordered_range_contains rng ?pos" "lookup_by_key ?d ?pos = Some i"
    using d(3) lookup_ordered [OF d(1), of ?pos] by blast
  let ?upper = "min_bound (sx_end options) (or_end rng)"
  define start where "start = (case sc_resume c of None \<Rightarrow> sc_start c | resume \<Rightarrow> resume)"
  define rq where "rq = \<lparr> rq_namespace = ns, rq_key = [], rq_hint = None, rq_start = start, rq_end = sx_end options,
    rq_direction = SCAN_FORWARD, rq_max_items = sx_max_items options, rq_max_bytes = sx_max_bytes options,
    rq_projection = (case sx_projection options of KeysOnly \<Rightarrow> SCAN_KEYS_ONLY | KeysAndValues \<Rightarrow> SCAN_KEYS_AND_VALUES),
    rq_consistency = sx_consistency options \<rparr>"
  have pos: "?pos = (case start of None \<Rightarrow> [] | Some b \<Rightarrow> b)"
    using c'(1) by (auto simp: fwd_pos_def start_def cursor_for_def split: option.splits)
  have lower: "max_bound start (Some (or_start rng)) = Some ?pos"
    using t(2) by (auto simp: pos max_bound_def ordered_range_contains_iff max_def split: option.splits)
  have "\<not> empty_bounds start (sx_end options)"
    using c'(3) pos by (auto simp: empty_bounds_def below_end_def split: option.splits)
  then have "handle_scan w now rq = serve_slice w now i rng rq Forward (sx_projection options)"
    using ready(1) d t pos plain_window(1,2) [OF scan_ready_plain(3) [OF ready(1) t(1)]] on_local_served [OF ready(1) t(1)]
    by (auto simp: handle_scan_def rq_def scan_ready_def SCAN_FORWARD_def SCAN_REVERSE_def scan_projection_of_def
        SCAN_KEYS_ONLY_def SCAN_KEYS_AND_VALUES_def route_cursor_def Let_def split: scan_projection.split)
  moreover have inside: "ordered_range_contains rng k \<and> in_bounds (sx_start options) (sx_end options) k"
    if "in_bounds (Some ?pos) ?upper k" for k
    using that c'(2) t(2) unfolding in_bounds_low in_bounds_Some below_min_bound ordered_range_contains_iff
    by (auto intro: order_trans)
  moreover have "\<exists>page. serve_slice w now i rng rq Forward (sx_projection options) = (S_Ok, Page_body page)
      \<and> slice_page w now options rng (key_slice w Forward (Some ?pos) ?upper) page"
    by (rule serve_slice_page [OF ready(1) t(1) _ _ _ _ _ scan_ready_plain(1) [OF ready(1) t(1)] inside])
      (use lower c'(3) t(2) in \<open>simp_all add: rq_def below_min_bound ordered_range_contains_iff\<close>)
  moreover have "scan_cursor_page (handle_scan w now) options c = (case handle_scan w now rq of
      (S_Ok, Page_body page) \<Rightarrow> Inr page | (status, _) \<Rightarrow> Inl (status_error status))"
    using c'(1) ready(2) by (simp add: scan_cursor_page_def client_scan_page_def rq_def start_def cursor_for_def)
  ultimately show ?thesis using t(1,2) by (auto simp: key_slice_def)
qed

lemma length_filter_mono:
  "(\<And>x. x \<in> set xs \<Longrightarrow> P x \<Longrightarrow> Q x) \<Longrightarrow> length (filter P xs) \<le> length (filter Q xs)"
  by (induction xs) auto

lemma length_filter_less:
  assumes "x \<in> set xs" "Q x" "\<not> P x" "\<And>x. x \<in> set xs \<Longrightarrow> P x \<Longrightarrow> Q x"
  shows "length (filter P xs) < length (filter Q xs)"
proof -
  have "length (filter P xs) = length (filter P (filter Q xs))" using assms(4) by (auto intro!: arg_cong [of _ _ length] filter_cong)
  also have "\<dots> < length (filter Q xs)" using assms(1-3) by (intro length_filter_less [of x]) auto
  finally show ?thesis .
qed

text \<open>What a page that stops early has shown, and that more remains behind its last key.\<close>

lemma page_stops:
  assumes page: "slice_page w now options rng S page" "\<not> pb_exhausted page"
    and sorted: "sorted_wrt R S" "\<And>x y. R x y \<Longrightarrow> \<not> R y x"
  obtains l k where "pb_last_key page = Some l" "l \<in> set S" "k \<in> set S" "R l k" "pb_entries page \<noteq> []"
    "map en_key (pb_entries page) = filter (\<lambda>k. \<not> R l k) S"
proof -
  let ?n = "length (pb_entries page)" and ?l = "en_key (last (pb_entries page))"
  have keys: "map en_key (pb_entries page) = take ?n S" "map en_key (pb_entries page) \<noteq> S" "pb_entries page \<noteq> []"
    using page by (auto simp: slice_page_def)
  then have n: "0 < ?n" "?n < length S" by (auto simp: not_less intro: ccontr)
  have last: "?l = last (take ?n S)" using keys(1,3) by (metis last_map)
  have "take ?n S \<noteq> []" using n by auto
  then have "?l \<in> set (take ?n S)" unfolding last by (rule last_in_set)
  moreover have "S ! ?n \<in> set (drop ?n S)" using n(2) by (metis Cons_nth_drop_Suc list.set_intros(1))
  moreover have "sorted_wrt R (take ?n S @ drop ?n S)" using sorted(1) by simp
  ultimately have "R ?l (S ! ?n)" unfolding sorted_wrt_append by blast
  moreover have "map en_key (pb_entries page) = filter (\<lambda>k. \<not> R ?l k) S"
    using take_sorted_filter [OF sorted n(1)] n(2) keys(1) unfolding last by simp
  moreover have "pb_last_key page = Some ?l" using page(1) keys(3) by (simp add: slice_page_def)
  ultimately show thesis
    using that [of ?l "S ! ?n"] keys(3) n(2) \<open>?l \<in> set (take ?n S)\<close> by (auto dest: in_set_takeD)
qed

lemma forward_stops:
  assumes c: "fwd_ok ns options c" "\<not> sc_done c" "sx_direction options = Forward"
    and page: "slice_page w now options rng (filter (in_bounds (Some (fwd_pos c)) (min_bound (sx_end options) stop)) (cluster_keys w)) page"
      "\<not> pb_exhausted page"
  shows "\<exists>c'. advance_cursor c page (pb_entries page = []) = Inr c' \<and> fwd_ok ns options c' \<and> fwd_weight w c' < fwd_weight w c
    \<and> fwd_remaining w c = map en_key (pb_entries page) @ fwd_remaining w c'"
proof -
  let ?pos = "fwd_pos c" and ?K = "cluster_keys w" and ?U = "min_bound (sx_end options) stop"
  obtain l k where stops: "pb_last_key page = Some l" "l \<in> set (filter (in_bounds (Some ?pos) ?U) ?K)"
      "k \<in> set (filter (in_bounds (Some ?pos) ?U) ?K)" "l < k" "pb_entries page \<noteq> []"
      "map en_key (pb_entries page) = filter (\<lambda>k. \<not> l < k) (filter (in_bounds (Some ?pos) ?U) ?K)"
    using page_stops [OF page sorted_wrt_filter [OF sorted_cluster_keys] less_not_sym] .
  let ?c = "c\<lparr>sc_resume := Some (key_successor l)\<rparr>"
  have c': "sc_direction c = Forward" "sc_end c = sx_end options" "low_end options \<le> ?pos"
    using c by (auto simp: fwd_ok_def cursor_for_def)
  have pos': "fwd_pos ?c = key_successor l" by (simp add: fwd_pos_def)
  have l: "?pos \<le> l" "below_end l ?U" using stops(2) by auto
  have above: "?pos \<le> key_successor l" using l(1) key_successor_le [of l "key_successor l"] by auto
  have "below_end k (sx_end options)" using stops(3) by (auto simp: below_min_bound)
  then have below: "below_end (key_successor l) (sx_end options)"
    using stops(4) below_end_trans key_successor_le by blast
  have "filter (in_bounds (Some ?pos) (sx_end options)) ?K
      = filter (\<lambda>k. in_bounds (Some ?pos) (sx_end options) k \<and> k \<le> l) ?K @ filter (in_bounds (Some (key_successor l)) (sx_end options)) ?K"
    using l(1) by (intro filter_split_sorted [OF sorted_cluster_keys]) (auto simp: key_successor_le)
  moreover have "filter (\<lambda>k. in_bounds (Some ?pos) (sx_end options) k \<and> k \<le> l) ?K = map en_key (pb_entries page)"
    unfolding stops(6) filter_filter
    using l(2) by (intro filter_cong) (auto simp: below_min_bound not_less intro: below_end_trans)
  ultimately have rest: "fwd_remaining w c = map en_key (pb_entries page) @ fwd_remaining w ?c"
    using c(2) c'(2) pos' by (simp add: fwd_remaining_def)
  have "length (filter (\<lambda>(rng, _). below_end (key_successor l) (or_end rng)) (ordered_tablets (wk_directory w)))
      \<le> length (filter (\<lambda>(rng, _). below_end ?pos (or_end rng)) (ordered_tablets (wk_directory w)))"
    by (rule length_filter_mono) (use above below_end_trans in \<open>auto split: prod.splits\<close>)
  moreover obtain e es where "pb_entries page = e # es" using stops(5) by (cases "pb_entries page") auto
  ultimately have "fwd_weight w ?c < fwd_weight w c"
    using rest c(2) pos' by (simp add: fwd_weight_def)
  moreover have "fwd_ok ns options ?c"
    using c(1) c'(3) above below pos' by (auto simp: fwd_ok_def cursor_for_def)
  ultimately show ?thesis
    using rest stops(1,5) page(2) c'(1) by (intro exI [of _ ?c]) (simp add: advance_cursor_def)
qed

lemma forward_exhausts:
  assumes d: "(rng, i) \<in> set (ordered_tablets (wk_directory w))" "ordered_range_contains rng (fwd_pos c)"
    and c: "fwd_ok ns options c" "\<not> sc_done c" "sx_direction options = Forward"
    and page: "slice_page w now options rng
        (filter (in_bounds (Some (fwd_pos c)) (min_bound (sx_end options) (or_end rng))) (cluster_keys w)) page"
      "pb_exhausted page"
  shows "\<exists>c'. advance_cursor c page (pb_entries page = []) = Inr c' \<and> fwd_ok ns options c' \<and> fwd_weight w c' < fwd_weight w c
    \<and> fwd_remaining w c = map en_key (pb_entries page) @ fwd_remaining w c'"
proof -
  let ?pos = "fwd_pos c" and ?K = "cluster_keys w" and ?U = "min_bound (sx_end options) (or_end rng)"
  have keys: "map en_key (pb_entries page) = filter (in_bounds (Some ?pos) ?U) ?K" and stop: "pb_range_end page = or_end rng"
    using page unfolding slice_page_def by blast+
  have c': "sc_direction c = Forward" "sc_end c = sx_end options" "low_end options \<le> ?pos" using c by (auto simp: fwd_ok_def cursor_for_def)
  show ?thesis
  proof (cases "\<exists>b. or_end rng = Some b \<and> below_end b (sx_end options)")
    case True
    then obtain b where b: "or_end rng = Some b" "below_end b (sx_end options)" by blast
    let ?c = "c\<lparr>sc_resume := Some b\<rparr>"
    have pos: "fwd_pos ?c = b" "?pos < b" using d(2) b(1) by (simp_all add: fwd_pos_def ordered_range_contains_iff below_end_def)
    have "filter (in_bounds (Some ?pos) (sx_end options)) ?K
        = filter (in_bounds (Some ?pos) ?U) ?K @ filter (in_bounds (Some b) (sx_end options)) ?K"
      by (intro filter_split_sorted [OF sorted_cluster_keys])
        (use b pos(2) below_end_trans in \<open>auto simp: below_min_bound below_end_def [of _ "Some _"] not_less intro: order_trans less_imp_le\<close>)
    then have rest: "fwd_remaining w c = map en_key (pb_entries page) @ fwd_remaining w ?c"
      using c(2) c'(2) pos(1) keys by (simp add: fwd_remaining_def)
    have "length (filter (\<lambda>(rng, _). below_end b (or_end rng)) (ordered_tablets (wk_directory w)))
        < length (filter (\<lambda>(rng, _). below_end ?pos (or_end rng)) (ordered_tablets (wk_directory w)))"
      by (rule length_filter_less [OF d(1)])
        (use b(1) pos(2) below_end_trans [OF less_imp_le [OF pos(2)]] in \<open>auto simp: below_end_def [of _ "Some _"]\<close>)
    then have "fwd_weight w ?c < fwd_weight w c" using rest c(2) pos(1) by (simp add: fwd_weight_def)
    moreover have "fwd_ok ns options ?c" using c(1) c'(3) pos b(2) by (auto simp: fwd_ok_def cursor_for_def)
    moreover have "advance_cursor c page (pb_entries page = []) = Inr ?c"
      using page(2) stop b c'(1,2) by (auto simp: advance_cursor_def below_end_def split: option.splits)
    ultimately show ?thesis using rest by blast
  next
    case False
    let ?c = "c\<lparr>sc_done := True\<rparr>"
    have "below_end k (sx_end options) \<Longrightarrow> below_end k (or_end rng)" for k
      using False by (auto simp: below_end_def split: option.splits)
    then have "filter (in_bounds (Some ?pos) ?U) ?K = filter (in_bounds (Some ?pos) (sx_end options)) ?K"
      by (intro filter_cong) (auto simp: below_min_bound)
    then have "fwd_remaining w c = map en_key (pb_entries page) @ fwd_remaining w ?c"
      using c(2) c'(2) keys by (simp add: fwd_remaining_def)
    moreover have "advance_cursor c page (pb_entries page = []) = Inr ?c"
      using page(2) stop False c'(1,2) by (auto simp: advance_cursor_def below_end_def split: option.splits)
    moreover have "fwd_ok ns options ?c" using c(1) by (simp add: fwd_ok_def cursor_for_def)
    moreover have "fwd_weight w ?c < fwd_weight w c" using c(2) by (simp add: fwd_weight_def)
    ultimately show ?thesis by blast
  qed
qed

lemma forward_step:
  assumes "scan_ready w ns now options" "sx_direction options = Forward" "fwd_ok ns options c" "\<not> sc_done c"
  shows "\<exists>page c'. scan_cursor_page (handle_scan w now) options c = Inr page
    \<and> advance_cursor c page (pb_entries page = []) = Inr c' \<and> fwd_ok ns options c' \<and> fwd_weight w c' < fwd_weight w c
    \<and> fwd_remaining w c = map en_key (pb_entries page) @ fwd_remaining w c'
    \<and> list_all (entry_live w now options) (pb_entries page)"
proof -
  obtain rng i page where page: "(rng, i) \<in> set (ordered_tablets (wk_directory w))" "ordered_range_contains rng (fwd_pos c)"
      "scan_cursor_page (handle_scan w now) options c = Inr page"
      "slice_page w now options rng (filter (in_bounds (Some (fwd_pos c)) (min_bound (sx_end options) (or_end rng))) (cluster_keys w)) page"
    using forward_page [OF assms] by blast
  then have "list_all (entry_live w now options) (pb_entries page)" by (simp add: slice_page_def)
  with page forward_stops [OF assms(3,4,2) page(4)] forward_exhausts [OF page(1,2) assms(3,4,2) page(4)] show ?thesis by blast
qed

section \<open>Reverse scans\<close>

definition rev_pos :: "scan_cursor \<Rightarrow> bytes option" where
  "rev_pos c = (case sc_resume c of Some r \<Rightarrow> Some r | None \<Rightarrow> sc_end c)"

definition rev_ok :: "namespace_id \<Rightarrow> scan_options \<Rightarrow> scan_cursor \<Rightarrow> bool" where
  "rev_ok ns options c \<longleftrightarrow> cursor_for ns options c
    \<and> (sc_done c \<or> below_end (low_end options) (rev_pos c)
        \<and> (\<forall>k. below_end k (rev_pos c) \<longrightarrow> below_end k (sx_end options)))"

definition rev_remaining :: "scan_worker \<Rightarrow> scan_options \<Rightarrow> scan_cursor \<Rightarrow> key list" where
  "rev_remaining w options c =
    (if sc_done c then [] else rev (filter (in_bounds (Some (low_end options)) (rev_pos c)) (cluster_keys w)))"

definition rev_weight :: "scan_worker \<Rightarrow> scan_options \<Rightarrow> scan_cursor \<Rightarrow> nat" where
  "rev_weight w options c =
    (if sc_done c then 0
     else Suc (length (rev_remaining w options c)
       + length (filter (\<lambda>(rng, _). below_end (or_start rng) (rev_pos c)) (ordered_tablets (wk_directory w)))))"

lemma reverse_route:
  assumes ready: "scan_ready w ns now options" and pos: "below_end (low_end options) pos"
    and rq: "rq_namespace rq = ns" "rq_start rq = sx_start options" "rq_end rq = pos" "rq_direction rq = SCAN_REVERSE"
      "rq_max_items rq = sx_max_items options" "rq_max_bytes rq = sx_max_bytes options" "rq_consistency rq = sx_consistency options"
      "rq_projection rq = (case sx_projection options of KeysOnly \<Rightarrow> SCAN_KEYS_ONLY | KeysAndValues \<Rightarrow> SCAN_KEYS_AND_VALUES)"
  shows "\<exists>rng i. (rng, i) \<in> set (ordered_tablets (wk_directory w))
    \<and> below_end (or_start rng) pos \<and> (\<forall>k. below_end k pos \<longrightarrow> below_end k (or_end rng))
    \<and> handle_scan w now rq = serve_slice w now i rng rq Reverse (sx_projection options)"
proof -
  let ?d = "wk_directory w"
  have d: "dir_valid ?d" "\<And>k. lookup_by_key ?d k \<noteq> None" "\<not> hash_tablet ?d" using ready by (auto simp: scan_ready_def)
  have "\<not> empty_bounds (sx_start options) pos"
    using pos by (auto simp: empty_bounds_def below_end_def low_end_def split: option.splits)
  moreover have "\<not> is_term_window a b SCAN_REVERSE" "\<not> is_term_range_window a b SCAN_REVERSE" for a b
    by (simp_all add: is_term_window_def is_term_range_window_def SCAN_REVERSE_def)
  moreover have "scan_projection_of (rq_projection rq) = Some (sx_projection options)"
    using rq(8) by (cases "sx_projection options") (simp_all add: scan_projection_of_def SCAN_KEYS_ONLY_def SCAN_KEYS_AND_VALUES_def)
  ultimately have routed: "handle_scan w now rq =
      (case pos of
         None \<Rightarrow> scan_last_tablet w now rq
       | Some p \<Rightarrow> (case route_cursor ?d p Reverse of
           None \<Rightarrow> scan_gap ?d p
         | Some tablet \<Rightarrow> on_local w tablet (\<lambda>rng. serve_slice w now tablet rng rq Reverse (sx_projection options))))"
    using ready rq by (auto simp: handle_scan_def scan_ready_def SCAN_FORWARD_def SCAN_REVERSE_def Let_def split: option.split)
  show ?thesis
  proof (cases pos)
    case None
    obtain rng i where t: "max_start (ordered_tablets ?d) = Some (rng, i)" "(rng, i) \<in> set (ordered_tablets ?d)" "or_end rng = None"
      using last_tablet [OF d(1,2)] by blast
    have "scan_tablet_slice w now i rng rq = serve_slice w now i rng rq Reverse (sx_projection options)"
      using rq(4,8) by (cases "sx_projection options")
        (simp_all add: scan_tablet_slice_def SCAN_FORWARD_def SCAN_REVERSE_def SCAN_KEYS_ONLY_def SCAN_KEYS_AND_VALUES_def)
    then show ?thesis
      using routed None t d(3) on_local_served [OF ready t(2)]
      by (intro exI [of _ rng] exI [of _ i]) (simp add: scan_last_tablet_def handle_scan_window_def below_end_def)
  next
    case (Some p)
    then have "low_end options < p" using pos by (simp add: below_end_def)
    then obtain rng i where t: "route_cursor ?d p Reverse = Some i" "(rng, i) \<in> set (ordered_tablets ?d)" "or_start rng < p"
        "case or_end rng of None \<Rightarrow> True | Some stop \<Rightarrow> p \<le> stop"
      using route_reverse [OF d(1,2)] by blast
    then show ?thesis
      using routed Some on_local_served [OF ready t(2)]
      by (intro exI [of _ rng] exI [of _ i]) (auto simp: below_end_def split: option.splits)
  qed
qed

lemma reverse_page:
  assumes ready: "scan_ready w ns now options" "sx_direction options = Reverse"
    and c: "rev_ok ns options c" "\<not> sc_done c"
  shows "\<exists>rng i page. (rng, i) \<in> set (ordered_tablets (wk_directory w)) \<and> below_end (or_start rng) (rev_pos c)
    \<and> scan_cursor_page (handle_scan w now) options c = Inr page
    \<and> slice_page w now options rng
        (rev (filter (in_bounds (Some (max (low_end options) (or_start rng))) (rev_pos c)) (cluster_keys w))) page"
proof -
  let ?pos = "rev_pos c"
  have c': "cursor_for ns options c" "below_end (low_end options) ?pos" "\<And>k. below_end k ?pos \<Longrightarrow> below_end k (sx_end options)"
    using c by (auto simp: rev_ok_def)
  define rq where "rq = \<lparr> rq_namespace = ns, rq_key = [], rq_hint = None, rq_start = sc_start c,
    rq_end = (case sc_resume c of None \<Rightarrow> sc_end c | resume \<Rightarrow> resume), rq_direction = SCAN_REVERSE,
    rq_max_items = sx_max_items options, rq_max_bytes = sx_max_bytes options,
    rq_projection = (case sx_projection options of KeysOnly \<Rightarrow> SCAN_KEYS_ONLY | KeysAndValues \<Rightarrow> SCAN_KEYS_AND_VALUES),
    rq_consistency = sx_consistency options \<rparr>"
  have rq: "rq_start rq = sx_start options" "rq_end rq = ?pos"
    using c'(1) by (auto simp: rq_def rev_pos_def cursor_for_def split: option.split)
  obtain rng i where t: "(rng, i) \<in> set (ordered_tablets (wk_directory w))" "below_end (or_start rng) ?pos"
      "\<And>k. below_end k ?pos \<Longrightarrow> below_end k (or_end rng)"
      "handle_scan w now rq = serve_slice w now i rng rq Reverse (sx_projection options)"
    using reverse_route [OF ready(1) c'(2), of rq] rq by (auto simp: rq_def)
  let ?low = "max (low_end options) (or_start rng)"
  have lower: "max_bound (rq_start rq) (Some (or_start rng)) = Some ?low"
    unfolding rq by (auto simp: max_bound_def low_end_def max_def split: option.split)
  have upper: "min_bound (rq_end rq) (or_end rng) = ?pos"
    using t(3) unfolding rq by (cases ?pos; cases "or_end rng") (auto simp: min_bound_def below_end_def min_def not_le [symmetric])
  have inside: "ordered_range_contains rng k \<and> in_bounds (sx_start options) (sx_end options) k"
    if "in_bounds (Some ?low) ?pos k" for k
    using that t(3) c'(3) unfolding in_bounds_low in_bounds_Some ordered_range_contains_iff by simp
  have "\<exists>page. serve_slice w now i rng rq Reverse (sx_projection options) = (S_Ok, Page_body page)
      \<and> slice_page w now options rng (key_slice w Reverse (Some ?low) ?pos) page"
    by (rule serve_slice_page [OF ready(1) t(1) _ _ lower upper _ _ inside])
      (use c'(2) t(2) in \<open>simp_all add: rq_def max_def\<close>)
  moreover have "scan_cursor_page (handle_scan w now) options c = (case handle_scan w now rq of
      (S_Ok, Page_body page) \<Rightarrow> Inr page | (status, _) \<Rightarrow> Inl (status_error status))"
    using c'(1) ready(2) by (simp add: scan_cursor_page_def client_scan_page_def rq_def cursor_for_def)
  ultimately show ?thesis using t(1,2,4) by (auto simp: key_slice_def)
qed

lemma reverse_stops:
  assumes c: "rev_ok ns options c" "\<not> sc_done c" "sx_direction options = Reverse"
    and page: "slice_page w now options rng (rev (filter (in_bounds (Some (max (low_end options) s)) (rev_pos c)) (cluster_keys w))) page"
      "\<not> pb_exhausted page"
  shows "\<exists>c'. advance_cursor c page (pb_entries page = []) = Inr c' \<and> rev_ok ns options c'
    \<and> rev_weight w options c' < rev_weight w options c
    \<and> rev_remaining w options c = map en_key (pb_entries page) @ rev_remaining w options c'"
proof -
  let ?pos = "rev_pos c" and ?K = "cluster_keys w" and ?low = "low_end options"
  let ?S = "filter (in_bounds (Some (max ?low s)) ?pos) ?K"
  have "sorted_wrt (>) (rev ?S)" using sorted_wrt_filter [OF sorted_cluster_keys] by (simp add: sorted_wrt_rev)
  then obtain l k where stops: "pb_last_key page = Some l" "l \<in> set (rev ?S)" "k \<in> set (rev ?S)" "k < l" "pb_entries page \<noteq> []"
      "map en_key (pb_entries page) = filter (\<lambda>k. \<not> k < l) (rev ?S)"
    using page_stops [OF page, of "(>)"] less_not_sym by metis
  let ?c = "c\<lparr>sc_resume := Some l\<rparr>"
  have c': "sc_direction c = Reverse" "\<And>k. below_end k ?pos \<Longrightarrow> below_end k (sx_end options)"
    using c by (auto simp: rev_ok_def cursor_for_def)
  have pos': "rev_pos ?c = Some l" by (simp add: rev_pos_def)
  have l: "?low \<le> l" "s \<le> l" "below_end l ?pos" using stops(2) by auto
  have below: "below_end j ?pos" if "j \<le> l" for j using that l(3) below_end_trans by blast
  have "filter (in_bounds (Some ?low) ?pos) ?K
      = filter (in_bounds (Some ?low) (Some l)) ?K @ filter (\<lambda>k. in_bounds (Some ?low) ?pos k \<and> \<not> k < l) ?K"
    by (rule filter_split_sorted [OF sorted_cluster_keys])
      (use l(1) below in \<open>auto simp: below_end_def [of _ "Some _"] intro: less_imp_le\<close>)
  moreover have "filter (\<lambda>k. in_bounds (Some ?low) ?pos k \<and> \<not> k < l) ?K = rev (map en_key (pb_entries page))"
    unfolding stops(6) rev_filter rev_rev_ident filter_filter
    using l(1,2) by (intro filter_cong) (auto simp: not_less)
  ultimately have rest: "rev_remaining w options c = map en_key (pb_entries page) @ rev_remaining w options ?c"
    using c(2) pos' by (simp add: rev_remaining_def)
  have "length (filter (\<lambda>(rng, _). below_end (or_start rng) (Some l)) (ordered_tablets (wk_directory w)))
      \<le> length (filter (\<lambda>(rng, _). below_end (or_start rng) ?pos) (ordered_tablets (wk_directory w)))"
    by (rule length_filter_mono) (use below in \<open>auto simp: below_end_def [of _ "Some _"] intro: less_imp_le\<close>)
  moreover obtain e es where "pb_entries page = e # es" using stops(5) by (cases "pb_entries page") auto
  ultimately have "rev_weight w options ?c < rev_weight w options c"
    using rest c(2) pos' by (simp add: rev_weight_def)
  moreover have "?low < l" using stops(3,4) by auto
  then have "rev_ok ns options ?c"
    using c(1) c'(2) below pos' by (auto simp: rev_ok_def cursor_for_def below_end_def [of _ "Some _"] intro: less_imp_le)
  ultimately show ?thesis
    using rest stops(1,5) page(2) c'(1) by (intro exI [of _ ?c]) (simp add: advance_cursor_def)
qed

lemma reverse_exhausts:
  assumes d: "(rng, i) \<in> set (ordered_tablets (wk_directory w))" "below_end (or_start rng) (rev_pos c)"
    and c: "rev_ok ns options c" "\<not> sc_done c" "sx_direction options = Reverse"
    and page: "slice_page w now options rng
        (rev (filter (in_bounds (Some (max (low_end options) (or_start rng))) (rev_pos c)) (cluster_keys w))) page"
      "pb_exhausted page"
  shows "\<exists>c'. advance_cursor c page (pb_entries page = []) = Inr c' \<and> rev_ok ns options c'
    \<and> rev_weight w options c' < rev_weight w options c
    \<and> rev_remaining w options c = map en_key (pb_entries page) @ rev_remaining w options c'"
proof -
  let ?pos = "rev_pos c" and ?K = "cluster_keys w" and ?low = "low_end options" and ?s = "or_start rng"
  have keys: "map en_key (pb_entries page) = rev (filter (in_bounds (Some (max ?low ?s)) ?pos) ?K)"
    and start: "pb_range_start page = ?s"
    using page unfolding slice_page_def by blast+
  have c': "sc_direction c = Reverse" "sc_start c = sx_start options" "\<And>k. below_end k ?pos \<Longrightarrow> below_end k (sx_end options)"
    using c by (auto simp: rev_ok_def cursor_for_def)
  have advance: "advance_cursor c page (pb_entries page = []) =
      Inr (if ?low < ?s then c\<lparr>sc_resume := Some ?s\<rparr> else c\<lparr>sc_done := True\<rparr>)"
    using page(2) start c'(1,2) by (simp add: advance_cursor_def low_end_def)
  show ?thesis
  proof (cases "?low < ?s")
    case True
    let ?c = "c\<lparr>sc_resume := Some ?s\<rparr>"
    have pos': "rev_pos ?c = Some ?s" by (simp add: rev_pos_def)
    have below: "below_end j ?pos" if "j \<le> ?s" for j using that d(2) below_end_trans by blast
    have max: "max ?low ?s = ?s" using True by simp
    have "filter (in_bounds (Some ?low) ?pos) ?K
        = filter (in_bounds (Some ?low) (Some ?s)) ?K @ filter (in_bounds (Some (max ?low ?s)) ?pos) ?K"
      unfolding max by (rule filter_split_sorted [OF sorted_cluster_keys])
        (use True below in \<open>auto simp: below_end_def [of _ "Some _"] not_less intro: less_imp_le\<close>)
    then have rest: "rev_remaining w options c = map en_key (pb_entries page) @ rev_remaining w options ?c"
      using c(2) pos' keys by (simp add: rev_remaining_def)
    have "length (filter (\<lambda>(rng, _). below_end (or_start rng) (Some ?s)) (ordered_tablets (wk_directory w)))
        < length (filter (\<lambda>(rng, _). below_end (or_start rng) ?pos) (ordered_tablets (wk_directory w)))"
      by (rule length_filter_less [OF d(1)])
        (use d(2) below in \<open>auto simp: below_end_def [of _ "Some _"] intro: less_imp_le\<close>)
    then have "rev_weight w options ?c < rev_weight w options c" using rest c(2) pos' by (simp add: rev_weight_def)
    moreover have "rev_ok ns options ?c"
      using c(1) c'(3) True below pos' by (auto simp: rev_ok_def cursor_for_def below_end_def [of _ "Some _"] intro: less_imp_le)
    ultimately show ?thesis using rest advance True by auto
  next
    case False
    let ?c = "c\<lparr>sc_done := True\<rparr>"
    have "rev_remaining w options c = map en_key (pb_entries page) @ rev_remaining w options ?c"
      using c(2) keys False by (simp add: rev_remaining_def max_def not_less)
    moreover have "rev_ok ns options ?c" using c(1) by (simp add: rev_ok_def cursor_for_def)
    moreover have "rev_weight w options ?c < rev_weight w options c" using c(2) by (simp add: rev_weight_def)
    ultimately show ?thesis using advance False by auto
  qed
qed

lemma reverse_step:
  assumes "scan_ready w ns now options" "sx_direction options = Reverse" "rev_ok ns options c" "\<not> sc_done c"
  shows "\<exists>page c'. scan_cursor_page (handle_scan w now) options c = Inr page
    \<and> advance_cursor c page (pb_entries page = []) = Inr c' \<and> rev_ok ns options c'
    \<and> rev_weight w options c' < rev_weight w options c
    \<and> rev_remaining w options c = map en_key (pb_entries page) @ rev_remaining w options c'
    \<and> list_all (entry_live w now options) (pb_entries page)"
proof -
  obtain rng i page where page: "(rng, i) \<in> set (ordered_tablets (wk_directory w))" "below_end (or_start rng) (rev_pos c)"
      "scan_cursor_page (handle_scan w now) options c = Inr page"
      "slice_page w now options rng
        (rev (filter (in_bounds (Some (max (low_end options) (or_start rng))) (rev_pos c)) (cluster_keys w))) page"
    using reverse_page [OF assms] by blast
  then have "list_all (entry_live w now options) (pb_entries page)" by (simp add: slice_page_def)
  with page reverse_stops [OF assms(3,4,2) page(4)] reverse_exhausts [OF page(1,2) assms(3,4,2) page(4)] show ?thesis by blast
qed

section \<open>The client reads every key once\<close>

interpretation forward_scan: paged_scan "handle_scan w now" options
    "\<lambda>c. scan_ready w ns now options \<and> sx_direction options = Forward \<and> fwd_ok ns options c"
    "fwd_remaining w" "fwd_weight w" "entry_live w now options" for w now options ns
  using forward_step by unfold_locales (blast, simp add: fwd_remaining_def)

interpretation reverse_scan: paged_scan "handle_scan w now" options
    "\<lambda>c. scan_ready w ns now options \<and> sx_direction options = Reverse \<and> rev_ok ns options c"
    "rev_remaining w options" "rev_weight w options" "entry_live w now options" for w now options ns
  using reverse_step by unfold_locales (blast, simp add: rev_remaining_def)

lemma in_bounds_start: "in_bounds (Some (low_end options)) stop = in_bounds (sx_start options) stop"
  by (simp add: fun_eq_iff in_bounds_low)

lemma weight_bound:
  "fwd_weight w c \<le> Suc (length (cluster_keys w) + length (ordered_tablets (wk_directory w)))"
  "rev_weight w options c \<le> Suc (length (cluster_keys w) + length (ordered_tablets (wk_directory w)))"
  by (simp_all add: fwd_weight_def fwd_remaining_def rev_weight_def rev_remaining_def add_mono)

lemma start_bounds:
  assumes "scan_ready w ns now options"
  shows "below_end (low_end options) (sx_end options)"
  using assms by (auto simp: scan_ready_def below_end_def low_end_def split: option.splits)

text \<open>
  C10: When the active tablets of a valid ordered directory cover the key space and are all served, and no
  key of the range is expired or internal, a client's scan terminates after at most one page per key and
  tablet, in either direction, and returns exactly the keys of the range that the tablets own, each once
  and in scan order, cut at the limit, each with the live value at its owner.
\<close>
theorem client_scan_complete:
  assumes ready: "scan_ready w ns now options"
    and fuel: "length (cluster_keys w) + length (ordered_tablets (wk_directory w)) + 2 \<le> fuel"
  shows "\<exists>es. client_scan (handle_scan w now) ns options fuel = Some (Inr es)
    \<and> map en_key es = scan_answer w options \<and> list_all (entry_live w now options) es"
proof (cases "sx_direction options")
  case Forward
  let ?c = "cursor_new ns Forward (sx_start options) (sx_end options)"
  have pos: "fwd_pos ?c = low_end options" by (simp add: fwd_pos_def cursor_new_def low_end_def)
  have "fwd_ok ns options ?c" using start_bounds [OF ready] Forward pos by (simp add: fwd_ok_def cursor_for_def cursor_new_def)
  moreover have "fwd_weight w ?c < fuel"
    using fuel weight_bound(1) [of w ?c] by simp
  moreover have "fwd_remaining w ?c = filter (in_bounds (sx_start options) (sx_end options)) (cluster_keys w)"
    using pos by (simp add: fwd_remaining_def cursor_new_def in_bounds_start)
  ultimately show ?thesis
    using forward_scan.scan_loop_complete [of w ns now options ?c fuel "[]"] ready Forward
    by (simp add: client_scan_def scan_answer_def)
next
  case Reverse
  let ?c = "cursor_new ns Reverse (sx_start options) (sx_end options)"
  have pos: "rev_pos ?c = sx_end options" by (simp add: rev_pos_def cursor_new_def)
  have "rev_ok ns options ?c" using start_bounds [OF ready] Reverse pos by (simp add: rev_ok_def cursor_for_def cursor_new_def)
  moreover have "rev_weight w options ?c < fuel"
    using fuel weight_bound(2) [of w options ?c] by simp
  moreover have "rev_remaining w options ?c = rev (filter (in_bounds (sx_start options) (sx_end options)) (cluster_keys w))"
    using pos by (simp add: rev_remaining_def cursor_new_def in_bounds_start)
  ultimately show ?thesis
    using reverse_scan.scan_loop_complete [of w ns now options ?c fuel "[]"] ready Reverse
    by (simp add: client_scan_def scan_answer_def)
qed

text \<open>Two tablets that split the key space at one key, read one entry per page.\<close>

definition demo_tablet :: "tablet_id \<Rightarrow> bytes \<Rightarrow> bytes option \<Rightarrow> tablet_descriptor" where
  "demo_tablet i start stop = \<lparr> td_id = i, td_range = RangeOrdered \<lparr> or_start = start, or_end = stop \<rparr>,
    td_state = Active, td_epoch = 1, td_guard = 1, td_redirect = None \<rparr>"

definition demo_directory :: "bytes \<Rightarrow> directory_snapshot" where
  "demo_directory split = \<lparr> ds_version = 1, ds_namespace = 7,
    ds_tablets = [demo_tablet 1 [] (Some split), demo_tablet 2 split None] \<rparr>"

definition demo_live :: "key list \<Rightarrow> live_tablet" where
  "demo_live ks = \<lparr> lt_authority = \<lparr> auth_tablet = 1, auth_epoch = 1, auth_guard = 1 \<rparr>,
    lt_store = \<lparr> objects = map (\<lambda>k. (k, demo_object None)) ks, ordered = Some ks, intents = [] \<rparr> \<rparr>"

definition demo_worker :: "bytes \<Rightarrow> scan_worker" where
  "demo_worker split = \<lparr> wk_id = 5, wk_directory = demo_directory split, wk_version = 1, wk_placement = (\<lambda>_. Some 5),
    wk_tablets = (\<lambda>i. if i = 1 then Some (demo_live [[97], [98]]) else if i = 2 then Some (demo_live [[120]]) else None),
    wk_endpoint_of = (\<lambda>_. []) \<rparr>"

definition demo_options :: "scan_direction \<Rightarrow> scan_options" where
  "demo_options direction = \<lparr> sx_direction = direction, sx_start = None, sx_end = None,
    sx_consistency = SCAN_LATEST_PER_TABLET, sx_projection = KeysOnly, sx_max_items = 1, sx_max_bytes = 64, sx_limit = None \<rparr>"

lemma demo_tablets: "ordered_tablets (demo_directory split) =
    [(\<lparr> or_start = [], or_end = Some split \<rparr>, 1), (\<lparr> or_start = split, or_end = None \<rparr>, 2)]"
  by (simp add: ordered_tablets_def demo_directory_def demo_tablet_def List.map_filter_simps)

lemma demo_directory_valid: "split \<noteq> [] \<Longrightarrow> dir_valid (demo_directory split)"
  by (auto simp: dir_valid_def demo_directory_def demo_tablet_def active_tablets_def td_valid_def ordered_range_wf_def
      ordered_range_overlaps_def below_end_def generation_is_valid_def generation_INVALID_def Nil_less_iff)

lemma demo_lookup: "split \<noteq> [] \<Longrightarrow> lookup_by_key (demo_directory split) k \<noteq> None"
  by (auto simp: lookup_by_key_def demo_directory_def demo_tablet_def ordered_range_contains_def not_less)

lemmas demo_worker_eval = demo_worker_def demo_live_def demo_tablets demo_options_def tablet_keys_def
  ordered_range_contains_iff below_end_def demo_eval

lemma demo_ready: "scan_ready (demo_worker [109]) 7 9 (demo_options direction)"
proof -
  have "\<not> hash_tablet (demo_directory [109])" by (simp add: hash_tablet_def demo_directory_def demo_tablet_def)
  moreover have "list_all (served (demo_worker [109])) (ordered_tablets (demo_directory [109]))"
    by (simp add: served_def store_inv_def index_ok_def bt_wf_def object_wf_def demo_worker_eval)
  moreover have "all_visible (demo_worker [109]) 9 (in_bounds None None)"
    by (simp add: all_visible_def in_bounds_def demo_worker_eval)
  moreover have "ds_namespace (demo_directory [109]) = 7" by (simp add: demo_directory_def)
  moreover have "\<not> is_index_key [109]" by (simp add: is_index_key_def)
  ultimately show ?thesis
    using demo_directory_valid [of "[109]"] demo_lookup [of "[109]"]
    by (simp add: scan_ready_def demo_worker_def demo_options_def demo_tablets)
qed

lemma demo_cluster: "cluster_keys (demo_worker [109]) = [[97], [98], [120]]"
proof -
  have "cluster_keys (demo_worker [109]) = sorted_list_of_set (set [[97], [98], [120]])"
    by (simp add: cluster_keys_def demo_worker_eval insert_commute)
  then show ?thesis by (simp only: sorted_list_of_set_sort_remdups) simp
qed

theorem client_scan_complete_witness:
  "\<exists>es. client_scan (handle_scan (demo_worker [109]) 9) 7 (demo_options Reverse) 7 = Some (Inr es)
    \<and> map en_key es = [[120], [98], [97]]"
  using client_scan_complete [OF demo_ready [of Reverse], of 7]
  by (simp add: demo_cluster scan_answer_def limited_def demo_options_def in_bounds_def below_end_def)
    (auto simp: demo_worker_def demo_tablets)

section \<open>Lookups of an index term\<close>

text \<open>The first page of an index lookup comes from the first tablet and names only that tablet's end.\<close>

lemma index_lookup_first_page:
  assumes d: "dir_valid (wk_directory w)" "ds_namespace (wk_directory w) = ns"
    and first: "min_start (ordered_tablets (wk_directory w)) = Some (rng, i)" "(rng, i) \<in> set (ordered_tablets (wk_directory w))"
      "served w (rng, i)" "or_end rng = Some stop"
    and rq: "rq_namespace rq = ns" "rq_key rq = term_prefix index tm" "rq_start rq = Some (term_prefix index tm)"
      "rq_end rq = prefix_successor (term_prefix index tm)" "rq_direction rq = SCAN_FORWARD" "rq_max_items rq = 1000"
      "rq_max_bytes rq = 1048576" "rq_projection rq = SCAN_KEYS_AND_VALUES" "rq_consistency rq = SCAN_LATEST_PER_TABLET"
  shows "\<exists>page. handle_scan w now rq = (S_Ok, Page_body page) \<and> \<not> pb_exhausted page \<and> pb_range_end page = Some stop"
proof -
  obtain body where body: "push_escaped tm = body @ [0]"
      and succ: "prefix_successor (term_prefix index tm) = Some (INDEX_FORMAT_TAG @ to_be index @ [0] @ body @ [1])"
    by (rule term_successor)
  let ?upto = "INDEX_FORMAT_TAG @ to_be index @ [0] @ body @ [1]"
  have less: "\<not> empty_bounds (Some (term_prefix index tm)) (Some ?upto)"
    by (simp add: empty_bounds_def term_prefix_def body not_le less_append_same)
  obtain local key_index where local: "wk_tablets w i = Some local" "store_inv (lt_store local)" "ordered (lt_store local) = Some key_index"
      "wk_placement w i = Some (wk_id w)"
    using first(3) by (auto simp: served_def split: option.splits)
  obtain t where t: "dir_get (wk_directory w) i = Some t" "td_range t = RangeOrdered rng"
    using first(2) by (auto simp: ordered_tablets_get [OF d(1)])
  define spec where "spec = \<lparr> sp_start = Some (term_prefix index tm), sp_end = Some ?upto, sp_direction = Forward,
    sp_max_items = 1000, sp_max_bytes = 1048576, sp_projection = KeysAndValues \<rparr>"
  have spec: "clamped_spec rq (rq_start rq) (rq_end rq) Forward KeysAndValues = Inr spec" "valid_spec spec"
    using rq succ less by (simp_all add: clamped_spec_def scan_spec_new_def spec_def SERVER_SCAN_MAX_ITEMS_def
        SERVER_SCAN_MAX_BYTES_def valid_spec_def usize_MAX_def)
  have "index_term spec = Some (index, tm)" unfolding index_term_iff using succ by (simp add: spec_def)
  then obtain p where p: "scan_range (lt_store local) spec now = Inr p"
    using scan_range_index [OF local(2,3) spec(2), of _ now] by (fastforce simp: index_query_def)
  have window: "is_term_window (rq_start rq) (rq_end rq) (rq_direction rq)"
    using rq succ by (simp add: is_term_window_def SCAN_FORWARD_def) (simp add: term_prefix_def)
  have projection: "scan_projection_of (rq_projection rq) = Some KeysAndValues"
    using rq(8) by (simp add: scan_projection_of_def SCAN_KEYS_AND_VALUES_def SCAN_KEYS_ONLY_def)
  have "on_local w i serve = serve rng" for serve
    using local(1,4) t by (simp add: on_local_def placement_redirect_def)
  then have "handle_index_term_scan w now rq = (S_Ok, Page_body \<lparr> pb_entries = pg_entries p, pb_exhausted = False, pb_last_key = None,
      pb_tablet = i, pb_range_start = or_start rng, pb_range_end = Some stop, pb_dir_version = ds_version (wk_directory w) \<rparr>)"
    using rq(2,3) first(1,4) spec(1) local(1) p projection by (simp add: handle_index_term_scan_def first_ordered_tablet_def)
  then show ?thesis
    using window projection rq succ less d(2) by (auto simp: handle_scan_def SCAN_FORWARD_def SCAN_LATEST_PER_TABLET_def)
qed



end
