(* ===== verification/Spec2Isabelle.thy ===== *)
theory Spec2Isabelle
  imports Control_Snapshot Replication Canonical_Bytes Scan_Complete
begin

text \<open>
  A verification development for Kivi, a replicated key-value engine in Rust.

  \<^bold>\<open>The program.\<close>  A namespace is partitioned into tablets, and a directory says which tablet owns which
  keys.  A tablet is an object store driven by a replicated log: a leader admits a client's operation, prepares
  it into a mutation with a predicted outcome, and every replica applies the committed command and remembers its
  outcome for retries.  A control plane, itself a replicated state machine, moves, splits and merges
  tablets.  Clients read single keys or scan ranges across tablets.

  \<^bold>\<open>Conventions.\<close>  A struct is a \<open>record\<close>, an enum a \<open>datatype\<close>, an integer a word of its width, and
  \<open>Result<T, E>\<close> the sum \<open>'e + 'a\<close> with \<open>Inl\<close> for the error.  A method on \<open>&mut self\<close> takes the state and
  returns it.  \<open>BTreeMap\<close>, \<open>HashMap\<close> and \<open>BTreeSet\<close> are sorted lists of entries.  A panic is a value of its own
  (\<open>AE_Panic\<close>, \<open>SE_Panic\<close>, or \<open>None\<close> from an encoder).  \<open>usize\<close> is a natural number, with the saturation written
  out where it matters.

  \<^bold>\<open>Theories and sources.\<close>
  \<^item> \<open>Prelude\<close>, \<open>Ordered_Maps\<close>: results, checked arithmetic and the standard collections.
  \<^item> \<open>Ids\<close>, \<open>Ranges\<close>, \<open>Directory\<close>, \<open>Directory_Spec\<close>: \<open>crates/kivi-types\<close> (\<open>ids.rs\<close>, \<open>authority.rs\<close>, \<open>time.rs\<close>),
    \<open>crates/kivi-tablet\<close> and \<open>spec/directory.tla\<close>.
  \<^item> \<open>Objects\<close>, \<open>Txn\<close>, \<open>Ops\<close>, \<open>Store\<close>, \<open>Store_Prepare\<close>, \<open>Index_Keys\<close>, \<open>Scan\<close>: \<open>crates/kivi-state\<close> (\<open>object.rs\<close>, \<open>txn.rs\<close>,
    \<open>ops.rs\<close>, \<open>mutation.rs\<close>, \<open>store.rs\<close>, \<open>index.rs\<close>, \<open>scan.rs\<close>).
  \<^item> \<open>Store_Invariant\<close>, \<open>Local_Commit\<close>, \<open>Store_Safety\<close>, \<open>Object_Semantics\<close>, \<open>Escrow\<close>, \<open>Prepare_Agreement\<close>: the proofs
    about the object store.
  \<^item> \<open>Control_Types\<close>, \<open>Control_State\<close>, \<open>Control_Codec\<close>, \<open>Control_Snapshot\<close>: \<open>crates/kivi-control\<close> (\<open>state.rs\<close>, \<open>mutation.rs\<close>
    and the records); \<open>Control_Safety\<close> and \<open>Control_Progress\<close> are the proofs about it.
  \<^item> \<open>Opcodes\<close>, \<open>State_Machine\<close>, \<open>Replication\<close>: \<open>crates/kivi-protocol/src/message.rs\<close> and \<open>crates/kivi-consensus\<close>
    (\<open>state_machine.rs\<close>, \<open>node.rs\<close>, \<open>command.rs\<close>, \<open>mutation.rs\<close>).
  \<^item> \<open>Codec\<close>, \<open>Codec_Rules\<close>, \<open>Object_Codec\<close>, \<open>Mutation_Codec\<close>, \<open>Outcome_Codec\<close>, \<open>Command_Codec\<close>, \<open>Canonical_Bytes\<close>:
    \<open>crates/kivi-codec\<close> and the encodings of everything a log entry holds.
  \<^item> \<open>Scan_Service\<close>, \<open>Scan_Complete\<close>: the scan handlers of \<open>crates/kivi-engine/src/compound.rs\<close> and the client's
    paging of \<open>crates/kivi-client/src/ordered.rs\<close>.

  \<^bold>\<open>What the lemmas show.\<close>
  \<^item> Directory: no two active tablets cover one key, every transition is a step of the TLA+ specification, lifecycles
    and redirects only move forward, lookups are exact.
  \<^item> Store: its invariant holds in every reachable state; a local commit is all or nothing; prepare and finalize
    equal the direct write; predictions equal execution; fencing tokens and stream offsets are consecutive; leases
    are exclusive; escrow is conserved.
  \<^item> Transactions: decisions are final; planning is correct; records decode to what was encoded.
  \<^item> Control plane: one live plan per tablet, placements frozen under a plan, routing published only from the ready
    phase, every live split can complete, snapshots restore the image and decode only to well-formed images.
  \<^item> Replication: a committed command takes effect once, an admitted proposal applies with the announced outcome,
    the gate agrees with application, topology copies keep data and deduplication.
  \<^item> Bytes: commands decode to what was encoded, no prefix or extension decodes, and accepted bytes are canonical;
    index keys sort as the tuples they encode.
  \<^item> Scans: a page is an exact prefix of the visible keys, index windows page through exactly their entries, and
    a client's scan across tablets returns every key once and in order.
  \<^item> Limits of the code, as theorems: concurrent proposals on one state poison a tablet, a scan page is blind
    behind enough invisible keys, and an index lookup fails when the first tablet ends below the index keys.

  \<^bold>\<open>Interfaces.\<close>  \<open>range_space\<close> is what the directory needs of a range type, the map contract of \<open>Ordered_Maps\<close> what
  the stores need of a map (\<open>finite_map\<close>), \<open>codec\<close> what a composite encoding needs of its parts, and \<open>paged_scan\<close> what
  the client's loop needs of the scan service.  \<open>generation_counter\<close>, \<open>plan_lifecycle\<close> and \<open>numbered_log\<close> are the contracts
  that the fencing generations, the three kinds of topology plan, and the tokens and offsets of objects share.  Each is
  interpreted on the definitions of the model.

  \<^bold>\<open>Fuel and bounds.\<close>  Only the client's two scan loops take fuel, since they may wait on a gap of the directory.
  \<open>client_scan_complete\<close> shows that one page per key and per tablet, and two more, is enough.

  \<^bold>\<open>Parameters.\<close>  The digest of a write set takes the hash function as an argument; the codecs of node records take
  the printing and parsing of socket addresses; the client takes the final answer to a request, after the
  retries and redirects of the network.  Scans look at one state of the tablets; writes that run
  between two pages are not interleaved.

  \<^bold>\<open>Not modelled.\<close>  The Raft protocol (the openraft library), transports, TLS and framing; write-ahead log,
  checkpoint and chunk files; erasure coding and fragment distribution; leader leases and read gates, which rest on
  clock bounds; the asynchronous drivers of transactions and batches, whose steps are modelled; the planner and the
  adaptive policies, whose decisions enter as control mutations; the byte format of tablet snapshots; memory placement
  and hardware discovery; the RESP edge; simulation, laboratory, metrics and \<open>Display\<close>.
\<close>

end
